(* ===== verification/Prelude.thy ===== *)
theory Prelude
  imports Complex_Main
begin

text \<open>
  Shared vocabulary of the Pixlet model (src/src/App.vue).  Colours are the hex
  strings the editor stores (\<open>'#FFFFFF'\<close>), the canvas is a list of rows of
  colours, as \<open>grid.value\<close> is a \<open>string[][]\<close>, and a cell is a pair
  \<open>(row, col)\<close> of JavaScript numbers used as integers.  The theory holds the
  grid accessors every component uses (a read that is \<open>undefined\<close> outside the
  arrays, a write guarded by the array bounds), the well-formedness of a grid
  of given dimensions, the JavaScript \<open>Array.prototype.slice(0, e)\<close> used by
  the history, and the lemmas about them that the component proofs share.
\<close>

named_theorems grid_simps "characteristic equations of the grid accessors"

type_synonym color = string
type_synonym grid = "color list list"
type_synonym cell = "int \<times> int"

abbreviation WHITE :: color where
  "WHITE \<equiv> ''#FFFFFF''"

abbreviation BLACK :: color where
  "BLACK \<equiv> ''#000000''"

text \<open>
  The guard written before every grid access of the source:
  \<open>row >= 0 && row < gridHeight && col >= 0 && col < gridWidth\<close>.
\<close>

definition in_bounds :: "int \<Rightarrow> int \<Rightarrow> int \<Rightarrow> int \<Rightarrow> bool" where
  "in_bounds h w r c \<longleftrightarrow> 0 \<le> r \<and> r < h \<and> 0 \<le> c \<and> c < w"

text \<open>
  \<open>grid[r][c]\<close> read as JavaScript does: \<open>undefined\<close> (here \<open>None\<close>) outside
  the arrays.  (A row index outside the outer array makes the inner access a
  TypeError in JavaScript; every read of the source is guarded so that this
  never happens on a well-formed grid, see \<open>grid_get_in_bounds\<close>.)
\<close>

definition grid_get :: "grid \<Rightarrow> int \<Rightarrow> int \<Rightarrow> color option" where
  "grid_get g r c =
     (if 0 \<le> r \<and> nat r < length g \<and> 0 \<le> c \<and> nat c < length (g ! nat r)
      then Some (g ! nat r ! nat c) else None)"

text \<open>
  \<open>grid[r][c] = v\<close>.  Every write of the source is guarded by
  \<open>in_bounds\<close>; outside the arrays the model leaves the grid unchanged.
\<close>

definition set_cell :: "grid \<Rightarrow> int \<Rightarrow> int \<Rightarrow> color \<Rightarrow> grid" where
  "set_cell g r c v =
     (if 0 \<le> r \<and> nat r < length g \<and> 0 \<le> c \<and> nat c < length (g ! nat r)
      then g[nat r := (g ! nat r)[nat c := v]] else g)"

definition wf_grid :: "int \<Rightarrow> int \<Rightarrow> grid \<Rightarrow> bool" where
  "wf_grid h w g \<longleftrightarrow> length g = nat h \<and> list_all (\<lambda>row. length row = nat w) g"

text \<open>\<open>xs.slice(0, e)\<close>: a negative end counts from the end of the array.\<close>

definition js_slice :: "'a list \<Rightarrow> int \<Rightarrow> 'a list" where
  "js_slice xs e =
     (if e < 0 then take (nat (int (length xs) + e)) xs else take (nat e) xs)"

subsection \<open>Grid accessors\<close>

lemma wf_grid_row_length [grid_simps]:
  "wf_grid h w g \<Longrightarrow> i < length g \<Longrightarrow> length (g ! i) = nat w"
  by (simp add: wf_grid_def list_all_length)

lemma grid_get_in_bounds [grid_simps]:
  "wf_grid h w g \<Longrightarrow> in_bounds h w r c \<Longrightarrow> grid_get g r c = Some (g ! nat r ! nat c)"
  by (auto simp: grid_get_def in_bounds_def wf_grid_def list_all_length)

lemma grid_get_out_of_bounds [grid_simps]:
  "wf_grid h w g \<Longrightarrow> \<not> in_bounds h w r c \<Longrightarrow> grid_get g r c = None"
  by (auto simp: grid_get_def in_bounds_def wf_grid_def list_all_length)

lemma grid_get_Some_in_bounds:
  "wf_grid h w g \<Longrightarrow> grid_get g r c = Some v \<Longrightarrow> in_bounds h w r c"
  using grid_get_out_of_bounds by fastforce

lemma length_set_cell [simp]: "length (set_cell g r c v) = length g"
  by (simp add: set_cell_def)

lemma wf_grid_set_cell [simp]: "wf_grid h w (set_cell g r c v) = wf_grid h w g"
  by (auto simp: set_cell_def wf_grid_def list_all_length nth_list_update)

lemma grid_get_set_cell [grid_simps]:
  "grid_get (set_cell g r c v) r' c' =
     (if (r', c') = (r, c) \<and> grid_get g r c \<noteq> None then Some v else grid_get g r' c')"
proof -
  have "nat r' = nat r \<longleftrightarrow> r' = r" if "0 \<le> r" "0 \<le> r'" for r r' :: int
    using that by (simp add: eq_nat_nat_iff)
  then show ?thesis
    by (auto simp: set_cell_def grid_get_def nth_list_update split: if_splits)
qed

lemma set_cell_same [simp]: "grid_get g r c = Some v \<Longrightarrow> set_cell g r c v = g"
  by (auto simp: set_cell_def grid_get_def split: if_splits)

text \<open>Two grids of the same shape are equal when every read agrees.\<close>

lemma grid_eqI:
  assumes "wf_grid h w g" "wf_grid h w g'"
    and "\<And>r c. in_bounds h w r c \<Longrightarrow> grid_get g r c = grid_get g' r c"
  shows "g = g'"
proof (rule nth_equalityI)
  show "length g = length g'" using assms(1,2) by (simp add: wf_grid_def)
  fix i assume i: "i < length g"
  show "g ! i = g' ! i"
  proof (rule nth_equalityI)
    show "length (g ! i) = length (g' ! i)"
      using assms(1,2) i by (simp add: wf_grid_def list_all_length)
    fix j assume j: "j < length (g ! i)"
    have b: "in_bounds h w (int i) (int j)"
      using assms(1) i j by (auto simp: wf_grid_def list_all_length in_bounds_def)
    have "grid_get g (int i) (int j) = grid_get g' (int i) (int j)"
      by (rule assms(3) [OF b])
    then show "g ! i ! j = g' ! i ! j"
      using assms(1,2) b by (simp add: grid_get_in_bounds)
  qed
qed

subsection \<open>Slices\<close>

lemma js_slice_nonneg [simp]: "0 \<le> e \<Longrightarrow> js_slice xs e = take (nat e) xs"
  by (simp add: js_slice_def)

lemma grid_get_set_cell_None [simp]:
  "grid_get (set_cell g r c v) r' c' = None \<longleftrightarrow> grid_get g r' c' = None"
  by (simp add: grid_get_set_cell)

text \<open>A run of one-cell writes of one colour, as the editor's loops make them.\<close>

lemma grid_get_fold_set_cell:
  "grid_get (fold (\<lambda>(r, c) g. set_cell g r c v) ps g) r c =
     (if (r, c) \<in> set ps \<and> grid_get g r c \<noteq> None then Some v else grid_get g r c)"
proof (induction ps arbitrary: g)
  case Nil
  then show ?case by simp
next
  case (Cons p ps)
  obtain a b where p: "p = (a, b)" by fastforce
  have "grid_get (fold (\<lambda>(r, c) g. set_cell g r c v) (p # ps) g) r c =
      grid_get (fold (\<lambda>(r, c) g. set_cell g r c v) ps (set_cell g a b v)) r c"
    by (simp add: p)
  also have "\<dots> = (if (r, c) \<in> set ps \<and> grid_get (set_cell g a b v) r c \<noteq> None then Some v
      else grid_get (set_cell g a b v) r c)"
    by (rule Cons.IH)
  also have "\<dots> = (if (r, c) \<in> set (p # ps) \<and> grid_get g r c \<noteq> None then Some v else grid_get g r c)"
    by (cases "grid_get g r c") (auto simp: grid_get_set_cell p)
  finally show ?case .
qed

lemma wf_grid_fold_set_cell [simp]:
  "wf_grid h w (fold (\<lambda>(r, c) g. set_cell g r c v) ps g) = wf_grid h w g"
  by (induction ps arbitrary: g) (simp_all add: case_prod_beta)

end
