(* ===== verification/Grid.thy ===== *)
theory Grid
  imports Prelude
begin

text \<open>
  The grid model of src/src/App.vue: the refs \<open>gridWidth\<close>, \<open>gridHeight\<close>
  and \<open>grid\<close> as a record, the fresh white grid built by \<open>initializeGrid\<close>
  (\<open>Array(gridHeight).fill(null).map(() => Array(gridWidth).fill('#FFFFFF'))\<close>),
  and the cell size \<open>pixelSize\<close> derived from the fixed 640-unit canvas.
  The record also holds the canvas bitmap, as the list of 2D-context calls
  made since the bitmap was last reset (\<open>canvas.width = CANVAS_SIZE\<close>
  clears it); the renderer (theory Render) appends to it.
\<close>

datatype draw_cmd =
    FillStyle color
  | FillRect real real real real
  | StrokeStyle string
  | LineWidth real
  | BeginPath
  | MoveTo real real
  | LineTo real real
  | Stroke

record canvas_state =
  gridWidth :: int
  gridHeight :: int
  grid :: grid
  display :: "draw_cmd list"

definition CANVAS_SIZE :: real where
  "CANVAS_SIZE = 640"

definition new_grid :: "int \<Rightarrow> int \<Rightarrow> grid" where
  "new_grid h w = replicate (nat h) (replicate (nat w) WHITE)"

definition pixelSize :: "int \<Rightarrow> int \<Rightarrow> real" where
  "pixelSize w h = min (CANVAS_SIZE / of_int w) (CANVAS_SIZE / of_int h)"

definition grid_wf :: "'a canvas_state_scheme \<Rightarrow> bool" where
  "grid_wf s \<longleftrightarrow> wf_grid (gridHeight s) (gridWidth s) (grid s)"

subsection \<open>The fresh grid\<close>

lemma wf_new_grid [simp]: "wf_grid h w (new_grid h w)"
  by (simp add: new_grid_def wf_grid_def list_all_iff)

lemma grid_get_new_grid [grid_simps]:
  "grid_get (new_grid h w) r c = (if in_bounds h w r c then Some WHITE else None)"
  by (auto simp: new_grid_def grid_get_def in_bounds_def)

lemma pixelSize_square: "pixelSize n n = CANVAS_SIZE / of_int n"
  by (simp add: pixelSize_def)

lemma pixelSize_pos: "0 < w \<Longrightarrow> 0 < h \<Longrightarrow> 0 < pixelSize w h"
  by (simp add: pixelSize_def CANVAS_SIZE_def)

end
