(* ===== verification/Render.thy ===== *)
theory Render
  imports Grid
begin

text \<open>
  The renderer of src/src/App.vue: \<open>renderCanvas\<close> (reset the bitmap, fill
  every cell, overlay the grid lines), \<open>drawGridLines\<close> and the incremental
  \<open>renderSinglePixel\<close>.  Each appends the 2D-context calls it makes to the
  \<open>display\<close> log of the state.  The context is taken as present (the source
  returns early while \<open>ctx\<close> is still null, before the component is
  mounted).  The meaning of a log is given by \<open>painted\<close>: the fill style
  in force when each rectangle was last filled; \<open>cell_fill\<close> reads the
  colour shown in the rectangle of one grid cell.
\<close>

definition GRID_LINE_STYLE :: string where
  "GRID_LINE_STYLE = ''rgba(0, 0, 0, 0.1)''"

definition cell_rect :: "real \<Rightarrow> int \<Rightarrow> int \<Rightarrow> draw_cmd" where
  "cell_rect ps row col = FillRect (of_int col * ps) (of_int row * ps) ps ps"

definition grid_line_ops :: "int \<Rightarrow> int \<Rightarrow> draw_cmd list" where
  "grid_line_ops w h =
     (let ps = pixelSize w h in
      [StrokeStyle GRID_LINE_STYLE, LineWidth 1] @
      concat (map (\<lambda>i. [BeginPath, MoveTo (of_int i * ps + 0.5) 0,
                          LineTo (of_int i * ps + 0.5) (of_int h * ps), Stroke]) [0..w]) @
      concat (map (\<lambda>i. [BeginPath, MoveTo 0 (of_int i * ps + 0.5),
                          LineTo (of_int w * ps) (of_int i * ps + 0.5), Stroke]) [0..h]))"

definition drawGridLines :: "'a canvas_state_scheme \<Rightarrow> 'a canvas_state_scheme" where
  "drawGridLines s = s\<lparr>display := display s @ grid_line_ops (gridWidth s) (gridHeight s)\<rparr>"

definition cell_fill_ops :: "int \<Rightarrow> int \<Rightarrow> grid \<Rightarrow> draw_cmd list" where
  "cell_fill_ops w h g =
     concat (map (\<lambda>row. concat (map (\<lambda>col.
        [FillStyle (g ! nat row ! nat col), cell_rect (pixelSize w h) row col])
        [0..w - 1])) [0..h - 1])"

definition renderCanvas :: "'a canvas_state_scheme \<Rightarrow> 'a canvas_state_scheme" where
  "renderCanvas s =
     drawGridLines (s\<lparr>display := cell_fill_ops (gridWidth s) (gridHeight s) (grid s)\<rparr>)"

definition border_ops :: "real \<Rightarrow> int \<Rightarrow> int \<Rightarrow> draw_cmd list" where
  "border_ops ps row col =
     (let x0 = of_int col * ps + 0.5; x1 = of_int (col + 1) * ps + 0.5;
          y0 = of_int row * ps + 0.5; y1 = of_int (row + 1) * ps + 0.5 in
      [StrokeStyle GRID_LINE_STYLE, LineWidth 1,
       BeginPath, MoveTo x0 y0, LineTo x1 y0, Stroke,
       BeginPath, MoveTo x1 y0, LineTo x1 y1, Stroke,
       BeginPath, MoveTo x0 y1, LineTo x1 y1, Stroke,
       BeginPath, MoveTo x0 y0, LineTo x0 y1, Stroke])"

definition renderSinglePixel ::
  "'a canvas_state_scheme \<Rightarrow> int \<Rightarrow> int \<Rightarrow> color \<Rightarrow> 'a canvas_state_scheme" where
  "renderSinglePixel s row col color =
     (let ps = pixelSize (gridWidth s) (gridHeight s) in
      s\<lparr>display := display s @ [FillStyle color, cell_rect ps row col] @ border_ops ps row col\<rparr>)"

subsection \<open>What a log shows\<close>

type_synonym rect = "real \<times> real \<times> real \<times> real"

fun paint_step :: "color \<times> (rect \<Rightarrow> color option) \<Rightarrow> draw_cmd \<Rightarrow> color \<times> (rect \<Rightarrow> color option)" where
  "paint_step (st, m) (FillStyle c) = (c, m)"
| "paint_step (st, m) (FillRect x y w h) = (st, m((x, y, w, h) \<mapsto> st))"
| "paint_step p _ = p"

definition paint :: "draw_cmd list \<Rightarrow> color \<times> (rect \<Rightarrow> color option) \<Rightarrow> color \<times> (rect \<Rightarrow> color option)" where
  "paint ops p = fold (\<lambda>op p. paint_step p op) ops p"

definition painted :: "draw_cmd list \<Rightarrow> rect \<Rightarrow> color option" where
  "painted ops = snd (paint ops (BLACK, Map.empty))"

definition cell_fill :: "'a canvas_state_scheme \<Rightarrow> int \<Rightarrow> int \<Rightarrow> color option" where
  "cell_fill s row col =
     (let ps = pixelSize (gridWidth s) (gridHeight s) in
      painted (display s) (of_int col * ps, of_int row * ps, ps, ps))"

text \<open>The canvas shows the grid: every cell's rectangle shows the cell's colour
  and no rectangle outside the grid is filled.\<close>

definition shows_grid :: "'a canvas_state_scheme \<Rightarrow> bool" where
  "shows_grid s \<longleftrightarrow> (\<forall>r c. cell_fill s r c = grid_get (grid s) r c)"

fun is_fill :: "draw_cmd \<Rightarrow> bool" where
  "is_fill (FillStyle _) = True"
| "is_fill (FillRect _ _ _ _) = True"
| "is_fill _ = False"

definition fill_block :: "('k \<Rightarrow> color) \<Rightarrow> ('k \<Rightarrow> rect) \<Rightarrow> 'k \<Rightarrow> draw_cmd list" where
  "fill_block f K x = [FillStyle (f x), (case K x of (a, b, c, d) \<Rightarrow> FillRect a b c d)]"

definition cell_key :: "real \<Rightarrow> int \<times> int \<Rightarrow> rect" where
  "cell_key ps rc = (of_int (snd rc) * ps, of_int (fst rc) * ps, ps, ps)"

subsection \<open>Frame lemmas\<close>

lemma cell_fill_grid_update [simp]: "cell_fill (s\<lparr>grid := g\<rparr>) = cell_fill s"
  by (simp add: cell_fill_def fun_eq_iff)

lemma renderCanvas_eq [simp]:
  "renderCanvas s =
     s\<lparr>display := cell_fill_ops (gridWidth s) (gridHeight s) (grid s) @
                   grid_line_ops (gridWidth s) (gridHeight s)\<rparr>"
  by (simp add: renderCanvas_def drawGridLines_def)

lemma renderSinglePixel_fields [simp]:
  "gridWidth (renderSinglePixel s r c v) = gridWidth s"
  "gridHeight (renderSinglePixel s r c v) = gridHeight s"
  "grid (renderSinglePixel s r c v) = grid s"
  "canvas_state.more (renderSinglePixel s r c v) = canvas_state.more s"
  by (simp_all add: renderSinglePixel_def Let_def)

subsection \<open>Painting lemmas\<close>

lemma paint_append [simp]: "paint (xs @ ys) p = paint ys (paint xs p)"
  by (simp add: paint_def)

lemma paint_Cons [simp]: "paint (x # xs) p = paint xs (paint_step p x)"
  by (simp add: paint_def)

lemma paint_Nil [simp]: "paint [] p = p"
  by (simp add: paint_def)

lemma paint_strokes: "\<forall>op \<in> set ops. \<not> is_fill op \<Longrightarrow> paint ops p = p"
proof (induction ops arbitrary: p)
  case Nil
  then show ?case by simp
next
  case (Cons op ops)
  then have "paint_step p op = p" by (cases p; cases op) auto
  with Cons show ?case by simp
qed

lemma paint_grid_lines [simp]: "paint (grid_line_ops w h) p = p"
  by (rule paint_strokes) (auto simp: grid_line_ops_def Let_def)

lemma paint_border [simp]: "paint (border_ops ps r c) p = p"
  by (rule paint_strokes) (simp add: border_ops_def Let_def)

lemma paint_fill_block [simp]:
  "paint (fill_block f K x) (st, m) = (f x, m(K x \<mapsto> f x))"
  by (simp add: fill_block_def split: prod.splits)

lemma paint_blocks_other:
  "r \<notin> K ` set xs \<Longrightarrow> snd (paint (concat (map (fill_block f K) xs)) (st, m)) r = m r"
  by (induction xs arbitrary: st m) auto

lemma paint_blocks_hit:
  "inj_on K (set xs) \<Longrightarrow> x \<in> set xs \<Longrightarrow>
     snd (paint (concat (map (fill_block f K) xs)) (st, m)) (K x) = Some (f x)"
proof (induction xs arbitrary: st m)
  case Nil
  then show ?case by simp
next
  case (Cons y ys)
  show ?case
  proof (cases "x \<in> set ys")
    case True
    with Cons show ?thesis by simp
  next
    case False
    with Cons.prems have "x = y" by simp
    moreover have "K x \<notin> K ` set ys"
      using Cons.prems False by (auto simp: inj_on_def)
    ultimately show ?thesis by (simp add: paint_blocks_other)
  qed
qed

lemma concat_map_product:
  "concat (map (\<lambda>r. concat (map (g r) cs)) rs) = concat (map (\<lambda>(r, c). g r c) (List.product rs cs))"
  by (induction rs) (simp_all add: comp_def)

lemma cell_key_inj: "ps \<noteq> 0 \<Longrightarrow> inj_on (cell_key ps) A"
  by (auto simp: inj_on_def cell_key_def)

lemma cell_fill_ops_blocks:
  "cell_fill_ops w h g =
     concat (map (fill_block (\<lambda>(r, c). g ! nat r ! nat c) (cell_key (pixelSize w h)))
       (List.product [0..h - 1] [0..w - 1]))"
  unfolding cell_fill_ops_def concat_map_product
  by (intro arg_cong [where f = concat] map_cong refl)
     (auto simp: fill_block_def cell_key_def cell_rect_def)

lemma cell_key_eq_iff: "ps \<noteq> 0 \<Longrightarrow> cell_key ps a = cell_key ps b \<longleftrightarrow> a = b"
  using cell_key_inj [of ps UNIV] by (auto dest: injD)

lemma cell_fill_key:
  "cell_fill s r c = painted (display s) (cell_key (pixelSize (gridWidth s) (gridHeight s)) (r, c))"
  by (simp add: cell_fill_def cell_key_def Let_def)

subsection \<open>The renderer's contract\<close>

text \<open>
  A full redraw shows exactly the grid: every cell's rectangle is filled with
  the cell's colour, and nothing outside the grid is filled.
\<close>


text \<open>Painting every cell of a well-formed grid as one block per cell, rows
  outside, shows exactly the grid; shared by the full redraw and the export.\<close>

lemma painted_grid_blocks:
  assumes "wf_grid h w g" "ps \<noteq> 0"
  shows "painted (concat (map (fill_block (\<lambda>(r, c). g ! nat r ! nat c) (cell_key ps))
            (List.product [0..h - 1] [0..w - 1]))) (cell_key ps (r, c)) = grid_get g r c"
proof -
  let ?xs = "List.product [0..h - 1] [0..w - 1]"
  let ?f = "\<lambda>(r, c). g ! nat r ! nat c"
  show ?thesis
  proof (cases "in_bounds h w r c")
    case True
    then have "(r, c) \<in> set ?xs" by (simp add: in_bounds_def)
    with assms(2) have "snd (paint (concat (map (fill_block ?f (cell_key ps)) ?xs)) (BLACK, Map.empty))
        (cell_key ps (r, c)) = Some (?f (r, c))"
      by (simp add: paint_blocks_hit cell_key_inj)
    with True assms(1) show ?thesis by (simp add: painted_def grid_get_in_bounds)
  next
    case False
    then have "cell_key ps (r, c) \<notin> cell_key ps ` set ?xs"
      using assms(2) by (auto simp: cell_key_eq_iff in_bounds_def)
    then have "snd (paint (concat (map (fill_block ?f (cell_key ps)) ?xs)) (BLACK, Map.empty))
        (cell_key ps (r, c)) = None"
      by (simp add: paint_blocks_other)
    with False assms(1) show ?thesis by (simp add: painted_def grid_get_out_of_bounds)
  qed
qed

lemma cell_fill_renderCanvas:
  assumes "grid_wf s" "0 < gridWidth s" "0 < gridHeight s"
  shows "cell_fill (renderCanvas s) r c = grid_get (grid s) r c"
proof -
  have ps: "pixelSize (gridWidth s) (gridHeight s) \<noteq> 0" using assms(2,3) pixelSize_pos by force
  have wf: "wf_grid (gridHeight s) (gridWidth s) (grid s)" using assms(1) by (simp add: grid_wf_def)
  show ?thesis
    using painted_grid_blocks [OF wf ps, of r c]
    by (simp add: cell_fill_key painted_def cell_fill_ops_blocks)
qed

text \<open>
  The incremental redraw changes what exactly one cell shows: the one it is
  given, now showing the given colour.
\<close>


lemma cell_fill_renderSinglePixel:
  assumes "0 < gridWidth s" "0 < gridHeight s"
  shows "cell_fill (renderSinglePixel s r c v) r' c' =
           (if (r', c') = (r, c) then Some v else cell_fill s r' c')"
proof -
  let ?ps = "pixelSize (gridWidth s) (gridHeight s)"
  have ps: "?ps \<noteq> 0" using assms pixelSize_pos by force
  obtain st m where p: "paint (display s) (BLACK, Map.empty) = (st, m)" by fastforce
  have "cell_fill (renderSinglePixel s r c v) r' c' =
      (m(cell_key ?ps (r, c) \<mapsto> v)) (cell_key ?ps (r', c'))"
    by (simp add: cell_fill_key painted_def renderSinglePixel_def Let_def cell_rect_def
        cell_key_def p)
  moreover have "cell_fill s r' c' = m (cell_key ?ps (r', c'))"
    by (simp add: cell_fill_key painted_def p)
  ultimately show ?thesis using ps by (simp add: cell_key_eq_iff)
qed

text \<open>C33.  The renderer keeps the canvas in step with the grid: after a full
  redraw of a well-formed grid the canvas shows exactly the grid, and when it
  does, a one-cell grid write followed by the incremental redraw of that cell
  keeps it so.\<close>

theorem renderCanvas_shows_grid:
  assumes "grid_wf s" "0 < gridWidth s" "0 < gridHeight s"
  shows "shows_grid (renderCanvas s) \<and>
    (shows_grid s \<longrightarrow> in_bounds (gridHeight s) (gridWidth s) r c \<longrightarrow>
       shows_grid (renderSinglePixel (s\<lparr>grid := set_cell (grid s) r c v\<rparr>) r c v))"
proof -
  have "shows_grid (renderSinglePixel (s\<lparr>grid := set_cell (grid s) r c v\<rparr>) r c v)"
    if sg: "shows_grid s" and ib: "in_bounds (gridHeight s) (gridWidth s) r c"
  proof -
    have "grid_get (grid s) r c \<noteq> None"
      using assms(1) ib by (simp add: grid_wf_def grid_get_in_bounds)
    then show ?thesis
      using sg assms(2,3)
      by (simp add: shows_grid_def cell_fill_renderSinglePixel grid_get_set_cell)
  qed
  moreover have "shows_grid (renderCanvas s)"
    using cell_fill_renderCanvas [OF assms] by (simp add: shows_grid_def)
  ultimately show ?thesis by blast
qed

subsection \<open>Witnesses\<close>

theorem renderCanvas_shows_grid_witness:
  "grid_wf \<lparr>gridWidth = 2, gridHeight = 2, grid = [[BLACK, WHITE], [WHITE, BLACK]], display = []\<rparr> \<and>
   shows_grid (renderCanvas \<lparr>gridWidth = 2, gridHeight = 2, grid = [[BLACK, WHITE], [WHITE, BLACK]], display = []\<rparr>)"
proof -
  have wf: "grid_wf \<lparr>gridWidth = 2, gridHeight = 2, grid = [[BLACK, WHITE], [WHITE, BLACK]], display = []\<rparr>"
    by (simp add: grid_wf_def wf_grid_def)
  show ?thesis
    using renderCanvas_shows_grid [OF wf] wf by simp
qed

end
