(* ===== verification/History.thy ===== *)
theory History
  imports Render
begin

text \<open>
  The undo/redo history of src/src/App.vue: the refs \<open>history\<close> (an array
  of grid snapshots) and \<open>historyIndex\<close> (the cursor), extending the grid
  state, and the operations \<open>saveState\<close>, \<open>undo\<close>, \<open>redo\<close> and
  \<open>initializeGrid\<close>.  The operations are polymorphic in the record extension,
  so the editor state of the later theories uses them directly.  Snapshots are
  deep copies in the source (\<open>grid.value.map(row => [...row])\<close>); HOL values
  are immutable, so a copy is the value itself.  Undo, redo and
  \<open>initializeGrid\<close> redraw the canvas with \<open>renderCanvas\<close> (theory Render).
\<close>

record hist_state = canvas_state +
  history :: "grid list"
  historyIndex :: int

definition MAX_HISTORY :: int where
  "MAX_HISTORY = 50"

definition saveState :: "'a hist_state_scheme \<Rightarrow> 'a hist_state_scheme" where
  "saveState s =
     (let h = js_slice (history s) (historyIndex s + 1) @ [grid s]
      in if int (length h) > MAX_HISTORY then s\<lparr>history := tl h\<rparr>
         else s\<lparr>history := h, historyIndex := historyIndex s + 1\<rparr>)"

definition undo :: "'a hist_state_scheme \<Rightarrow> 'a hist_state_scheme" where
  "undo s =
     (if historyIndex s > 0
      then renderCanvas (s\<lparr>historyIndex := historyIndex s - 1,
             grid := history s ! nat (historyIndex s - 1)\<rparr>)
      else s)"

definition redo :: "'a hist_state_scheme \<Rightarrow> 'a hist_state_scheme" where
  "redo s =
     (if historyIndex s < int (length (history s)) - 1
      then renderCanvas (s\<lparr>historyIndex := historyIndex s + 1,
             grid := history s ! nat (historyIndex s + 1)\<rparr>)
      else s)"

definition initializeGrid :: "'a hist_state_scheme \<Rightarrow> 'a hist_state_scheme" where
  "initializeGrid s =
     saveState ((renderCanvas (s\<lparr>grid := new_grid (gridHeight s) (gridWidth s)\<rparr>))
                  \<lparr>history := [], historyIndex := -1\<rparr>)"

text \<open>
  The history invariant: the cursor points into the stack, the stack respects
  its capacity, and every snapshot has the grid's dimensions.
\<close>

definition hist_bounds :: "'a hist_state_scheme \<Rightarrow> bool" where
  "hist_bounds s \<longleftrightarrow>
     0 \<le> historyIndex s \<and> historyIndex s < int (length (history s)) \<and>
     int (length (history s)) \<le> MAX_HISTORY"

definition hist_inv :: "'a hist_state_scheme \<Rightarrow> bool" where
  "hist_inv s \<longleftrightarrow>
     hist_bounds s \<and> list_all (wf_grid (gridHeight s) (gridWidth s)) (history s)"

text \<open>
  The live grid is the snapshot under the cursor: true between gestures, and
  what undo and redo rely on.
\<close>

definition hist_synced :: "'a hist_state_scheme \<Rightarrow> bool" where
  "hist_synced s \<longleftrightarrow> grid s = history s ! nat (historyIndex s)"

text \<open>
  A run of completed edit gestures: each leaves the grid \<open>g\<close> and ends in
  \<open>saveState\<close>, as \<open>stopDrawing\<close> and the fill tool do.
\<close>

definition edits :: "'a hist_state_scheme \<Rightarrow> grid list \<Rightarrow> 'a hist_state_scheme" where
  "edits s gs = fold (\<lambda>g s. saveState (s\<lparr>grid := g\<rparr>)) gs s"

text \<open>The last \<open>n\<close> elements of a list: what a bounded stack retains.\<close>

definition lastn :: "nat \<Rightarrow> 'a list \<Rightarrow> 'a list" where
  "lastn n xs = drop (length xs - n) xs"

text \<open>The cursor on the newest snapshot of a stack within capacity.\<close>

definition hist_top :: "'a hist_state_scheme \<Rightarrow> bool" where
  "hist_top s \<longleftrightarrow>
     historyIndex s = int (length (history s)) - 1 \<and> int (length (history s)) \<le> MAX_HISTORY"

subsection \<open>saveState\<close>

lemma saveState_fields [simp]:
  "gridWidth (saveState s) = gridWidth s"
  "gridHeight (saveState s) = gridHeight s"
  "grid (saveState s) = grid s"
  "display (saveState s) = display s"
  "hist_state.more (saveState s) = hist_state.more s"
  by (simp_all add: saveState_def Let_def)

text \<open>
  From any state where the cursor lies in \<open>[-1, length)\<close> of a stack within
  capacity (the invariant, or the empty stack \<open>initializeGrid\<close> builds),
  \<open>saveState\<close> drops the redo entries above the cursor, appends the grid,
  keeps the last \<open>MAX_HISTORY\<close> entries and leaves the cursor on the new top.
\<close>

lemma saveState_history:
  assumes "-1 \<le> historyIndex s" "historyIndex s < int (length (history s))"
    and "int (length (history s)) \<le> MAX_HISTORY"
  shows "history (saveState s) =
           lastn (nat MAX_HISTORY) (take (nat (historyIndex s + 1)) (history s) @ [grid s])"
    and "historyIndex (saveState s) = int (length (history (saveState s))) - 1"
proof -
  let ?h = "take (nat (historyIndex s + 1)) (history s) @ [grid s]"
  have len: "length ?h = nat (historyIndex s + 1) + 1"
    using assms(1,2) by simp
  show "history (saveState s) = lastn (nat MAX_HISTORY) ?h"
    and "historyIndex (saveState s) = int (length (history (saveState s))) - 1"
  proof (atomize (full), cases "int (length ?h) > MAX_HISTORY")
    case True
    with len assms(2,3) have "length ?h = 51"
      by (simp add: MAX_HISTORY_def nat_eq_iff split: if_splits)
    moreover from this have "take (nat (historyIndex s + 1)) (history s) \<noteq> []"
      by auto
    ultimately show "history (saveState s) = lastn (nat MAX_HISTORY) ?h \<and>
        historyIndex (saveState s) = int (length (history (saveState s))) - 1"
      using True assms(1,2) len
      by (auto simp: saveState_def Let_def lastn_def MAX_HISTORY_def drop_Suc tl_append2)
  next
    case False
    then show "history (saveState s) = lastn (nat MAX_HISTORY) ?h \<and>
        historyIndex (saveState s) = int (length (history (saveState s))) - 1"
      using assms(1,2) len
      by (auto simp: saveState_def Let_def lastn_def MAX_HISTORY_def)
  qed
qed

lemma lastn_append_lastn: "lastn n (lastn n xs @ ys) = lastn n (xs @ ys)"
proof (cases "length xs \<le> n")
  case True
  then show ?thesis by (simp add: lastn_def)
next
  case False
  then have "length xs + length ys - n = length ys + (length xs - n)" by simp
  with False show ?thesis by (simp add: lastn_def drop_drop)
qed

lemma lastn_length: "length (lastn n xs) = min n (length xs)"
  by (simp add: lastn_def)

lemma lastn_last: "xs \<noteq> [] \<Longrightarrow> 0 < n \<Longrightarrow> last (lastn n xs) = last xs"
  by (simp add: lastn_def last_drop)

lemma set_lastn: "set (lastn n xs) \<subseteq> set xs"
  by (simp add: lastn_def set_drop_subset)

text \<open>Saving on top of the stack (no redo entries) is a bounded push.\<close>

lemma saveState_top:
  assumes "hist_top s"
  shows "history (saveState s) = lastn (nat MAX_HISTORY) (history s @ [grid s])"
    and "hist_top (saveState s)"
proof -
  have b: "-1 \<le> historyIndex s" "historyIndex s < int (length (history s))"
    "int (length (history s)) \<le> MAX_HISTORY"
    using assms by (auto simp: hist_top_def)
  have t: "take (nat (historyIndex s + 1)) (history s) = history s"
    using assms by (simp add: hist_top_def)
  show h: "history (saveState s) = lastn (nat MAX_HISTORY) (history s @ [grid s])"
    using saveState_history(1) [OF b] t by simp
  show "hist_top (saveState s)"
    using saveState_history(2) [OF b] h
    by (simp add: hist_top_def lastn_length MAX_HISTORY_def)
qed

lemma edits_top:
  "hist_top s \<Longrightarrow>
     history (edits s gs) = lastn (nat MAX_HISTORY) (history s @ gs) \<and> hist_top (edits s gs)"
proof (induction gs arbitrary: s)
  case Nil
  then show ?case
    by (simp add: edits_def lastn_def hist_top_def MAX_HISTORY_def)
next
  case (Cons g gs)
  let ?s = "saveState (s\<lparr>grid := g\<rparr>)"
  have top: "hist_top (s\<lparr>grid := g\<rparr>)" using Cons.prems by (simp add: hist_top_def)
  have h: "history ?s = lastn (nat MAX_HISTORY) (history s @ [g])" and "hist_top ?s"
    using saveState_top [OF top] by simp_all
  from Cons.IH [OF this(2)] h show ?case
    by (simp add: edits_def lastn_append_lastn)
qed

lemma edits_grid: "grid (edits s gs) = (if gs = [] then grid s else last gs)"
  by (induction gs arbitrary: s) (auto simp: edits_def)

lemma initializeGrid_edits:
  "initializeGrid s =
     edits ((renderCanvas (s\<lparr>grid := new_grid (gridHeight s) (gridWidth s)\<rparr>))
              \<lparr>history := [], historyIndex := -1\<rparr>)
       [new_grid (gridHeight s) (gridWidth s)]"
  by (cases s) (simp add: initializeGrid_def edits_def)

lemma edits_append: "edits s (xs @ ys) = edits (edits s xs) ys"
  by (simp add: edits_def)

lemma edits_fields [simp]:
  "gridWidth (edits s gs) = gridWidth s" "gridHeight (edits s gs) = gridHeight s"
  by (induction gs arbitrary: s) (simp_all add: edits_def)

lemma initializeGrid_fields [simp]:
  "gridWidth (initializeGrid s) = gridWidth s" "gridHeight (initializeGrid s) = gridHeight s"
  "grid (initializeGrid s) = new_grid (gridHeight s) (gridWidth s)"
  by (simp_all add: initializeGrid_def)

subsection \<open>The history after a run of edits\<close>

text \<open>
  After \<open>initializeGrid\<close> and any number of saved edits the stack holds the
  last \<open>MAX_HISTORY\<close> of the states (blank grid first), the cursor is on the
  newest one, and the live grid is the last edit.
\<close>

lemma edits_after_initializeGrid:
  "history (edits (initializeGrid s) gs) =
     lastn (nat MAX_HISTORY) (new_grid (gridHeight s) (gridWidth s) # gs) \<and>
   hist_top (edits (initializeGrid s) gs) \<and>
   grid (edits (initializeGrid s) gs) = last (new_grid (gridHeight s) (gridWidth s) # gs)"
proof -
  let ?s0 = "(renderCanvas (s\<lparr>grid := new_grid (gridHeight s) (gridWidth s)\<rparr>))
              \<lparr>history := [], historyIndex := -1\<rparr>"
  have top: "hist_top ?s0" by (simp add: hist_top_def MAX_HISTORY_def)
  have eq: "edits (initializeGrid s) gs = edits ?s0 (new_grid (gridHeight s) (gridWidth s) # gs)"
    unfolding initializeGrid_edits edits_append [symmetric] by simp
  show ?thesis
    unfolding eq using edits_top [OF top] by (simp add: edits_grid)
qed

subsection \<open>Undo and redo\<close>

lemma undo_pow:
  assumes "hist_bounds s" "n \<le> nat (historyIndex s)"
  shows "historyIndex ((undo ^^ n) s) = historyIndex s - int n \<and>
         history ((undo ^^ n) s) = history s \<and>
         grid ((undo ^^ n) s) =
           (if n = 0 then grid s else history s ! nat (historyIndex s - int n))"
  using assms(2)
proof (induction n)
  case 0
  then show ?case by simp
next
  case (Suc n)
  let ?t = "(undo ^^ n) s"
  from Suc have ih: "historyIndex ?t = historyIndex s - int n" "history ?t = history s"
    by simp_all
  with Suc.prems have "0 < historyIndex ?t" by simp
  moreover have "(undo ^^ Suc n) s = undo ?t" by simp
  ultimately show ?case using ih by (simp add: undo_def [of ?t]) (simp add: algebra_simps)
qed

lemma redo_pow:
  assumes "hist_bounds s" "historyIndex s + int n < int (length (history s))"
  shows "historyIndex ((redo ^^ n) s) = historyIndex s + int n \<and>
         history ((redo ^^ n) s) = history s \<and>
         grid ((redo ^^ n) s) =
           (if n = 0 then grid s else history s ! nat (historyIndex s + int n))"
  using assms(2)
proof (induction n)
  case 0
  then show ?case by simp
next
  case (Suc n)
  let ?t = "(redo ^^ n) s"
  from Suc have ih: "historyIndex ?t = historyIndex s + int n" "history ?t = history s"
    by simp_all
  with Suc.prems have "historyIndex ?t < int (length (history ?t)) - 1" by simp
  moreover have "(redo ^^ Suc n) s = redo ?t" by simp
  ultimately show ?case using ih by (simp add: redo_def [of ?t]) (simp add: algebra_simps)
qed

lemma hist_top_bounds: "hist_top s \<Longrightarrow> history s \<noteq> [] \<Longrightarrow> hist_bounds s"
  by (auto simp: hist_top_def hist_bounds_def)

lemma hist_inv_bounds: "hist_inv s \<Longrightarrow> hist_bounds s"
  by (simp add: hist_inv_def)

lemma hist_bounds_saveState_args:
  "hist_bounds s \<Longrightarrow> -1 \<le> historyIndex s \<and> historyIndex s < int (length (history s)) \<and>
     int (length (history s)) \<le> MAX_HISTORY"
  by (simp add: hist_bounds_def)

lemma nth_last_index: "xs \<noteq> [] \<Longrightarrow> xs ! nat (int (length xs) - 1) = last xs"
proof -
  assume "xs \<noteq> []"
  moreover have "nat (int (length xs) - 1) = length xs - 1" by simp
  ultimately show ?thesis by (simp add: last_conv_nth)
qed

lemma hist_inv_entry_wf:
  "hist_inv s \<Longrightarrow> i < length (history s) \<Longrightarrow>
     wf_grid (gridHeight s) (gridWidth s) (history s ! i)"
  by (simp add: hist_inv_def list_all_length)

subsection \<open>Correctness of the history operations\<close>

text \<open>
  \<open>saveState\<close> keeps the history invariant and leaves the live grid as the
  snapshot under the cursor.
\<close>


lemma saveState_keep_inv:
  assumes "hist_inv s" "grid_wf s"
  shows "hist_inv (saveState s) \<and> hist_synced (saveState s)"
proof -
  have b: "-1 \<le> historyIndex s" "historyIndex s < int (length (history s))"
    "int (length (history s)) \<le> MAX_HISTORY"
    using assms(1) by (auto simp: hist_inv_def hist_bounds_def)
  let ?h = "take (nat (historyIndex s + 1)) (history s) @ [grid s]"
  have h: "history (saveState s) = lastn (nat MAX_HISTORY) ?h"
    and i: "historyIndex (saveState s) = int (length (history (saveState s))) - 1"
    using saveState_history [OF b] by simp_all
  have ne: "history (saveState s) \<noteq> []"
    using h by (simp add: lastn_def MAX_HISTORY_def)
  have len: "int (length (history (saveState s))) \<le> MAX_HISTORY"
    using h by (simp add: lastn_length MAX_HISTORY_def)
  have wf: "list_all (wf_grid (gridHeight s) (gridWidth s)) ?h"
    using assms b by (auto simp: hist_inv_def grid_wf_def list_all_iff dest: in_set_takeD)
  have "list_all (wf_grid (gridHeight s) (gridWidth s)) (history (saveState s))"
    using wf set_lastn [of "nat MAX_HISTORY" ?h] unfolding h list_all_iff by blast
  moreover have "grid s = last (history (saveState s))"
    using h by (simp add: lastn_last MAX_HISTORY_def)
  ultimately show ?thesis
    using ne len i
    by (auto simp: hist_inv_def hist_bounds_def hist_synced_def nth_last_index)
qed

text \<open>C29.  saveState drops the redo entries above the cursor, pushes the grid,
  keeps the newest 50 snapshots and puts the cursor on the new top; it keeps
  the history invariant and leaves the live grid as the snapshot under the
  cursor.\<close>

theorem saveState_inv:
  assumes "hist_inv s" "grid_wf s"
  shows "history (saveState s) =
           lastn (nat MAX_HISTORY) (take (nat (historyIndex s + 1)) (history s) @ [grid s]) \<and>
         historyIndex (saveState s) = int (length (history (saveState s))) - 1 \<and>
         hist_inv (saveState s) \<and> hist_synced (saveState s)"
proof -
  have b: "-1 \<le> historyIndex s" "historyIndex s < int (length (history s))"
    "int (length (history s)) \<le> MAX_HISTORY"
    using assms(1) by (auto simp: hist_inv_def hist_bounds_def)
  show ?thesis
    using saveState_history [OF b] saveState_keep_inv [OF assms] by blast
qed

text \<open>
  Undo and redo keep the invariant, only move the cursor, and load the
  snapshot under it into the live grid.
\<close>


lemma undo_redo_keep_inv:
  assumes "hist_inv s"
  shows "hist_inv (undo s) \<and> hist_inv (redo s) \<and>
         history (undo s) = history s \<and> history (redo s) = history s \<and>
         (0 < historyIndex s \<longrightarrow> grid_wf (undo s) \<and> hist_synced (undo s)) \<and>
         (historyIndex s < int (length (history s)) - 1 \<longrightarrow>
            grid_wf (redo s) \<and> hist_synced (redo s))"
proof -
  have "0 < historyIndex s \<longrightarrow> wf_grid (gridHeight s) (gridWidth s) (history s ! nat (historyIndex s - 1))"
    using assms by (auto simp: hist_inv_def hist_bounds_def list_all_length)
  moreover have "historyIndex s < int (length (history s)) - 1 \<longrightarrow>
      wf_grid (gridHeight s) (gridWidth s) (history s ! nat (historyIndex s + 1))"
    using assms by (auto simp: hist_inv_def hist_bounds_def list_all_length)
  ultimately show ?thesis
    using assms
    by (auto simp: undo_def redo_def hist_inv_def hist_bounds_def hist_synced_def grid_wf_def)
qed

text \<open>C32.  Between gestures, undo followed by redo restores the whole state, the
  canvas being redrawn from the grid.\<close>

theorem redo_undo_inverse:
  assumes "hist_inv s" "hist_synced s" "0 < historyIndex s"
  shows "redo (undo s) = renderCanvas s"
  using assms
  by (cases s) (auto simp: undo_def redo_def hist_inv_def hist_bounds_def hist_synced_def)

text \<open>C30.  After \<open>k < MAX_HISTORY\<close> saved edits on a fresh grid,
  \<open>k\<close> undos give back the blank grid and \<open>k\<close> redos
  after them give back the edited grid, with the stack and the cursor as they
  were.\<close>

theorem undo_all_redo_all:
  assumes "length gs < nat MAX_HISTORY"
  shows "grid ((undo ^^ length gs) (edits (initializeGrid s) gs)) =
           new_grid (gridHeight s) (gridWidth s) \<and>
         grid ((redo ^^ length gs) ((undo ^^ length gs) (edits (initializeGrid s) gs))) =
           grid (edits (initializeGrid s) gs) \<and>
         history ((redo ^^ length gs) ((undo ^^ length gs) (edits (initializeGrid s) gs))) =
           history (edits (initializeGrid s) gs) \<and>
         historyIndex ((redo ^^ length gs) ((undo ^^ length gs) (edits (initializeGrid s) gs))) =
           historyIndex (edits (initializeGrid s) gs)"
proof -
  let ?s1 = "edits (initializeGrid s) gs"
  let ?ng = "new_grid (gridHeight s) (gridWidth s)"
  let ?k = "length gs"
  let ?s2 = "(undo ^^ ?k) ?s1"
  have h: "history ?s1 = ?ng # gs" and top: "hist_top ?s1" and g: "grid ?s1 = last (?ng # gs)"
    using edits_after_initializeGrid [of s gs] assms by (simp_all add: lastn_def)
  have idx: "historyIndex ?s1 = int ?k"
    using top h by (simp add: hist_top_def)
  have b1: "hist_bounds ?s1"
    using top h by (simp add: hist_top_bounds)
  have u: "historyIndex ?s2 = 0" "history ?s2 = ?ng # gs" "grid ?s2 = ?ng"
    using undo_pow [OF b1, of ?k] idx h g by auto
  have b2: "hist_bounds ?s2" using b1 u by (simp add: hist_bounds_def h)
  have "historyIndex ((redo ^^ ?k) ?s2) = int ?k" "history ((redo ^^ ?k) ?s2) = ?ng # gs"
    "grid ((redo ^^ ?k) ?s2) = last (?ng # gs)"
    using redo_pow [OF b2, of ?k] u by (auto simp: last_conv_nth)
  with u h idx g show ?thesis by simp
qed

text \<open>C31.  Capacity: whatever the number of saved edits, the stack holds at most
  \<open>MAX_HISTORY\<close> snapshots, the oldest are the ones evicted, and
  the cursor stays on the most recent edit.\<close>

theorem history_capacity:
  "history (edits (initializeGrid s) gs) =
     drop (Suc (length gs) - nat MAX_HISTORY) (new_grid (gridHeight s) (gridWidth s) # gs) \<and>
   length (history (edits (initializeGrid s) gs)) = min (nat MAX_HISTORY) (Suc (length gs)) \<and>
   history (edits (initializeGrid s) gs) ! nat (historyIndex (edits (initializeGrid s) gs)) =
     last (new_grid (gridHeight s) (gridWidth s) # gs)"
proof -
  let ?s1 = "edits (initializeGrid s) gs"
  have h: "history ?s1 = lastn (nat MAX_HISTORY) (new_grid (gridHeight s) (gridWidth s) # gs)"
    and top: "hist_top ?s1"
    using edits_after_initializeGrid [of s gs] by simp_all
  have ne: "history ?s1 \<noteq> []" using h by (simp add: lastn_def MAX_HISTORY_def)
  have "history ?s1 ! nat (historyIndex ?s1) = last (history ?s1)"
    using top ne by (simp add: hist_top_def nth_last_index)
  also have "\<dots> = last (new_grid (gridHeight s) (gridWidth s) # gs)"
    using h by (simp add: lastn_last MAX_HISTORY_def)
  finally show ?thesis
    using h by (simp add: lastn_def lastn_length)
qed

subsection \<open>Witnesses\<close>

theorem saveState_inv_witness:
  "hist_inv \<lparr>gridWidth = 1, gridHeight = 1, grid = [[BLACK]], display = [], history = [[[WHITE]]], historyIndex = 0\<rparr> \<and>
   grid_wf \<lparr>gridWidth = 1, gridHeight = 1, grid = [[BLACK]], display = [], history = [[[WHITE]]], historyIndex = 0\<rparr> \<and>
   hist_inv (saveState \<lparr>gridWidth = 1, gridHeight = 1, grid = [[BLACK]], display = [], history = [[[WHITE]]], historyIndex = 0\<rparr>) \<and>
   hist_synced (saveState \<lparr>gridWidth = 1, gridHeight = 1, grid = [[BLACK]], display = [], history = [[[WHITE]]], historyIndex = 0\<rparr>)"
proof -
  have a: "hist_inv \<lparr>gridWidth = 1, gridHeight = 1, grid = [[BLACK]], display = [], history = [[[WHITE]]], historyIndex = 0\<rparr>"
    by (simp add: hist_inv_def hist_bounds_def MAX_HISTORY_def wf_grid_def)
  have b: "grid_wf \<lparr>gridWidth = 1, gridHeight = 1, grid = [[BLACK]], display = [], history = [[[WHITE]]], historyIndex = 0\<rparr>"
    by (simp add: grid_wf_def wf_grid_def)
  show ?thesis using saveState_inv [OF a b] a b by simp
qed

theorem redo_undo_inverse_witness:
  "hist_inv \<lparr>gridWidth = 1, gridHeight = 1, grid = [[BLACK]], display = [], history = [[[WHITE]], [[BLACK]]], historyIndex = 1\<rparr> \<and>
   hist_synced \<lparr>gridWidth = 1, gridHeight = 1, grid = [[BLACK]], display = [], history = [[[WHITE]], [[BLACK]]], historyIndex = 1\<rparr> \<and>
   0 < historyIndex \<lparr>gridWidth = 1, gridHeight = 1, grid = [[BLACK]], display = [], history = [[[WHITE]], [[BLACK]]], historyIndex = 1\<rparr> \<and>
   redo (undo \<lparr>gridWidth = 1, gridHeight = 1, grid = [[BLACK]], display = [], history = [[[WHITE]], [[BLACK]]], historyIndex = 1\<rparr>) =
     renderCanvas \<lparr>gridWidth = 1, gridHeight = 1, grid = [[BLACK]], display = [], history = [[[WHITE]], [[BLACK]]], historyIndex = 1\<rparr>"
proof -
  have a: "hist_inv \<lparr>gridWidth = 1, gridHeight = 1, grid = [[BLACK]], display = [], history = [[[WHITE]], [[BLACK]]], historyIndex = 1\<rparr>"
    by (simp add: hist_inv_def hist_bounds_def MAX_HISTORY_def wf_grid_def)
  have b: "hist_synced \<lparr>gridWidth = 1, gridHeight = 1, grid = [[BLACK]], display = [], history = [[[WHITE]], [[BLACK]]], historyIndex = 1\<rparr>"
    by (simp add: hist_synced_def)
  have c: "0 < historyIndex \<lparr>gridWidth = 1, gridHeight = 1, grid = [[BLACK]], display = [], history = [[[WHITE]], [[BLACK]]], historyIndex = 1\<rparr>"
    by simp
  show ?thesis using redo_undo_inverse [OF a b c] a b c by simp
qed

theorem undo_all_redo_all_witness:
  "length [[[BLACK]], [[WHITE]], [[BLACK]]] < nat MAX_HISTORY \<and>
   grid ((undo ^^ 3) (edits (initializeGrid \<lparr>gridWidth = 1, gridHeight = 1, grid = [], display = [], history = [], historyIndex = 0\<rparr>)
     [[[BLACK]], [[WHITE]], [[BLACK]]])) = [[WHITE]]"
proof -
  have h: "length [[[BLACK]], [[WHITE]], [[BLACK]]] < nat MAX_HISTORY"
    by (simp add: MAX_HISTORY_def)
  show ?thesis
    using undo_all_redo_all [OF h, of "\<lparr>gridWidth = 1, gridHeight = 1, grid = [], display = [], history = [], historyIndex = 0\<rparr>"] h
    by (simp add: new_grid_def numeral_3_eq_3)
qed

end
