(* ===== verification/FloodFill.thy ===== *)
theory FloodFill
  imports Prelude
begin

text \<open>
  The recursive flood fill of src/src/App.vue (\<open>floodFill\<close>): recolour the
  cell if it is in range and has the target colour, then recurse on the four
  neighbours in the order up, down, left, right, each call working on the grid
  the previous one left.  The grid and its dimensions, globals of the source,
  are parameters here.  The recursion is nested through the grid, so its
  termination is proved from a partial-correctness fact first (the number of
  target-coloured cells never grows), as for McCarthy's 91 function.
  Its specification is the connected component of the start cell: the
  relation \<open>reach\<close> of cells joined to it by 4-adjacent steps through cells
  of the target colour.
\<close>

function (domintros) floodFill ::
  "int \<Rightarrow> int \<Rightarrow> grid \<Rightarrow> int \<Rightarrow> int \<Rightarrow> color \<Rightarrow> color \<Rightarrow> grid" where
  "floodFill h w g row col tc rc =
     (if tc = rc then g
      else if row < 0 \<or> row \<ge> h \<or> col < 0 \<or> col \<ge> w then g
      else if grid_get g row col \<noteq> Some tc then g
      else
        let g1 = set_cell g row col rc;
            g2 = floodFill h w g1 (row - 1) col tc rc;
            g3 = floodFill h w g2 (row + 1) col tc rc;
            g4 = floodFill h w g3 row (col - 1) tc rc
        in floodFill h w g4 row (col + 1) tc rc)"
  by pat_completeness auto

text \<open>Cells of colour \<open>tc\<close> in the arrays of \<open>g\<close>.\<close>

definition tc_count :: "grid \<Rightarrow> color \<Rightarrow> nat" where
  "tc_count g tc = sum_list (map (\<lambda>row. count_list row tc) g)"

text \<open>
  The specification: the 4-neighbours of a cell in the order the source visits
  them, the cells reachable from a start cell through in-range cells of the
  target colour (read through a view of the grid), and a view repainted on a
  set of cells.
\<close>

type_synonym view = "int \<Rightarrow> int \<Rightarrow> color option"

definition neighbours :: "cell \<Rightarrow> cell list" where
  "neighbours p = (case p of (r, c) \<Rightarrow> [(r - 1, c), (r + 1, c), (r, c - 1), (r, c + 1)])"

inductive reach :: "int \<Rightarrow> int \<Rightarrow> view \<Rightarrow> color \<Rightarrow> cell \<Rightarrow> cell \<Rightarrow> bool"
  for h w v tc x where
  start: "in_bounds h w (fst x) (snd x) \<Longrightarrow> v (fst x) (snd x) = Some tc \<Longrightarrow> reach h w v tc x x"
| step: "reach h w v tc x p \<Longrightarrow> q \<in> set (neighbours p) \<Longrightarrow> in_bounds h w (fst q) (snd q) \<Longrightarrow>
         v (fst q) (snd q) = Some tc \<Longrightarrow> reach h w v tc x q"

code_pred reach .

definition repaint :: "view \<Rightarrow> cell set \<Rightarrow> color \<Rightarrow> view" where
  "repaint v A rc = (\<lambda>r c. if (r, c) \<in> A then Some rc else v r c)"

definition closed :: "int \<Rightarrow> int \<Rightarrow> view \<Rightarrow> color \<Rightarrow> cell set \<Rightarrow> bool" where
  "closed h w v tc A \<longleftrightarrow> (\<forall>y \<in> A. \<forall>q. reach h w v tc y q \<longrightarrow> q \<in> A)"


lemma count_list_update:
  "i < length xs \<Longrightarrow>
     count_list (xs[i := y]) x + (if xs ! i = x then 1 else 0) =
     count_list xs x + (if y = x then 1 else 0)"
proof (induction xs arbitrary: i)
  case Nil
  then show ?case by simp
next
  case (Cons a xs)
  show ?case
  proof (cases i)
    case 0
    then show ?thesis by simp
  next
    case (Suc j)
    with Cons.prems have "j < length xs" by simp
    from Cons.IH [OF this] Suc show ?thesis by (auto split: if_splits)
  qed
qed

lemma sum_list_map_update:
  "i < length xs \<Longrightarrow>
     sum_list (map f (xs[i := y])) + f (xs ! i) = sum_list (map f xs) + (f y :: nat)"
proof (induction xs arbitrary: i)
  case Nil
  then show ?case by simp
next
  case (Cons a xs)
  then show ?case by (cases i) auto
qed

lemma tc_count_set_cell:
  assumes "grid_get g r c = Some tc" "rc \<noteq> tc"
  shows "tc_count (set_cell g r c rc) tc < tc_count g tc"
proof -
  let ?i = "nat r" and ?j = "nat c"
  have ij: "?i < length g" "?j < length (g ! ?i)" "g ! ?i ! ?j = tc" and r: "0 \<le> r" "0 \<le> c"
    using assms(1) by (auto simp: grid_get_def split: if_splits)
  have row: "count_list ((g ! ?i)[?j := rc]) tc + 1 = count_list (g ! ?i) tc"
    using count_list_update [OF ij(2), of rc tc] ij(3) assms(2) by simp
  have "tc_count (set_cell g r c rc) tc + count_list (g ! ?i) tc =
        tc_count g tc + count_list ((g ! ?i)[?j := rc]) tc"
    using sum_list_map_update [OF ij(1), of "\<lambda>row. count_list row tc" "(g ! ?i)[?j := rc]"] ij r
    by (simp add: tc_count_def set_cell_def)
  with row show ?thesis by linarith
qed

lemma floodFill_count:
  "floodFill_dom (h, w, g, row, col, tc, rc) \<Longrightarrow>
     tc_count (floodFill h w g row col tc rc) tc \<le> tc_count g tc"
proof (induction rule: floodFill.pinduct)
  case (1 h w g row col tc rc)
  show ?case
  proof (cases "tc = rc \<or> row < 0 \<or> row \<ge> h \<or> col < 0 \<or> col \<ge> w \<or> grid_get g row col \<noteq> Some tc")
    case True
    then show ?thesis using "1.hyps" by (auto simp: floodFill.psimps)
  next
    case False
    let ?g1 = "set_cell g row col rc"
    let ?g2 = "floodFill h w ?g1 (row - 1) col tc rc"
    let ?g3 = "floodFill h w ?g2 (row + 1) col tc rc"
    let ?g4 = "floodFill h w ?g3 row (col - 1) tc rc"
    have "tc_count ?g1 tc < tc_count g tc"
      using False tc_count_set_cell [of g row col tc rc] by auto
    moreover have "tc_count ?g2 tc \<le> tc_count ?g1 tc" using "1.IH"(1) False by auto
    moreover have "tc_count ?g3 tc \<le> tc_count ?g2 tc" using "1.IH"(2) False by auto
    moreover have "tc_count ?g4 tc \<le> tc_count ?g3 tc" using "1.IH"(3) False by auto
    moreover have "tc_count (floodFill h w ?g4 row (col + 1) tc rc) tc \<le> tc_count ?g4 tc"
      using "1.IH"(4) False by auto
    ultimately show ?thesis
      using "1.hyps" False by (simp add: floodFill.psimps Let_def)
  qed
qed

lemma floodFill_count_less:
  "floodFill_dom (h, w, g', row, col, tc, rc) \<Longrightarrow> tc_count g' tc < n \<Longrightarrow>
     tc_count (floodFill h w g' row col tc rc) tc < n"
  using floodFill_count le_less_trans by blast

termination floodFill
  by (relation "measure (\<lambda>(h, w, g, row, col, tc, rc). tc_count g tc)")
     (simp_all add: floodFill_count_less tc_count_set_cell)

declare floodFill.simps [simp del]

subsection \<open>Reachability\<close>

lemma neighbours_sym: "q \<in> set (neighbours p) \<longleftrightarrow> p \<in> set (neighbours q)"
  by (cases p; cases q) (auto simp: neighbours_def)

lemma reach_cell: "reach h w v tc x q \<Longrightarrow> in_bounds h w (fst q) (snd q) \<and> v (fst q) (snd q) = Some tc"
  by (induction rule: reach.induct) auto

lemma reach_source: "reach h w v tc x q \<Longrightarrow> in_bounds h w (fst x) (snd x) \<and> v (fst x) (snd x) = Some tc"
  by (induction rule: reach.induct) auto

lemma reach_trans: "reach h w v tc p q \<Longrightarrow> reach h w v tc x p \<Longrightarrow> reach h w v tc x q"
  by (induction rule: reach.induct) (auto intro: reach.step)

lemma reach_sym: "reach h w v tc x q \<Longrightarrow> reach h w v tc q x"
proof (induction rule: reach.induct)
  case start
  then show ?case by (rule reach.start)
next
  case (step p q)
  have "reach h w v tc q q" using step.hyps(3,4) by (rule reach.start)
  moreover have "in_bounds h w (fst p) (snd p) \<and> v (fst p) (snd p) = Some tc"
    using step.hyps(1) by (rule reach_cell)
  ultimately have "reach h w v tc q p"
    using step.hyps(2) neighbours_sym by (blast intro: reach.step)
  with step.IH show ?case by (rule reach_trans)
qed

lemma reach_mono:
  "reach h w v' tc x q \<Longrightarrow> (\<And>r c. v' r c = Some tc \<Longrightarrow> v r c = Some tc) \<Longrightarrow> reach h w v tc x q"
  by (induction rule: reach.induct) (auto intro: reach.intros)

lemma repaint_tc: "rc \<noteq> tc \<Longrightarrow> repaint v A rc r c = Some tc \<Longrightarrow> v r c = Some tc"
  by (simp add: repaint_def split: if_splits)

lemma reach_repaint_outside:
  assumes "closed h w v tc A" "x \<notin> A"
  shows "reach h w v tc x q \<Longrightarrow> reach h w (repaint v A rc) tc x q"
proof (induction rule: reach.induct)
  case start
  with assms(2) show ?case by (auto simp: repaint_def intro: reach.start)
next
  case (step p q)
  have "q \<notin> A"
  proof
    assume "q \<in> A"
    moreover have "reach h w v tc q x"
      using reach.step [OF step.hyps] by (rule reach_sym)
    ultimately have "x \<in> A" using assms(1) unfolding closed_def by blast
    with assms(2) show False by simp
  qed
  then have "repaint v A rc (fst q) (snd q) = Some tc"
    using step.hyps(4) by (simp add: repaint_def)
  with step.IH step.hyps(2,3) show ?case by (rule reach.step)
qed

lemma reach_repaint_union:
  assumes "closed h w v tc A" "rc \<noteq> tc"
  shows "{q. reach h w (repaint v A rc) tc x q} \<union> A = {q. reach h w v tc x q} \<union> A"
proof
  show "{q. reach h w (repaint v A rc) tc x q} \<union> A \<subseteq> {q. reach h w v tc x q} \<union> A"
    using reach_mono [where v' = "repaint v A rc" and v = v] repaint_tc [OF assms(2)] by blast
next
  show "{q. reach h w v tc x q} \<union> A \<subseteq> {q. reach h w (repaint v A rc) tc x q} \<union> A"
  proof (clarify)
    fix q assume r: "reach h w v tc x q" and "q \<notin> A"
    show "reach h w (repaint v A rc) tc x q"
    proof (cases "x \<in> A")
      case True
      with r assms(1) \<open>q \<notin> A\<close> show ?thesis unfolding closed_def by blast
    next
      case False
      from assms(1) False r show ?thesis by (rule reach_repaint_outside)
    qed
  qed
qed

lemma closed_reach: "closed h w v tc {q. reach h w v tc x q}"
  by (auto simp: closed_def intro: reach_trans)

lemma closed_Un: "closed h w v tc A \<Longrightarrow> closed h w v tc B \<Longrightarrow> closed h w v tc (A \<union> B)"
  by (auto simp: closed_def)

lemma closed_empty: "closed h w v tc {}"
  by (simp add: closed_def)

lemma repaint_repaint: "repaint (repaint v A rc) B rc = repaint v (A \<union> B) rc"
  by (auto simp: repaint_def fun_eq_iff)

lemma repaint_step:
  assumes "closed h w v tc U" "rc \<noteq> tc"
  shows "repaint (repaint v U rc) {q. reach h w (repaint v U rc) tc n q} rc =
         repaint v (U \<union> {q. reach h w v tc n q}) rc"
proof -
  have "U \<union> {q. reach h w (repaint v U rc) tc n q} = U \<union> {q. reach h w v tc n q}"
    using reach_repaint_union [OF assms, of n] by blast
  then show ?thesis by (simp add: repaint_repaint)
qed

lemma reach_start_split:
  assumes "in_bounds h w r c" "v r c = Some tc" "rc \<noteq> tc"
  shows "{q. reach h w v tc (r, c) q} =
         {(r, c)} \<union> (\<Union>n \<in> set (neighbours (r, c)). {q. reach h w (repaint v {(r, c)} rc) tc n q})"
    (is "?L = {(r, c)} \<union> ?R")
proof
  show "?L \<subseteq> {(r, c)} \<union> ?R"
  proof
    fix q assume "q \<in> ?L"
    then have "reach h w v tc (r, c) q" by simp
    then show "q \<in> {(r, c)} \<union> ?R"
    proof (induction rule: reach.induct)
      case start
      then show ?case by simp
    next
      case (step p q)
      show ?case
      proof (cases "q = (r, c)")
        case True
        then show ?thesis by simp
      next
        case False
        then have tc: "repaint v {(r, c)} rc (fst q) (snd q) = Some tc"
          using step.hyps(4) by (cases q) (auto simp: repaint_def)
        from step.IH show ?thesis
        proof
          assume "p \<in> {(r, c)}"
          then have "q \<in> set (neighbours (r, c))" using step.hyps(2) by simp
          moreover have "reach h w (repaint v {(r, c)} rc) tc q q"
            using step.hyps(3) tc by (rule reach.start)
          ultimately show ?thesis by blast
        next
          assume "p \<in> ?R"
          then obtain n where n: "n \<in> set (neighbours (r, c))"
            and "reach h w (repaint v {(r, c)} rc) tc n p" by blast
          then have "reach h w (repaint v {(r, c)} rc) tc n q"
            using step.hyps(2,3) tc by (blast intro: reach.step)
          with n show ?thesis by blast
        qed
      qed
    qed
  qed
next
  have s: "reach h w v tc (r, c) (r, c)" using assms(1,2) by (simp add: reach.start)
  show "{(r, c)} \<union> ?R \<subseteq> ?L"
  proof
    fix q assume "q \<in> {(r, c)} \<union> ?R"
    then show "q \<in> ?L"
    proof
      assume "q \<in> {(r, c)}"
      with s show ?thesis by simp
    next
      assume "q \<in> ?R"
      then obtain n where n: "n \<in> set (neighbours (r, c))"
        and rn: "reach h w (repaint v {(r, c)} rc) tc n q" by blast
      have "reach h w v tc n q"
        using rn repaint_tc [OF assms(3)] by (rule reach_mono)
      moreover have "in_bounds h w (fst n) (snd n) \<and> v (fst n) (snd n) = Some tc"
        using reach_source [OF rn] repaint_tc [OF assms(3)] by blast
      then have "reach h w v tc (r, c) n" using s n by (blast intro: reach.step)
      ultimately show ?thesis by (simp add: reach_trans)
    qed
  qed
qed

lemma grid_get_set_cell_repaint:
  "grid_get g r c \<noteq> None \<Longrightarrow> grid_get (set_cell g r c rc) = repaint (grid_get g) {(r, c)} rc"
  by (auto simp: fun_eq_iff repaint_def grid_get_set_cell)

lemma repaint_empty [simp]: "repaint v {} rc = v"
  by (simp add: repaint_def fun_eq_iff)


lemma floodFill_repaint:
  "wf_grid h w g \<Longrightarrow> tc \<noteq> rc \<Longrightarrow>
     wf_grid h w (floodFill h w g row col tc rc) \<and>
     grid_get (floodFill h w g row col tc rc) =
       repaint (grid_get g) {q. reach h w (grid_get g) tc (row, col) q} rc"
proof (induction h w g row col tc rc rule: floodFill.induct)
  case (1 h w g row col tc rc)
  show ?case
  proof (cases "row < 0 \<or> row \<ge> h \<or> col < 0 \<or> col \<ge> w \<or> grid_get g row col \<noteq> Some tc")
    case True
    then have e: "{q. reach h w (grid_get g) tc (row, col) q} = {}"
      using reach_source by (fastforce simp: in_bounds_def)
    have ff: "floodFill h w g row col tc rc = g"
      using True by (subst floodFill.simps) auto
    show ?thesis unfolding ff e using "1.prems" by simp
  next
    case False
    let ?v = "grid_get g"
    let ?g1 = "set_cell g row col rc"
    let ?v1 = "grid_get ?g1"
    let ?g2 = "floodFill h w ?g1 (row - 1) col tc rc"
    let ?g3 = "floodFill h w ?g2 (row + 1) col tc rc"
    let ?g4 = "floodFill h w ?g3 row (col - 1) tc rc"
    let ?g5 = "floodFill h w ?g4 row (col + 1) tc rc"
    let ?R = "\<lambda>n. {q. reach h w ?v1 tc n q}"
    have tc: "tc \<noteq> rc" and ib: "in_bounds h w row col" and at: "?v row col = Some tc"
      using "1.prems" False by (auto simp: in_bounds_def)
    have v1: "?v1 = repaint ?v {(row, col)} rc"
      using at by (simp add: grid_get_set_cell_repaint)
    have wf1: "wf_grid h w ?g1" using "1.prems" by simp
    have i2: "wf_grid h w ?g2 \<and> grid_get ?g2 = repaint ?v1 (?R (row - 1, col)) rc"
      using "1.IH"(1) [OF _ _ _ refl wf1 tc] False tc by simp
    have i3: "wf_grid h w ?g3 \<and> grid_get ?g3 =
        repaint ?v1 (?R (row - 1, col) \<union> ?R (row + 1, col)) rc"
      using "1.IH"(2) [OF _ _ _ refl refl _ tc] False tc i2
      by (simp add: repaint_step closed_reach closed_Un)
    have i4: "wf_grid h w ?g4 \<and> grid_get ?g4 =
        repaint ?v1 (?R (row - 1, col) \<union> ?R (row + 1, col) \<union> ?R (row, col - 1)) rc"
      using "1.IH"(3) [OF _ _ _ refl refl refl _ tc] False tc i3
      by (simp add: repaint_step closed_reach closed_Un)
    have i5: "wf_grid h w ?g5 \<and> grid_get ?g5 =
        repaint ?v1 (?R (row - 1, col) \<union> ?R (row + 1, col) \<union> ?R (row, col - 1) \<union> ?R (row, col + 1)) rc"
      using "1.IH"(4) [OF _ _ _ refl refl refl refl _ tc] False tc i4
      by (simp add: repaint_step closed_reach closed_Un)
    have "{q. reach h w ?v tc (row, col) q} =
        {(row, col)} \<union> (?R (row - 1, col) \<union> ?R (row + 1, col) \<union> ?R (row, col - 1) \<union> ?R (row, col + 1))"
      using reach_start_split [where v = "grid_get g", OF ib at tc [symmetric]] v1
      by (auto simp: neighbours_def)
    moreover have "floodFill h w g row col tc rc = ?g5"
      using False tc by (subst floodFill.simps) (simp add: Let_def)
    ultimately show ?thesis
      using i5 v1 by (simp add: repaint_repaint)
  qed
qed

lemma floodFill_same_colour [simp]: "floodFill h w g row col tc tc = g"
  by (subst floodFill.simps) simp

lemma floodFill_wf: "wf_grid h w g \<Longrightarrow> wf_grid h w (floodFill h w g row col tc rc)"
  using floodFill_repaint [of h w g tc rc row col] by (cases "tc = rc") simp_all

text \<open>C22.  On a well-formed grid, floodFill keeps the grid well-formed and, unless
  the target colour is the replacement (then it changes nothing), repaints
  exactly the 4-connected component of target-coloured cells containing the
  start cell.\<close>

theorem floodFill_correct:
  assumes "wf_grid h w g"
  shows "wf_grid h w (floodFill h w g row col tc rc) \<and>
     grid_get (floodFill h w g row col tc rc) =
       (if tc = rc then grid_get g
        else repaint (grid_get g) {q. reach h w (grid_get g) tc (row, col) q} rc)"
  using floodFill_repaint [OF assms] assms by (cases "tc = rc") simp_all

text \<open>C28.  Flood fill only recolours: a cell whose value changes held the target
  colour and now holds the replacement.\<close>

theorem floodFill_frame:
  assumes "wf_grid h w g"
    and "grid_get (floodFill h w g row col tc rc) r c \<noteq> grid_get g r c"
  shows "grid_get g r c = Some tc \<and> grid_get (floodFill h w g row col tc rc) r c = Some rc"
proof (cases "tc = rc")
  case True
  with assms(2) show ?thesis by simp
next
  case False
  have eq: "grid_get (floodFill h w g row col tc rc) r c =
      repaint (grid_get g) {q. reach h w (grid_get g) tc (row, col) q} rc r c"
    using floodFill_repaint [OF assms(1) False] by simp
  with assms(2) have "reach h w (grid_get g) tc (row, col) (r, c)"
    by (auto simp: repaint_def split: if_splits)
  then show ?thesis
    using reach_cell eq by (fastforce simp: repaint_def)
qed

lemma reach_path:
  assumes "reach h w v tc x (f 0)"
    and "\<And>k. k \<le> n \<Longrightarrow> in_bounds h w (fst (f k)) (snd (f k)) \<and> v (fst (f k)) (snd (f k)) = Some tc"
    and "\<And>k. k < n \<Longrightarrow> f (Suc k) \<in> set (neighbours (f k))"
  shows "reach h w v tc x (f n)"
  using assms(2,3)
proof (induction n)
  case 0
  then show ?case using assms(1) by simp
next
  case (Suc n)
  then have "reach h w v tc x (f n)" by simp
  with Suc.prems show ?case by (blast intro: reach.step)
qed

lemma reach_uniform:
  assumes uni: "\<And>r c. in_bounds h w r c \<Longrightarrow> v r c = Some tc"
    and x: "in_bounds h w r0 c0" and q: "in_bounds h w r1 c1"
  shows "reach h w v tc (r0, c0) (r1, c1)"
proof -
  let ?f = "\<lambda>k::nat. (if r0 \<le> r1 then r0 + int k else r0 - int k, c0)"
  let ?g = "\<lambda>k::nat. (r1, if c0 \<le> c1 then c0 + int k else c0 - int k)"
  have "reach h w v tc (r0, c0) (?f 0)"
    using x uni by (simp add: reach.start)
  then have "reach h w v tc (r0, c0) (?f (nat \<bar>r1 - r0\<bar>))"
    by (rule reach_path) (use x q uni in \<open>auto simp: in_bounds_def neighbours_def\<close>)
  moreover have "?f (nat \<bar>r1 - r0\<bar>) = ?g 0" by (simp add: abs_if)
  ultimately have "reach h w v tc (r0, c0) (?g 0)" by simp
  then have "reach h w v tc (r0, c0) (?g (nat \<bar>c1 - c0\<bar>))"
    by (rule reach_path) (use x q uni in \<open>auto simp: in_bounds_def neighbours_def\<close>)
  moreover have "?g (nat \<bar>c1 - c0\<bar>) = (r1, c1)" by (simp add: abs_if)
  ultimately show ?thesis by simp
qed

text \<open>C27.  On a grid filled with one colour, a fill from any cell in range
  recolours every cell.\<close>

theorem floodFill_uniform:
  assumes wf: "wf_grid h w g" and uni: "list_all (list_all (\<lambda>x. x = tc)) g"
    and ib: "in_bounds h w row col" and tc: "tc \<noteq> rc"
  shows "floodFill h w g row col tc rc = replicate (nat h) (replicate (nat w) rc)"
proof (rule grid_eqI)
  show "wf_grid h w (floodFill h w g row col tc rc)" using floodFill_repaint [OF wf tc] by simp
  show "wf_grid h w (replicate (nat h) (replicate (nat w) rc))" by (simp add: wf_grid_def list_all_iff)
  fix r c assume rc: "in_bounds h w r c"
  have cells: "grid_get g r c = Some tc" if "in_bounds h w r c" for r c
  proof -
    have "nat r < length g" "nat c < length (g ! nat r)"
      using wf that by (auto simp: in_bounds_def wf_grid_def list_all_length)
    then have "g ! nat r ! nat c = tc" using uni by (simp add: list_all_length)
    then show ?thesis using grid_get_in_bounds [OF wf that] by simp
  qed
  have "reach h w (grid_get g) tc (row, col) (r, c)"
    using cells ib rc by (rule reach_uniform)
  then have "grid_get (floodFill h w g row col tc rc) r c = Some rc"
    using floodFill_repaint [OF wf tc] by (simp add: repaint_def)
  moreover have "grid_get (replicate (nat h) (replicate (nat w) rc)) r c = Some rc"
    using rc by (auto simp: grid_get_def in_bounds_def)
  ultimately show "grid_get (floodFill h w g row col tc rc) r c =
      grid_get (replicate (nat h) (replicate (nat w) rc)) r c" by simp
qed

subsection \<open>Witnesses\<close>

theorem floodFill_correct_witness:
  "wf_grid 2 2 [[WHITE, BLACK], [WHITE, WHITE]] \<and>
   grid_get (floodFill 2 2 [[WHITE, BLACK], [WHITE, WHITE]] 0 0 WHITE BLACK) =
     repaint (grid_get [[WHITE, BLACK], [WHITE, WHITE]])
       {q. reach 2 2 (grid_get [[WHITE, BLACK], [WHITE, WHITE]]) WHITE (0, 0) q} BLACK"
proof -
  have wf: "wf_grid 2 2 [[WHITE, BLACK], [WHITE, WHITE]]" by (simp add: wf_grid_def)
  show ?thesis using floodFill_correct [OF wf, of 0 0 WHITE BLACK] wf by simp
qed

theorem floodFill_frame_witness:
  "wf_grid 1 2 [[WHITE, BLACK]] \<and>
   grid_get (floodFill 1 2 [[WHITE, BLACK]] 0 0 WHITE BLACK) 0 0 \<noteq> grid_get [[WHITE, BLACK]] 0 0 \<and>
   grid_get [[WHITE, BLACK]] 0 0 = Some WHITE"
proof -
  have wf: "wf_grid 1 2 [[WHITE, BLACK]]" by (simp add: wf_grid_def)
  have ff: "floodFill 1 2 [[WHITE, BLACK]] 0 0 WHITE BLACK = [[BLACK, BLACK]]"
    by (simp add: floodFill.simps grid_get_def set_cell_def)
  have ch: "grid_get (floodFill 1 2 [[WHITE, BLACK]] 0 0 WHITE BLACK) 0 0 \<noteq> grid_get [[WHITE, BLACK]] 0 0"
    unfolding ff by (simp add: grid_get_def)
  show ?thesis using floodFill_frame [OF wf ch] wf ch by simp
qed

theorem floodFill_uniform_witness:
  "floodFill 2 2 [[WHITE, WHITE], [WHITE, WHITE]] 1 0 WHITE BLACK = [[BLACK, BLACK], [BLACK, BLACK]]"
proof -
  have wf: "wf_grid 2 2 [[WHITE, WHITE], [WHITE, WHITE]]" by (simp add: wf_grid_def)
  have uni: "list_all (list_all (\<lambda>x. x = WHITE)) [[WHITE, WHITE], [WHITE, WHITE]]" by simp
  have ib: "in_bounds 2 2 1 0" by (simp add: in_bounds_def)
  have tc: "WHITE \<noteq> BLACK" by simp
  show ?thesis using floodFill_uniform [OF wf uni ib tc] by (simp add: numeral_2_eq_2)
qed

end
