(* ===== verification/Bresenham.thy ===== *)
theory Bresenham
  imports Prelude
begin

text \<open>
  The stroke interpolator \<open>drawLine\<close> of src/src/App.vue (lines 261--286).
  The source loop calls \<open>drawPixel\<close> on each visited cell; here the per-cell
  action is a parameter \<open>plot\<close> on an arbitrary state, so that the editor
  (theory Editor) instantiates it with its own \<open>drawPixel\<close>.  The
  \<open>while (true)\<close> loop is a \<open>partial_function (option)\<close>: a run that never
  reached the end cell would be \<open>None\<close>.  The invariant \<open>bres_inv\<close> relates the
  error accumulator to the distances still to go; every step keeps it and
  shortens the major-axis distance by one, so the loop stops after exactly
  \<open>max dx dy\<close> steps.
\<close>

partial_function (option) line_loop ::
  "('s \<Rightarrow> int \<Rightarrow> int \<Rightarrow> 's) \<Rightarrow> int \<Rightarrow> int \<Rightarrow> int \<Rightarrow> int \<Rightarrow> int \<Rightarrow> int \<Rightarrow>
   's \<Rightarrow> int \<Rightarrow> int \<Rightarrow> int \<Rightarrow> 's option" where
  "line_loop plot row1 col1 dx dy sx sy s r c err =
     (let s' = plot s r c in
      if r = row1 \<and> c = col1 then Some s'
      else
        let e2 = 2 * err;
            err1 = (if e2 > - dy then err - dy else err);
            c' = (if e2 > - dy then c + sx else c);
            err2 = (if e2 < dx then err1 + dx else err1);
            r' = (if e2 < dx then r + sy else r)
        in line_loop plot row1 col1 dx dy sx sy s' r' c' err2)"

definition bresenham ::
  "('s \<Rightarrow> int \<Rightarrow> int \<Rightarrow> 's) \<Rightarrow> 's \<Rightarrow> int \<Rightarrow> int \<Rightarrow> int \<Rightarrow> int \<Rightarrow> 's option" where
  "bresenham plot s row0 col0 row1 col1 =
     (let dx = \<bar>col1 - col0\<bar>; dy = \<bar>row1 - row0\<bar>;
          sx = (if col0 < col1 then 1 else -1); sy = (if row0 < row1 then 1 else -1)
      in line_loop plot row1 col1 dx dy sx sy s row0 col0 (dx - dy))"

definition line_cells :: "int \<Rightarrow> int \<Rightarrow> int \<Rightarrow> int \<Rightarrow> cell list option" where
  "line_cells row0 col0 row1 col1 = bresenham (\<lambda>cs r c. cs @ [(r, c)]) [] row0 col0 row1 col1"

definition adj8 :: "cell \<Rightarrow> cell \<Rightarrow> bool" where
  "adj8 p q \<longleftrightarrow> p \<noteq> q \<and> \<bar>fst q - fst p\<bar> \<le> 1 \<and> \<bar>snd q - snd p\<bar> \<le> 1"

definition bres_inv :: "int \<Rightarrow> int \<Rightarrow> int \<Rightarrow> int \<Rightarrow> int \<Rightarrow> int \<Rightarrow> int \<Rightarrow> int \<Rightarrow> int \<Rightarrow> bool" where
  "bres_inv row1 col1 dx dy sx sy r c err \<longleftrightarrow>
     0 \<le> dx \<and> 0 \<le> dy \<and> sx * sx = 1 \<and> sy * sy = 1 \<and>
     0 \<le> sx * (col1 - c) \<and> sx * (col1 - c) \<le> dx \<and>
     0 \<le> sy * (row1 - r) \<and> sy * (row1 - r) \<le> dy \<and>
     err = dx - dy + sx * (col1 - c) * dy - sy * (row1 - r) * dx \<and>
     (dy \<le> dx \<longrightarrow> dx - 2 * dy \<le> 2 * err) \<and>
     (dx \<le> dy \<longrightarrow> 2 * err \<le> 2 * dx - dy) \<and>
     (dx = dy \<longrightarrow> err = 0)"

definition plot_cells :: "('s \<Rightarrow> int \<Rightarrow> int \<Rightarrow> 's) \<Rightarrow> cell list \<Rightarrow> 's \<Rightarrow> 's" where
  "plot_cells plot cs s = fold (\<lambda>(r, c) s. plot s r c) cs s"

definition in_box :: "int \<Rightarrow> int \<Rightarrow> int \<Rightarrow> int \<Rightarrow> int \<Rightarrow> int \<Rightarrow> cell \<Rightarrow> bool" where
  "in_box row1 col1 sx sy r c p \<longleftrightarrow>
     0 \<le> sx * (col1 - snd p) \<and> sx * (col1 - snd p) \<le> sx * (col1 - c) \<and>
     0 \<le> sy * (row1 - fst p) \<and> sy * (row1 - fst p) \<le> sy * (row1 - r)"

definition line_box :: "int \<Rightarrow> int \<Rightarrow> int \<Rightarrow> int \<Rightarrow> cell \<Rightarrow> bool" where
  "line_box row0 col0 row1 col1 p \<longleftrightarrow>
     min row0 row1 \<le> fst p \<and> fst p \<le> max row0 row1 \<and> min col0 col1 \<le> snd p \<and> snd p \<le> max col0 col1"

subsection \<open>Arithmetic of one step\<close>

text \<open>
  The loop in terms of the distances still to go, \<open>a\<close> columns and \<open>b\<close>
  rows: a column step needs a column to go, a row step a row to go, and the
  major axis steps every time.
\<close>

lemma bres_col_step_pos:
  fixes a b dx dy err :: int
  assumes "0 \<le> dx" "0 \<le> dy" "0 \<le> a" "0 \<le> b" "err = dx - dy + a * dy - b * dx"
    and "\<not> (a = 0 \<and> b = 0)" "2 * err > - dy"
  shows "1 \<le> a"
proof (rule ccontr)
  assume "\<not> 1 \<le> a"
  with assms(3) have a: "a = 0" by simp
  with assms(6) assms(4) have "1 \<le> b" by simp
  then have "dx \<le> b * dx" using assms(1) by (simp add: mult_le_cancel_right1)
  with a assms(2,5,7) show False by simp
qed

lemma bres_row_step_pos:
  fixes a b dx dy err :: int
  assumes "0 \<le> dx" "0 \<le> dy" "0 \<le> a" "0 \<le> b" "err = dx - dy + a * dy - b * dx"
    and "\<not> (a = 0 \<and> b = 0)" "2 * err < dx"
  shows "1 \<le> b"
proof (rule ccontr)
  assume "\<not> 1 \<le> b"
  with assms(4) have b: "b = 0" by simp
  with assms(6) assms(3) have "1 \<le> a" by simp
  then have "dy \<le> a * dy" using assms(2) by (simp add: mult_le_cancel_right1)
  with b assms(1,5,7) show False by simp
qed

lemma bres_major_col:
  fixes a b dx dy err :: int
  assumes "0 \<le> a" "a \<le> dx" "0 \<le> b" "b \<le> dy" "\<not> (a = 0 \<and> b = 0)"
    and "dy \<le> dx" "dy \<le> dx \<longrightarrow> dx - 2 * dy \<le> 2 * err" "dx = dy \<longrightarrow> err = 0"
  shows "2 * err > - dy"
  using assms by (cases "dx = dy") auto

lemma bres_major_row:
  fixes a b dx dy err :: int
  assumes "0 \<le> a" "a \<le> dx" "0 \<le> b" "b \<le> dy" "\<not> (a = 0 \<and> b = 0)"
    and "dx \<le> dy" "dx \<le> dy \<longrightarrow> 2 * err \<le> 2 * dx - dy" "dx = dy \<longrightarrow> err = 0"
  shows "2 * err < dx"
  using assms by (cases "dx = dy") auto

lemma bres_ab_step:
  fixes a b dx dy err :: int
  assumes d: "0 \<le> dx" "0 \<le> dy" and ab: "0 \<le> a" "a \<le> dx" "0 \<le> b" "b \<le> dy"
    and e: "err = dx - dy + a * dy - b * dx"
    and m1: "dy \<le> dx \<longrightarrow> dx - 2 * dy \<le> 2 * err"
    and m2: "dx \<le> dy \<longrightarrow> 2 * err \<le> 2 * dx - dy"
    and m3: "dx = dy \<longrightarrow> err = 0"
    and ne: "\<not> (a = 0 \<and> b = 0)"
  defines "cs \<equiv> 2 * err > - dy" and "rs \<equiv> 2 * err < dx"
  defines "a' \<equiv> (if cs then a - 1 else a)" and "b' \<equiv> (if rs then b - 1 else b)"
    and "err' \<equiv> (if rs then (if cs then err - dy else err) + dx else (if cs then err - dy else err))"
  shows "0 \<le> a' \<and> a' \<le> dx \<and> 0 \<le> b' \<and> b' \<le> dy \<and>
         err' = dx - dy + a' * dy - b' * dx \<and>
         (dy \<le> dx \<longrightarrow> dx - 2 * dy \<le> 2 * err') \<and>
         (dx \<le> dy \<longrightarrow> 2 * err' \<le> 2 * dx - dy) \<and>
         (dx = dy \<longrightarrow> err' = 0) \<and>
         (if dy \<le> dx then a' = a - 1 else b' = b - 1)"
proof -
  have cpos: "cs \<Longrightarrow> 1 \<le> a"
    using bres_col_step_pos [OF d ab(1) ab(3) e ne] by (simp add: cs_def)
  have rpos: "rs \<Longrightarrow> 1 \<le> b"
    using bres_row_step_pos [OF d ab(1) ab(3) e ne] by (simp add: rs_def)
  have mc: "dy \<le> dx \<Longrightarrow> cs"
    using bres_major_col [OF ab ne _ m1 m3] by (simp add: cs_def)
  have mr: "dx \<le> dy \<Longrightarrow> rs"
    using bres_major_row [OF ab ne _ m2 m3] by (simp add: rs_def)
  have eq: "err' = dx - dy + a' * dy - b' * dx"
    unfolding err'_def a'_def b'_def by (simp add: e algebra_simps)
  have lin: "0 \<le> a' \<and> a' \<le> dx \<and> 0 \<le> b' \<and> b' \<le> dy \<and>
         (dy \<le> dx \<longrightarrow> dx - 2 * dy \<le> 2 * err') \<and>
         (dx \<le> dy \<longrightarrow> 2 * err' \<le> 2 * dx - dy) \<and>
         (dx = dy \<longrightarrow> err' = 0) \<and>
         (if dy \<le> dx then a' = a - 1 else b' = b - 1)"
    using ab m1 m2 m3 cpos rpos mc mr
    unfolding a'_def b'_def err'_def cs_def rs_def
    by (cases "2 * err > - dy"; cases "2 * err < dx") auto
  from eq lin show ?thesis by blast
qed

lemma bres_inv_step:
  assumes inv: "bres_inv row1 col1 dx dy sx sy r c err" and nf: "\<not> (r = row1 \<and> c = col1)"
  defines "cs \<equiv> 2 * err > - dy" and "rs \<equiv> 2 * err < dx"
  shows "bres_inv row1 col1 dx dy sx sy (if rs then r + sy else r) (if cs then c + sx else c)
           (if rs then (if cs then err - dy else err) + dx else (if cs then err - dy else err)) \<and>
         (if dy \<le> dx then sx * (col1 - (if cs then c + sx else c)) = sx * (col1 - c) - 1
          else sy * (row1 - (if rs then r + sy else r)) = sy * (row1 - r) - 1)"
proof -
  define a where "a = sx * (col1 - c)"
  define b where "b = sy * (row1 - r)"
  have sx: "sx * sx = 1" and sy: "sy * sy = 1" and d: "0 \<le> dx" "0 \<le> dy"
    and ab: "0 \<le> a" "a \<le> dx" "0 \<le> b" "b \<le> dy"
    and e: "err = dx - dy + a * dy - b * dx"
    and m1: "dy \<le> dx \<longrightarrow> dx - 2 * dy \<le> 2 * err"
    and m2: "dx \<le> dy \<longrightarrow> 2 * err \<le> 2 * dx - dy"
    and m3: "dx = dy \<longrightarrow> err = 0"
    using inv unfolding bres_inv_def a_def b_def by blast+
  have "sx \<noteq> 0" "sy \<noteq> 0" using sx sy by auto
  then have ne: "\<not> (a = 0 \<and> b = 0)" using nf by (auto simp: a_def b_def)
  have a1: "sx * (col1 - (if 2 * err > - dy then c + sx else c)) =
      (if 2 * err > - dy then a - 1 else a)"
    using sx by (simp add: a_def algebra_simps)
  have b1: "sy * (row1 - (if 2 * err < dx then r + sy else r)) =
      (if 2 * err < dx then b - 1 else b)"
    using sy by (simp add: b_def algebra_simps)
  show ?thesis
    using bres_ab_step [OF d ab e m1 m2 m3 ne] sx sy d
    unfolding cs_def rs_def bres_inv_def a1 b1 a_def [symmetric] b_def [symmetric]
    by blast
qed

lemma plot_cells_Cons [simp]: "plot_cells plot ((r, c) # cs) s = plot_cells plot cs (plot s r c)"
  by (simp add: plot_cells_def)

lemma plot_cells_Nil [simp]: "plot_cells plot [] s = s"
  by (simp add: plot_cells_def)

lemma plot_cells_snoc: "plot_cells (\<lambda>xs r c. xs @ [(r, c)]) cs acc = acc @ cs"
  by (induction cs arbitrary: acc) (auto simp: plot_cells_def)

lemma line_loop_unfold:
  "line_loop plot row1 col1 dx dy sx sy s r c err =
     (if r = row1 \<and> c = col1 then Some (plot s r c)
      else line_loop plot row1 col1 dx dy sx sy (plot s r c)
        (if 2 * err < dx then r + sy else r) (if 2 * err > - dy then c + sx else c)
        (if 2 * err < dx then (if 2 * err > - dy then err - dy else err) + dx
         else (if 2 * err > - dy then err - dy else err)))"
  by (subst line_loop.simps) (simp add: Let_def)

lemma line_loop_cells:
  "bres_inv row1 col1 dx dy sx sy r c err \<Longrightarrow>
   n = nat (if dy \<le> dx then sx * (col1 - c) else sy * (row1 - r)) \<Longrightarrow>
   \<exists>cs. (\<forall>(plot :: 's \<Rightarrow> int \<Rightarrow> int \<Rightarrow> 's) s. line_loop plot row1 col1 dx dy sx sy s r c err = Some (plot_cells plot cs s)) \<and>
        (\<forall>acc. line_loop (\<lambda>xs r c. xs @ [(r, c)]) row1 col1 dx dy sx sy acc r c err = Some (acc @ cs)) \<and>
        length cs = Suc n \<and> hd cs = (r, c) \<and> last cs = (row1, col1) \<and>
        successively adj8 cs \<and> list_all (in_box row1 col1 sx sy r c) cs"
proof (induction n arbitrary: r c err)
  case 0
  have fin: "r = row1 \<and> c = col1"
  proof (rule ccontr)
    assume nf: "\<not> (r = row1 \<and> c = col1)"
    from bres_inv_step [OF "0.prems"(1) nf] "0.prems"(2) show False
      by (auto simp: bres_inv_def split: if_splits)
  qed
  then show ?case
    using "0.prems"(1) by (auto simp: line_loop_unfold bres_inv_def in_box_def intro!: exI [of _ "[(r, c)]"])
next
  case (Suc m)
  have nf: "\<not> (r = row1 \<and> c = col1)"
    using Suc.prems(2) by auto
  define r' where "r' = (if 2 * err < dx then r + sy else r)"
  define c' where "c' = (if 2 * err > - dy then c + sx else c)"
  define e' where "e' = (if 2 * err < dx then (if 2 * err > - dy then err - dy else err) + dx
             else (if 2 * err > - dy then err - dy else err))"
  have step: "bres_inv row1 col1 dx dy sx sy r' c' e'"
    and dec: "if dy \<le> dx then sx * (col1 - c') = sx * (col1 - c) - 1
              else sy * (row1 - r') = sy * (row1 - r) - 1"
    using bres_inv_step [OF Suc.prems(1) nf] unfolding r'_def c'_def e'_def by simp_all
  have m: "m = nat (if dy \<le> dx then sx * (col1 - c') else sy * (row1 - r'))"
    using Suc.prems(2) dec by (auto split: if_splits)
  obtain cs where
    cs: "\<forall>(plot :: 's \<Rightarrow> int \<Rightarrow> int \<Rightarrow> 's) s. line_loop plot row1 col1 dx dy sx sy s r' c' e' = Some (plot_cells plot cs s)"
    and snoc: "\<forall>acc. line_loop (\<lambda>xs r c. xs @ [(r, c)]) row1 col1 dx dy sx sy acc r' c' e' = Some (acc @ cs)"
    and len: "length cs = Suc m" and hd: "hd cs = (r', c')" and lst: "last cs = (row1, col1)"
    and chain: "successively adj8 cs" and box: "list_all (in_box row1 col1 sx sy r' c') cs"
    using Suc.IH [OF step m] by blast
  have ne: "cs \<noteq> []" using len by auto
  have sxy: "sx * sx = 1" "sy * sy = 1" using Suc.prems(1) by (simp_all add: bres_inv_def)
  then have u: "\<bar>sx\<bar> = 1" "\<bar>sy\<bar> = 1"
    by (auto simp: zmult_eq_1_iff)
  have a8: "adj8 (r, c) (r', c')"
    using dec u unfolding adj8_def r'_def c'_def by (auto split: if_splits)
  have mono: "sx * (col1 - c') \<le> sx * (col1 - c)" "sy * (row1 - r') \<le> sy * (row1 - r)"
    using sxy unfolding r'_def c'_def by (auto simp: algebra_simps)
  have box': "list_all (in_box row1 col1 sx sy r c) ((r, c) # cs)"
    using box mono Suc.prems(1) by (auto simp: list_all_iff bres_inv_def in_box_def)
  have chain': "successively adj8 ((r, c) # cs)"
    using chain a8 hd ne by (cases cs) auto
  have run: "line_loop plot row1 col1 dx dy sx sy s r c err = Some (plot_cells plot ((r, c) # cs) s)"
    for plot :: "'s \<Rightarrow> int \<Rightarrow> int \<Rightarrow> 's" and s
    using cs by (subst line_loop_unfold, subst if_not_P [OF nf]) (simp add: r'_def [symmetric] c'_def [symmetric] e'_def [symmetric])
  have run': "line_loop (\<lambda>xs r c. xs @ [(r, c)]) row1 col1 dx dy sx sy acc r c err = Some (acc @ (r, c) # cs)" for acc
    using snoc by (subst line_loop_unfold, subst if_not_P [OF nf]) (simp add: r'_def [symmetric]
        c'_def [symmetric] e'_def [symmetric])
  show ?case
    using run run' len lst ne box' chain' by (intro exI [of _ "(r, c) # cs"]) auto
qed


lemma bres_inv_init:
  "bres_inv row1 col1 \<bar>col1 - col0\<bar> \<bar>row1 - row0\<bar> (if col0 < col1 then 1 else -1)
     (if row0 < row1 then 1 else -1) row0 col0 (\<bar>col1 - col0\<bar> - \<bar>row1 - row0\<bar>)"
  by (simp add: bres_inv_def abs_if algebra_simps)

lemma in_box_init:
  "in_box row1 col1 (if col0 < col1 then 1 else -1) (if row0 < row1 then 1 else -1) row0 col0 p \<longleftrightarrow>
   min row0 row1 \<le> fst p \<and> fst p \<le> max row0 row1 \<and> min col0 col1 \<le> snd p \<and> snd p \<le> max col0 col1"
  by (auto simp: in_box_def)

lemma bresenham_run:
  "\<exists>cs. (\<forall>(plot :: 's \<Rightarrow> int \<Rightarrow> int \<Rightarrow> 's) s. bresenham plot s row0 col0 row1 col1 = Some (plot_cells plot cs s)) \<and>
        line_cells row0 col0 row1 col1 = Some cs \<and>
        length cs = nat (max \<bar>col1 - col0\<bar> \<bar>row1 - row0\<bar>) + 1 \<and>
        hd cs = (row0, col0) \<and> last cs = (row1, col1) \<and>
        successively adj8 cs \<and> list_all (line_box row0 col0 row1 col1) cs"
proof -
  have n: "nat (max \<bar>col1 - col0\<bar> \<bar>row1 - row0\<bar>) =
    nat (if \<bar>row1 - row0\<bar> \<le> \<bar>col1 - col0\<bar> then (if col0 < col1 then 1 else -1) * (col1 - col0)
         else (if row0 < row1 then 1 else -1) * (row1 - row0))"
    by (simp add: abs_if max_def)
  obtain cs where
    run: "\<forall>(plot :: 's \<Rightarrow> int \<Rightarrow> int \<Rightarrow> 's) s. line_loop plot row1 col1 \<bar>col1 - col0\<bar> \<bar>row1 - row0\<bar>
       (if col0 < col1 then 1 else -1) (if row0 < row1 then 1 else -1) s row0 col0
       (\<bar>col1 - col0\<bar> - \<bar>row1 - row0\<bar>) = Some (plot_cells plot cs s)"
    and snoc: "\<forall>acc. line_loop (\<lambda>xs r c. xs @ [(r, c)]) row1 col1 \<bar>col1 - col0\<bar> \<bar>row1 - row0\<bar>
       (if col0 < col1 then 1 else -1) (if row0 < row1 then 1 else -1) acc row0 col0
       (\<bar>col1 - col0\<bar> - \<bar>row1 - row0\<bar>) = Some (acc @ cs)"
    and len: "length cs = Suc (nat (max \<bar>col1 - col0\<bar> \<bar>row1 - row0\<bar>))"
    and rest: "hd cs = (row0, col0)" "last cs = (row1, col1)" "successively adj8 cs"
    and box: "list_all (in_box row1 col1 (if col0 < col1 then 1 else -1) (if row0 < row1 then 1 else -1) row0 col0) cs"
    using line_loop_cells [OF bres_inv_init n] by blast
  have "list_all (line_box row0 col0 row1 col1) cs"
    using box by (simp add: in_box_init line_box_def list_all_iff)
  then show ?thesis
    using run snoc len rest by (intro exI [of _ cs]) (simp add: bresenham_def line_cells_def)
qed


subsection \<open>The interpolator's contract\<close>

text \<open>C21.  The line always ends: \<open>drawLine\<close> from any cell to any cell visits
  \<open>max dx dy + 1\<close> cells, from the start cell to the end cell, each one
  8-adjacent to the next, all inside the bounding box of the two end points.\<close>

theorem line_cells_correct:
  "\<exists>cs. line_cells row0 col0 row1 col1 = Some cs \<and>
        length cs = nat (max \<bar>col1 - col0\<bar> \<bar>row1 - row0\<bar>) + 1 \<and>
        hd cs = (row0, col0) \<and> last cs = (row1, col1) \<and>
        successively adj8 cs \<and> list_all (line_box row0 col0 row1 col1) cs"
  using bresenham_run by blast

lemma line_cells_diagonal:
  "line_cells 0 0 5 5 = Some [(0, 0), (1, 1), (2, 2), (3, 3), (4, 4), (5, 5)]"
  by (simp add: line_cells_def bresenham_def line_loop_unfold)

lemma line_cells_horizontal:
  "line_cells 0 0 0 5 = Some [(0, 0), (0, 1), (0, 2), (0, 3), (0, 4), (0, 5)]"
  by (simp add: line_cells_def bresenham_def line_loop_unfold)

end
