(* ===== verification/ColorHistory.thy ===== *)
theory ColorHistory
  imports Prelude
begin

text \<open>
  The colour-history tracker of src/src/App.vue: the ref \<open>colorHistory\<close>
  (line 95, initially black and white) and \<open>addToColorHistory\<close>
  (lines 237--242), which moves the used colour to the front and keeps the
  first 20 entries.  Colours are compared as strings, as \<open>!==\<close> does.
\<close>

definition COLOR_HISTORY_SIZE :: nat where
  "COLOR_HISTORY_SIZE = 20"

definition initialColorHistory :: "color list" where
  "initialColorHistory = [BLACK, WHITE]"

definition twenty_colors :: "color list" where
  "twenty_colors = map (\<lambda>n. ''#0000'' @ [char_of (48 + n div 10), char_of (48 + n mod 10)]) [0..<20]"

definition addToColorHistory :: "color \<Rightarrow> color list \<Rightarrow> color list" where
  "addToColorHistory color ch = take COLOR_HISTORY_SIZE (color # filter (\<lambda>c. c \<noteq> color) ch)"

definition colorHistory_inv :: "color list \<Rightarrow> bool" where
  "colorHistory_inv ch \<longleftrightarrow> distinct ch \<and> length ch \<le> COLOR_HISTORY_SIZE"

lemma colorHistory_inv_initial: "colorHistory_inv initialColorHistory"
  by (simp add: colorHistory_inv_def initialColorHistory_def COLOR_HISTORY_SIZE_def)

lemma filter_neq_removeAll: "filter (\<lambda>c. c \<noteq> x) xs = removeAll x xs"
  by (induction xs) auto

lemma addToColorHistory_removeAll:
  "addToColorHistory color ch = take COLOR_HISTORY_SIZE (color # removeAll color ch)"
  by (simp add: addToColorHistory_def filter_neq_removeAll)

lemma removeAll_take_removeAll [simp]:
  "removeAll x (take n (removeAll x xs)) = take n (removeAll x xs)"
  by (rule removeAll_id) (auto dest: in_set_takeD)

lemma colorHistory_inv_add: "distinct ch \<Longrightarrow> colorHistory_inv (addToColorHistory color ch)"
  by (auto simp: addToColorHistory_removeAll colorHistory_inv_def COLOR_HISTORY_SIZE_def
      distinct_removeAll intro: distinct_take dest: in_set_takeD)

text \<open>C34.  Adding a colour to a colour history without duplicates keeps it
  free of duplicates and within 20 entries, puts the colour first, and keeps
  every other colour of the first 19 entries.\<close>

theorem addToColorHistory_inv:
  assumes "distinct ch"
  shows "colorHistory_inv (addToColorHistory color ch) \<and>
    hd (addToColorHistory color ch) = color \<and>
    set (take 19 (removeAll color ch)) \<subseteq> set (addToColorHistory color ch)"
  using colorHistory_inv_add [OF assms, of color]
  by (auto simp: addToColorHistory_removeAll COLOR_HISTORY_SIZE_def dest: in_set_takeD)

theorem addToColorHistory_inv_witness:
  "distinct initialColorHistory \<and>
   colorHistory_inv (addToColorHistory ''#FF0000'' initialColorHistory) \<and>
   hd (addToColorHistory ''#FF0000'' initialColorHistory) = ''#FF0000'' \<and>
   set (take 19 (removeAll ''#FF0000'' initialColorHistory)) \<subseteq> set (addToColorHistory ''#FF0000'' initialColorHistory)"
  using addToColorHistory_inv [of initialColorHistory "''#FF0000''"]
  by (simp add: initialColorHistory_def)

text \<open>Adding the same colour twice gives the same history as adding it once.\<close>

lemma addToColorHistory_idem:
  "addToColorHistory color (addToColorHistory color ch) = addToColorHistory color ch"
  by (simp add: addToColorHistory_removeAll COLOR_HISTORY_SIZE_def)

text \<open>C35.  Adding a colour not in a full history of 20 colours evicts
  the least recently used one, the last.\<close>

theorem addToColorHistory_evicts:
  assumes "length ch = COLOR_HISTORY_SIZE" and "color \<notin> set ch"
  shows "addToColorHistory color ch = color # butlast ch"
  using assms by (simp add: addToColorHistory_removeAll COLOR_HISTORY_SIZE_def butlast_conv_take)

text \<open>C36.  Adding a colour already in a duplicate-free history moves it to the front
  and keeps the length.\<close>

theorem addToColorHistory_move_front:
  assumes "colorHistory_inv ch" and "color \<in> set ch"
  shows "addToColorHistory color ch = color # removeAll color ch \<and>
         length (addToColorHistory color ch) = length ch"
proof -
  have "length (removeAll color ch) = length ch - 1"
    using assms by (simp add: colorHistory_inv_def distinct_remove1_removeAll [symmetric] length_remove1)
  moreover have "0 < length ch" using assms(2) by (cases ch) auto
  moreover have "length ch \<le> 20" using assms(1) by (simp add: colorHistory_inv_def COLOR_HISTORY_SIZE_def)
  ultimately show ?thesis
    by (simp add: addToColorHistory_removeAll COLOR_HISTORY_SIZE_def)
qed

subsection \<open>Witnesses\<close>

theorem addToColorHistory_evicts_witness:
  "addToColorHistory ''#FF0000'' twenty_colors = ''#FF0000'' # butlast twenty_colors"
  using addToColorHistory_evicts [of twenty_colors "''#FF0000''"]
  by (simp add: twenty_colors_def COLOR_HISTORY_SIZE_def upt_rec)

theorem addToColorHistory_move_front_witness:
  "addToColorHistory WHITE initialColorHistory = WHITE # removeAll WHITE initialColorHistory \<and>
   length (addToColorHistory WHITE initialColorHistory) = length initialColorHistory"
  using addToColorHistory_move_front [of initialColorHistory WHITE]
  by (simp add: initialColorHistory_def colorHistory_inv_def COLOR_HISTORY_SIZE_def)

text \<open>
  Colours are compared as strings.  The \<open><input type="color"\<close> of the
  template reports lower-case hex, while the eraser and the initial history use
  \<open>'#FFFFFF'\<close>: picking white and drawing with it records a second white.
\<close>

lemma colorHistory_case_sensitive:
  "addToColorHistory ''#ffffff'' initialColorHistory = [''#ffffff'', BLACK, WHITE]"
  by (simp add: addToColorHistory_def initialColorHistory_def COLOR_HISTORY_SIZE_def)

end
