(* ===== verification/Js.thy ===== *)
theory Js
  imports Prelude
begin

text \<open>
  The two JavaScript library functions whose semantics the editor depends on:
  the global \<open>parseInt(string, radix)\<close> (ECMA-262, 19.2.5), used by
  \<open>resizeGrid\<close> to read the size typed into the prompt and by
  \<open>renderHoverPreview\<close> to split a hex colour into channels, and the
  conversion of an integer to its decimal string, used by the template
  literal that builds the preview's \<open>rgba(...)\<close> style.  A \<open>NaN\<close> result is
  \<open>None\<close>.  Characters are 8-bit, so the white space \<open>parseInt\<close> skips is the
  ASCII white space and the no-break space (code 160).
\<close>

definition js_space :: "char \<Rightarrow> bool" where
  "js_space ch \<longleftrightarrow> of_char ch \<in> {9, 10, 11, 12, 13, 32, 160 :: nat}"

definition digit_val :: "char \<Rightarrow> nat option" where
  "digit_val ch =
     (let n = of_char ch :: nat in
      if 48 \<le> n \<and> n \<le> 57 then Some (n - 48)
      else if 97 \<le> n \<and> n \<le> 122 then Some (n - 87)
      else if 65 \<le> n \<and> n \<le> 90 then Some (n - 55)
      else None)"

definition is_radix_digit :: "nat \<Rightarrow> char \<Rightarrow> bool" where
  "is_radix_digit r ch \<longleftrightarrow> (case digit_val ch of Some d \<Rightarrow> d < r | None \<Rightarrow> False)"

definition digits_value :: "nat \<Rightarrow> string \<Rightarrow> nat" where
  "digits_value r ds = foldl (\<lambda>acc ch. acc * r + (case digit_val ch of Some d \<Rightarrow> d | None \<Rightarrow> 0)) 0 ds"

text \<open>
  \<open>parseInt\<close> step by step: skip leading white space, read a sign, fix the
  radix (an absent radix is 0 and means 10, or 16 after a \<open>0x\<close> prefix), take
  the longest prefix of digits of that radix; no digit at all is \<open>NaN\<close>.
\<close>

definition js_parseInt :: "string \<Rightarrow> int \<Rightarrow> int option" where
  "js_parseInt str radix =
     (let s = dropWhile js_space str;
          sign = (if take 1 s = ''-'' then -1 else 1 :: int);
          s = (if take 1 s = ''-'' \<or> take 1 s = ''+'' then drop 1 s else s)
      in if radix \<noteq> 0 \<and> (radix < 2 \<or> radix > 36) then None
         else
           let strip = (radix = 0 \<or> radix = 16);
               hex = strip \<and> (take 2 s = ''0x'' \<or> take 2 s = ''0X'');
               r = (if hex then 16 else if radix = 0 then 10 else nat radix);
               s = (if hex then drop 2 s else s);
               z = takeWhile (is_radix_digit r) s
           in if z = [] then None else Some (sign * int (digits_value r z)))"

text \<open>\<open>str.slice(b, e)\<close> for indices \<open>0 \<le> b \<le> e\<close>.\<close>

definition js_str_slice :: "string \<Rightarrow> nat \<Rightarrow> nat \<Rightarrow> string" where
  "js_str_slice str b e = take (e - b) (drop b str)"

fun nat_str :: "nat \<Rightarrow> string" where
  "nat_str n = (if n < 10 then [char_of (48 + n)] else nat_str (n div 10) @ [char_of (48 + n mod 10)])"

declare nat_str.simps [simp del]

definition js_int_str :: "int \<Rightarrow> string" where
  "js_int_str i = (if i < 0 then ''-'' @ nat_str (nat (- i)) else nat_str (nat i))"

definition js_num_str :: "int option \<Rightarrow> string" where
  "js_num_str x = (case x of None \<Rightarrow> ''NaN'' | Some i \<Rightarrow> js_int_str i)"

subsection \<open>Decimal strings read back\<close>

definition is_dec_char :: "char \<Rightarrow> bool" where
  "is_dec_char ch \<longleftrightarrow> (\<exists>d < 10. ch = char_of (48 + d :: nat))"

lemma dec_char_val: "d < 10 \<Longrightarrow> digit_val (char_of (48 + d :: nat)) = Some d"
  by (simp add: digit_val_def Let_def of_char_of)

lemma dec_char_of: "d < 10 \<Longrightarrow> is_dec_char (char_of (48 + d :: nat))"
  by (auto simp: is_dec_char_def)

lemma dec_char_code: "is_dec_char ch \<Longrightarrow> 48 \<le> (of_char ch :: nat) \<and> of_char ch \<le> (57 :: nat)"
  by (auto simp: is_dec_char_def of_char_of)

lemma dec_char_props:
  assumes "is_dec_char ch"
  shows "is_radix_digit 10 ch" "\<not> js_space ch" "ch \<noteq> CHR ''-''" "ch \<noteq> CHR ''+''"
    "ch \<noteq> CHR ''x''" "ch \<noteq> CHR ''X''"
proof -
  show "is_radix_digit 10 ch"
    using assms by (auto simp: is_dec_char_def is_radix_digit_def dec_char_val)
  show "\<not> js_space ch" "ch \<noteq> CHR ''-''" "ch \<noteq> CHR ''+''" "ch \<noteq> CHR ''x''" "ch \<noteq> CHR ''X''"
    using dec_char_code [OF assms] by (auto simp: js_space_def)
qed

lemma nat_str_dec: "list_all is_dec_char (nat_str n)"
  by (induction n rule: nat_str.induct) (subst nat_str.simps, simp add: dec_char_of)

lemma nat_str_ne: "nat_str n \<noteq> []"
  by (subst nat_str.simps) simp

lemma digits_value_snoc:
  "digits_value r (xs @ [ch]) = digits_value r xs * r + (case digit_val ch of Some d \<Rightarrow> d | None \<Rightarrow> 0)"
  by (simp add: digits_value_def)

lemma digits_value_nat_str: "digits_value 10 (nat_str n) = n"
proof (induction n rule: nat_str.induct)
  case (1 n)
  show ?case
  proof (cases "n < 10")
    case True
    then show ?thesis by (subst nat_str.simps) (simp add: digits_value_def dec_char_val)
  next
    case False
    then have "digits_value 10 (nat_str n) = digits_value 10 (nat_str (n div 10)) * 10 + n mod 10"
      by (subst nat_str.simps) (simp add: digits_value_snoc dec_char_val)
    with 1 False show ?thesis by simp
  qed
qed

lemma takeWhile_all: "list_all P xs \<Longrightarrow> takeWhile P xs = xs"
  by (induction xs) auto

lemma dec_prefix:
  assumes "list_all is_dec_char s" "s \<noteq> []"
  shows "dropWhile js_space s = s" "take 1 s \<noteq> ''-''" "take 1 s \<noteq> ''+''"
    "take 2 s \<noteq> ''0x''" "take 2 s \<noteq> ''0X''"
    "takeWhile (is_radix_digit 10) s = s"
proof -
  obtain c cs where s: "s = c # cs" using assms(2) by (cases s) auto
  have c: "is_dec_char c" using assms(1) s by simp
  show "dropWhile js_space s = s" "take 1 s \<noteq> ''-''" "take 1 s \<noteq> ''+''"
    using dec_char_props [OF c] s by simp_all
  show "take 2 s \<noteq> ''0x''" "take 2 s \<noteq> ''0X''"
    using assms(1) s by (cases cs; auto dest: dec_char_props)+
  show "takeWhile (is_radix_digit 10) s = s"
    using assms(1) by (intro takeWhile_all) (auto simp: list_all_iff dest: dec_char_props)
qed

lemma parseInt_digits:
  assumes "list_all is_dec_char s" "s \<noteq> []"
  shows "js_parseInt s 0 = Some (int (digits_value 10 s))"
    and "js_parseInt (CHR ''-'' # s) 0 = Some (- int (digits_value 10 s))"
  using assms(2) dec_prefix(1-5) [OF assms, simplified]
  by (simp_all add: js_parseInt_def Let_def js_space_def dec_prefix(6) [OF assms])

text \<open>\<open>parseInt\<close> reads back every integer from its decimal string: the
  size a user types in decimal is the size \<open>resizeGrid\<close> gets.\<close>

theorem parseInt_int_str: "js_parseInt (js_int_str i) 0 = Some i"
  using parseInt_digits [OF nat_str_dec nat_str_ne]
  by (simp add: js_int_str_def digits_value_nat_str)

text \<open>
  \<open>parseInt\<close> reads the longest numeric prefix: text after the digits is
  ignored, a \<open>0x\<close> prefix switches to hex, and only a string with no digit at
  its start is \<open>NaN\<close>.
\<close>

lemma parseInt_prefixes:
  "js_parseInt ''12abc'' 0 = Some 12 \<and> js_parseInt ''0x10'' 0 = Some 16 \<and>
   js_parseInt ''8.9'' 0 = Some 8 \<and> js_parseInt '' 20 '' 0 = Some 20 \<and>
   js_parseInt ''abc'' 0 = None \<and> js_parseInt [] 0 = None"
  by (simp add: js_parseInt_def Let_def js_space_def is_radix_digit_def digit_val_def digits_value_def)

end
