(* ===== verification/Editor.thy ===== *)
theory Editor
  imports History FloodFill Bresenham ColorHistory Js
begin

text \<open>
  The editor state and the tool engine of src/src/App.vue.  The record
  \<open>editor\<close> extends the history state with the remaining refs of the script
  (lines 19--58 and 95): zoom, tool state, gesture state, hover cell, dialog
  state and colour history.  The operations are the drawing functions
  \<open>drawPixel\<close> (lines 288--330) with its brush loops, \<open>startDrawing\<close>,
  \<open>stopDrawing\<close> (lines 245--258), \<open>drawLine\<close> (Bresenham with
  \<open>drawPixel\<close> as the per-cell action) and \<open>renderHoverPreview\<close>
  (lines 192--234).  Grid writes \<open>grid.value[r][c] = x\<close> are \<open>set_cell\<close>: every
  write is guarded by the grid bounds, and on a well-formed grid the two agree.
\<close>

datatype tool = Pencil | Eraser | Fill | Eyedropper

datatype dialog_kind = DConfirm | DPrompt | DAlert

text \<open>
  The closures passed to \<open>showDialog\<close>: the confirmation of \<open>clearGrid\<close>, the
  prompt of \<open>resizeGrid\<close>, and the empty callback of its two alerts.
\<close>

datatype callback = ClearCallback | ResizeCallback | AlertCallback

record editor = hist_state +
  zoomLevel :: real
  currentColor :: color
  currentTool :: tool
  isDrawing :: bool
  lastDrawnPos :: "cell option"
  brushSize :: int
  hoveredCell :: "cell option"
  dialogVisible :: bool
  dialogType :: dialog_kind
  dialogTitle :: string
  dialogMessage :: string
  dialogInput :: string
  dialogCallback :: "callback option"
  colorHistory :: "color list"

subsection \<open>Brush stamping\<close>

text \<open>
  The brush loops \<open>for (let r = -offset; r < brushSize - offset; r++)\<close> with
  \<open>offset = Math.floor(brushSize / 2)\<close>, row offsets outside, column offsets
  inside.
\<close>

definition brush_offsets :: "int \<Rightarrow> int list" where
  "brush_offsets bs = [- (bs div 2) .. bs - bs div 2 - 1]"

definition brush_cells :: "int \<Rightarrow> int \<Rightarrow> int \<Rightarrow> cell list" where
  "brush_cells bs row col = [(row + r, col + c). r \<leftarrow> brush_offsets bs, c \<leftarrow> brush_offsets bs]"

definition paint_cell :: "color \<Rightarrow> 'a canvas_state_scheme \<Rightarrow> cell \<Rightarrow> 'a canvas_state_scheme" where
  "paint_cell color s p =
     (case p of (r, c) \<Rightarrow>
        if r \<ge> 0 \<and> r < gridHeight s \<and> c \<ge> 0 \<and> c < gridWidth s
        then renderSinglePixel (s\<lparr>grid := set_cell (grid s) r c color\<rparr>) r c color
        else s)"

definition stamp :: "color \<Rightarrow> int \<Rightarrow> int \<Rightarrow> int \<Rightarrow> 'a canvas_state_scheme \<Rightarrow> 'a canvas_state_scheme" where
  "stamp color bs row col s = fold (\<lambda>p s. paint_cell color s p) (brush_cells bs row col) s"

subsection \<open>The tools\<close>

definition drawPixel :: "int \<Rightarrow> int \<Rightarrow> editor \<Rightarrow> editor" where
  "drawPixel row col s =
     (if row < 0 \<or> row \<ge> gridHeight s \<or> col < 0 \<or> col \<ge> gridWidth s then s
      else case currentTool s of
        Pencil \<Rightarrow>
          (let color = currentColor s;
               s1 = s\<lparr>colorHistory := addToColorHistory color (colorHistory s)\<rparr>
           in stamp color (brushSize s1) row col s1)
      | Eraser \<Rightarrow> stamp WHITE (brushSize s) row col s
      | Fill \<Rightarrow>
          (let s1 = s\<lparr>grid := floodFill (gridHeight s) (gridWidth s) (grid s) row col
                                 (grid s ! nat row ! nat col) (currentColor s)\<rparr>;
               s2 = s1\<lparr>colorHistory := addToColorHistory (currentColor s1) (colorHistory s1)\<rparr>
           in saveState (renderCanvas s2))
      | Eyedropper \<Rightarrow> s\<lparr>currentColor := grid s ! nat row ! nat col, currentTool := Pencil\<rparr>)"

definition startDrawing :: "int \<Rightarrow> int \<Rightarrow> editor \<Rightarrow> editor" where
  "startDrawing row col s =
     drawPixel row col (s\<lparr>isDrawing := True, hoveredCell := None, lastDrawnPos := Some (row, col)\<rparr>)"

definition stopDrawing :: "editor \<Rightarrow> editor" where
  "stopDrawing s =
     (let s1 = (if isDrawing s then saveState s else s)
      in s1\<lparr>isDrawing := False, lastDrawnPos := None\<rparr>)"

definition drawLine :: "int \<Rightarrow> int \<Rightarrow> int \<Rightarrow> int \<Rightarrow> editor \<Rightarrow> editor option" where
  "drawLine row0 col0 row1 col1 s = bresenham (\<lambda>s r c. drawPixel r c s) s row0 col0 row1 col1"

subsection \<open>Hover preview\<close>

definition preview_style :: "color \<Rightarrow> string" where
  "preview_style color =
     ''rgba('' @ js_num_str (js_parseInt (js_str_slice color 1 3) 16) @ '', '' @
     js_num_str (js_parseInt (js_str_slice color 3 5) 16) @ '', '' @
     js_num_str (js_parseInt (js_str_slice color 5 7) 16) @ '', 0.5)''"

definition preview_cell :: "'a canvas_state_scheme \<Rightarrow> cell \<Rightarrow> 'a canvas_state_scheme" where
  "preview_cell s p =
     (case p of (r, c) \<Rightarrow>
        if r \<ge> 0 \<and> r < gridHeight s \<and> c \<ge> 0 \<and> c < gridWidth s
        then s\<lparr>display := display s @ [cell_rect (pixelSize (gridWidth s) (gridHeight s)) r c]\<rparr>
        else s)"

definition renderHoverPreview :: "editor \<Rightarrow> editor" where
  "renderHoverPreview s =
     (case hoveredCell s of
        None \<Rightarrow> s
      | Some (row, col) \<Rightarrow>
          if isDrawing s then s
          else
            let s1 = renderCanvas s
            in if currentTool s = Fill \<or> currentTool s = Eyedropper then s1
               else
                 let color = (if currentTool s = Eraser then WHITE else currentColor s);
                     s2 = s1\<lparr>display := display s1 @ [FillStyle (preview_style color)]\<rparr>;
                     s3 = fold (\<lambda>p s. preview_cell s p) (brush_cells (brushSize s) row col) s2
                 in drawGridLines s3)"

text \<open>What every tool keeps: a well-formed grid, the history invariant and a
  colour history without duplicates of at most 20 entries.\<close>

definition editor_core :: "editor \<Rightarrow> bool" where
  "editor_core s \<longleftrightarrow> grid_wf s \<and> hist_inv s \<and> colorHistory_inv (colorHistory s)"

subsection \<open>A sample editor state\<close>

text \<open>A 3 by 3 white grid just after \<open>initializeGrid\<close>, the pencil in black with
  a 3 by 3 brush: the state the witnesses below start from.\<close>

definition demo_editor :: editor where
  "demo_editor =
     \<lparr>gridWidth = 3, gridHeight = 3, grid = new_grid 3 3, display = [],
      history = [new_grid 3 3], historyIndex = 0,
      zoomLevel = 1, currentColor = BLACK, currentTool = Pencil, isDrawing = False,
      lastDrawnPos = None, brushSize = 3, hoveredCell = None, dialogVisible = False,
      dialogType = DAlert, dialogTitle = [], dialogMessage = [], dialogInput = [],
      dialogCallback = None, colorHistory = initialColorHistory\<rparr>"

subsection \<open>Brush geometry\<close>

lemma set_brush_offsets: "set (brush_offsets bs) = {- (bs div 2) ..< bs - bs div 2}"
  by (auto simp: brush_offsets_def)

lemma mem_brush_cells:
  "(r, c) \<in> set (brush_cells bs row col) \<longleftrightarrow>
     r - row \<in> set (brush_offsets bs) \<and> c - col \<in> set (brush_offsets bs)"
proof
  assume "(r, c) \<in> set (brush_cells bs row col)"
  then show "r - row \<in> set (brush_offsets bs) \<and> c - col \<in> set (brush_offsets bs)"
    by (auto simp: brush_cells_def)
next
  assume "r - row \<in> set (brush_offsets bs) \<and> c - col \<in> set (brush_offsets bs)"
  then show "(r, c) \<in> set (brush_cells bs row col)"
    unfolding brush_cells_def by (auto intro!: bexI [of _ "r - row"] image_eqI [of _ _ "c - col"])
qed

lemma in_brush:
  "(r, c) \<in> set (brush_cells bs row col) \<longleftrightarrow>
     row - bs div 2 \<le> r \<and> r < row - bs div 2 + bs \<and> col - bs div 2 \<le> c \<and> c < col - bs div 2 + bs"
  unfolding mem_brush_cells set_brush_offsets by auto

subsection \<open>Stamping on a well-formed grid\<close>

lemma paint_cell_fields [simp]:
  "gridWidth (paint_cell color s p) = gridWidth s"
  "gridHeight (paint_cell color s p) = gridHeight s"
  "canvas_state.more (paint_cell color s p) = canvas_state.more s"
  by (simp_all add: paint_cell_def split: prod.splits)

lemma stamp_fold_fields [simp]:
  "gridWidth (fold (\<lambda>p s. paint_cell color s p) ps s) = gridWidth s"
  "gridHeight (fold (\<lambda>p s. paint_cell color s p) ps s) = gridHeight s"
  "canvas_state.more (fold (\<lambda>p s. paint_cell color s p) ps s) = canvas_state.more s"
  by (induction ps arbitrary: s) simp_all

lemma paint_cell_grid:
  "grid_wf s \<Longrightarrow> grid_wf (paint_cell color s p) \<and>
     grid_get (grid (paint_cell color s p)) r c =
       (if (r, c) = p \<and> in_bounds (gridHeight s) (gridWidth s) r c then Some color
        else grid_get (grid s) r c)"
  by (cases p) (auto simp: paint_cell_def grid_wf_def grid_get_set_cell in_bounds_def
      grid_get_in_bounds)

lemma stamp_fold_grid:
  "grid_wf s \<Longrightarrow> grid_wf (fold (\<lambda>p s. paint_cell color s p) ps s) \<and>
     grid_get (grid (fold (\<lambda>p s. paint_cell color s p) ps s)) r c =
       (if (r, c) \<in> set ps \<and> in_bounds (gridHeight s) (gridWidth s) r c then Some color
        else grid_get (grid s) r c)"
proof (induction ps arbitrary: s)
  case Nil
  then show ?case by simp
next
  case (Cons p ps)
  from paint_cell_grid [OF Cons.prems, of color p] Cons.IH [of "paint_cell color s p"]
  show ?case by auto
qed

lemma paint_cell_display:
  "0 < gridWidth s \<Longrightarrow> 0 < gridHeight s \<Longrightarrow>
     cell_fill (paint_cell color s p) r c =
       (if (r, c) = p \<and> in_bounds (gridHeight s) (gridWidth s) r c then Some color
        else cell_fill s r c)"
  by (cases p) (auto simp: paint_cell_def cell_fill_renderSinglePixel in_bounds_def)

lemma stamp_fold_display:
  "0 < gridWidth s \<Longrightarrow> 0 < gridHeight s \<Longrightarrow>
     cell_fill (fold (\<lambda>p s. paint_cell color s p) ps s) r c =
       (if (r, c) \<in> set ps \<and> in_bounds (gridHeight s) (gridWidth s) r c then Some color
        else cell_fill s r c)"
proof (induction ps arbitrary: s)
  case Nil
  then show ?case by simp
next
  case (Cons p ps)
  from paint_cell_display [OF Cons.prems, of color p] Cons.IH [of "paint_cell color s p"] Cons.prems
  show ?case by auto
qed

lemma stamp_more [simp]:
  "gridWidth (stamp color bs row col s) = gridWidth s"
  "gridHeight (stamp color bs row col s) = gridHeight s"
  "canvas_state.more (stamp color bs row col s) = canvas_state.more s"
  by (simp_all add: stamp_def)

lemma editor_more_eq:
  fixes x y :: editor
  assumes "canvas_state.more x = canvas_state.more y"
  shows "history x = history y \<and> historyIndex x = historyIndex y \<and> colorHistory x = colorHistory y \<and>
    currentTool x = currentTool y \<and> currentColor x = currentColor y \<and> isDrawing x = isDrawing y \<and>
    lastDrawnPos x = lastDrawnPos y \<and> brushSize x = brushSize y \<and> zoomLevel x = zoomLevel y \<and>
    hoveredCell x = hoveredCell y \<and> dialogVisible x = dialogVisible y \<and> dialogType x = dialogType y \<and>
    dialogTitle x = dialogTitle y \<and> dialogMessage x = dialogMessage y \<and> dialogInput x = dialogInput y \<and>
    dialogCallback x = dialogCallback y"
  using assms by (cases x, cases y) simp

lemma editor_hmore_eq:
  fixes x y :: editor
  assumes "hist_state.more x = hist_state.more y"
  shows "zoomLevel x = zoomLevel y \<and>
    currentColor x = currentColor y \<and>
    currentTool x = currentTool y \<and>
    isDrawing x = isDrawing y \<and>
    lastDrawnPos x = lastDrawnPos y \<and>
    brushSize x = brushSize y \<and>
    hoveredCell x = hoveredCell y \<and>
    dialogVisible x = dialogVisible y \<and>
    dialogType x = dialogType y \<and>
    dialogTitle x = dialogTitle y \<and>
    dialogMessage x = dialogMessage y \<and>
    dialogInput x = dialogInput y \<and>
    dialogCallback x = dialogCallback y \<and>
    colorHistory x = colorHistory y"
  using assms by (cases x, cases y) simp

lemma saveState_editor_fields [simp]:
  fixes s :: editor
  shows "zoomLevel (saveState s) = zoomLevel s"
    "currentColor (saveState s) = currentColor s"
    "currentTool (saveState s) = currentTool s"
    "isDrawing (saveState s) = isDrawing s"
    "lastDrawnPos (saveState s) = lastDrawnPos s"
    "brushSize (saveState s) = brushSize s"
    "hoveredCell (saveState s) = hoveredCell s"
    "dialogVisible (saveState s) = dialogVisible s"
    "dialogType (saveState s) = dialogType s"
    "dialogTitle (saveState s) = dialogTitle s"
    "dialogMessage (saveState s) = dialogMessage s"
    "dialogInput (saveState s) = dialogInput s"
    "dialogCallback (saveState s) = dialogCallback s"
    "colorHistory (saveState s) = colorHistory s"
  using editor_hmore_eq [OF saveState_fields(5) [of s]] by simp_all

lemma stamp_editor_fields [simp]:
  fixes s :: editor
  shows "history (stamp color bs row col s) = history s"
    "historyIndex (stamp color bs row col s) = historyIndex s"
    "zoomLevel (stamp color bs row col s) = zoomLevel s"
    "currentColor (stamp color bs row col s) = currentColor s"
    "currentTool (stamp color bs row col s) = currentTool s"
    "isDrawing (stamp color bs row col s) = isDrawing s"
    "lastDrawnPos (stamp color bs row col s) = lastDrawnPos s"
    "brushSize (stamp color bs row col s) = brushSize s"
    "hoveredCell (stamp color bs row col s) = hoveredCell s"
    "dialogVisible (stamp color bs row col s) = dialogVisible s"
    "dialogType (stamp color bs row col s) = dialogType s"
    "dialogTitle (stamp color bs row col s) = dialogTitle s"
    "dialogMessage (stamp color bs row col s) = dialogMessage s"
    "dialogInput (stamp color bs row col s) = dialogInput s"
    "dialogCallback (stamp color bs row col s) = dialogCallback s"
    "colorHistory (stamp color bs row col s) = colorHistory s"
  using editor_more_eq [OF stamp_more(3) [of color bs row col s]] by simp_all

subsection \<open>The tools on one cell\<close>

lemma drawPixel_outside:
  "\<not> in_bounds (gridHeight s) (gridWidth s) row col \<Longrightarrow> drawPixel row col s = s"
  by (auto simp: drawPixel_def in_bounds_def)

lemma drawPixel_brush_eq:
  assumes "in_bounds (gridHeight s) (gridWidth s) row col" "currentTool s \<in> {Pencil, Eraser}"
  shows "drawPixel row col s =
    stamp (if currentTool s = Pencil then currentColor s else WHITE) (brushSize s) row col
      (if currentTool s = Pencil
       then s\<lparr>colorHistory := addToColorHistory (currentColor s) (colorHistory s)\<rparr> else s)"
  using assms by (auto simp: drawPixel_def in_bounds_def Let_def)

lemma drawPixel_fill_eq:
  assumes "in_bounds (gridHeight s) (gridWidth s) row col" "currentTool s = Fill"
  shows "drawPixel row col s =
    saveState (renderCanvas (s\<lparr>grid := floodFill (gridHeight s) (gridWidth s) (grid s) row col
                                 (grid s ! nat row ! nat col) (currentColor s),
                             colorHistory := addToColorHistory (currentColor s) (colorHistory s)\<rparr>))"
  using assms by (auto simp: drawPixel_def in_bounds_def Let_def)

lemma drawPixel_eyedropper_eq:
  assumes "in_bounds (gridHeight s) (gridWidth s) row col" "currentTool s = Eyedropper"
  shows "drawPixel row col s = s\<lparr>currentColor := grid s ! nat row ! nat col, currentTool := Pencil\<rparr>"
  using assms by (auto simp: drawPixel_def in_bounds_def)

lemma in_bounds_pos: "in_bounds h w r c \<Longrightarrow> 0 < h \<and> 0 < w"
  by (simp add: in_bounds_def)

lemma stamp_effect:
  assumes "grid_wf s" "in_bounds (gridHeight s) (gridWidth s) row col"
  shows "grid_wf (stamp color bs row col s) \<and>
    (\<forall>r c. grid_get (grid (stamp color bs row col s)) r c =
       (if in_bounds (gridHeight s) (gridWidth s) r c \<and>
           row - bs div 2 \<le> r \<and> r < row - bs div 2 + bs \<and> col - bs div 2 \<le> c \<and> c < col - bs div 2 + bs
        then Some color else grid_get (grid s) r c)) \<and>
    (\<forall>r c. cell_fill (stamp color bs row col s) r c =
       (if in_bounds (gridHeight s) (gridWidth s) r c \<and>
           row - bs div 2 \<le> r \<and> r < row - bs div 2 + bs \<and> col - bs div 2 \<le> c \<and> c < col - bs div 2 + bs
        then Some color else cell_fill s r c))"
  using stamp_fold_grid [OF assms(1), of color "brush_cells bs row col"]
    stamp_fold_display [of s color "brush_cells bs row col"] in_bounds_pos [OF assms(2)]
  by (auto simp: stamp_def in_brush)

text \<open>C3.  A pencil or eraser click on a cell of a well-formed grid paints
  exactly the in-grid cells of the brush square (side \<open>brushSize\<close>, offset
  \<open>floor(brushSize / 2)\<close> up and left) with the current colour or white, in the
  grid and on the canvas alike, keeps the grid well-formed, records the pencil
  colour in the colour history and leaves the undo history alone.\<close>

theorem drawPixel_brush:
  assumes "grid_wf s" "currentTool s \<in> {Pencil, Eraser}"
    and "in_bounds (gridHeight s) (gridWidth s) row col"
  shows "grid_wf (drawPixel row col s) \<and>
    (\<forall>r c. grid_get (grid (drawPixel row col s)) r c =
       (if in_bounds (gridHeight s) (gridWidth s) r c \<and>
           row - brushSize s div 2 \<le> r \<and> r < row - brushSize s div 2 + brushSize s \<and>
           col - brushSize s div 2 \<le> c \<and> c < col - brushSize s div 2 + brushSize s
        then Some (if currentTool s = Pencil then currentColor s else WHITE)
        else grid_get (grid s) r c)) \<and>
    (\<forall>r c. cell_fill (drawPixel row col s) r c =
       (if in_bounds (gridHeight s) (gridWidth s) r c \<and>
           row - brushSize s div 2 \<le> r \<and> r < row - brushSize s div 2 + brushSize s \<and>
           col - brushSize s div 2 \<le> c \<and> c < col - brushSize s div 2 + brushSize s
        then Some (if currentTool s = Pencil then currentColor s else WHITE)
        else cell_fill s r c)) \<and>
    colorHistory (drawPixel row col s) =
      (if currentTool s = Pencil then addToColorHistory (currentColor s) (colorHistory s)
       else colorHistory s) \<and>
    history (drawPixel row col s) = history s \<and> historyIndex (drawPixel row col s) = historyIndex s"
proof -
  from assms(2) consider (P) "currentTool s = Pencil" | (E) "currentTool s = Eraser" by blast
  then show ?thesis
  proof cases
    case P
    let ?s1 = "s\<lparr>colorHistory := addToColorHistory (currentColor s) (colorHistory s)\<rparr>"
    have "grid_wf ?s1" "in_bounds (gridHeight ?s1) (gridWidth ?s1) row col"
      using assms(1,3) by (simp_all add: grid_wf_def)
    from stamp_effect [OF this, of "currentColor s" "brushSize s"] P show ?thesis
      by (simp add: drawPixel_brush_eq [OF assms(3,2)] cell_fill_def)
  next
    case E
    from stamp_effect [OF assms(1,3), of WHITE "brushSize s"] E show ?thesis
      by (simp add: drawPixel_brush_eq [OF assms(3,2)])
  qed
qed

text \<open>C4.  An eyedropper click on a cell of a well-formed grid makes the cell's
  colour the current colour and switches back to the pencil, changing
  neither the grid nor either history.\<close>

theorem drawPixel_eyedropper:
  assumes "grid_wf s" "currentTool s = Eyedropper"
    and "in_bounds (gridHeight s) (gridWidth s) row col"
  shows "grid_get (grid s) row col = Some (currentColor (drawPixel row col s)) \<and>
    currentTool (drawPixel row col s) = Pencil \<and> grid (drawPixel row col s) = grid s \<and>
    history (drawPixel row col s) = history s \<and> historyIndex (drawPixel row col s) = historyIndex s \<and>
    colorHistory (drawPixel row col s) = colorHistory s"
  using assms by (simp add: drawPixel_eyedropper_eq grid_wf_def grid_get_in_bounds)

lemma drawPixel_fields [simp]:
  "gridWidth (drawPixel row col s) = gridWidth s"
  "gridHeight (drawPixel row col s) = gridHeight s"
  "isDrawing (drawPixel row col s) = isDrawing s"
  "lastDrawnPos (drawPixel row col s) = lastDrawnPos s"
  "zoomLevel (drawPixel row col s) = zoomLevel s"
  "brushSize (drawPixel row col s) = brushSize s"
  "hoveredCell (drawPixel row col s) = hoveredCell s"
  "dialogVisible (drawPixel row col s) = dialogVisible s"
  "dialogType (drawPixel row col s) = dialogType s"
  "dialogInput (drawPixel row col s) = dialogInput s"
  "dialogCallback (drawPixel row col s) = dialogCallback s"
  by (simp_all add: drawPixel_def Let_def split: tool.splits)

lemma fill_state:
  assumes "grid_wf s" "hist_inv s" "in_bounds (gridHeight s) (gridWidth s) row col"
  defines "g \<equiv> floodFill (gridHeight s) (gridWidth s) (grid s) row col (grid s ! nat row ! nat col) (currentColor s)"
  defines "s2 \<equiv> s\<lparr>grid := g, colorHistory := addToColorHistory (currentColor s) (colorHistory s)\<rparr>"
  shows "grid_wf (saveState (renderCanvas s2)) \<and> hist_inv (saveState (renderCanvas s2)) \<and>
    hist_synced (saveState (renderCanvas s2)) \<and> shows_grid (saveState (renderCanvas s2))"
proof -
  have wf2: "grid_wf s2" using assms(1) floodFill_wf by (simp add: grid_wf_def s2_def g_def)
  have inv2: "hist_inv (renderCanvas s2)" using assms(2) by (simp add: hist_inv_def hist_bounds_def s2_def)
  have wf3: "grid_wf (renderCanvas s2)" using wf2 by (simp add: grid_wf_def)
  have pos: "0 < gridWidth s2" "0 < gridHeight s2" using in_bounds_pos [OF assms(3)] by (simp_all add: s2_def)
  have sh: "cell_fill (renderCanvas s2) r c = grid_get (grid s2) r c" for r c
    using cell_fill_renderCanvas [OF wf2 pos] .
  show ?thesis
    using saveState_keep_inv [OF inv2 wf3] wf3 sh
    by (simp add: grid_wf_def cell_fill_def shows_grid_def)
qed

lemma drawPixel_core:
  assumes "editor_core s"
  shows "editor_core (drawPixel row col s)"
proof (cases "in_bounds (gridHeight s) (gridWidth s) row col")
  case False
  then show ?thesis using assms by (simp add: drawPixel_outside)
next
  case ib: True
  have wf: "grid_wf s" and inv: "hist_inv s" and ch: "colorHistory_inv (colorHistory s)"
    using assms by (simp_all add: editor_core_def)
  have dch: "distinct (colorHistory s)" using ch by (simp add: colorHistory_inv_def)
  show ?thesis
  proof (cases "currentTool s")
    case Pencil
    let ?s1 = "s\<lparr>colorHistory := addToColorHistory (currentColor s) (colorHistory s)\<rparr>"
    have "grid_wf ?s1" "in_bounds (gridHeight ?s1) (gridWidth ?s1) row col"
      using wf ib by (simp_all add: grid_wf_def)
    from stamp_effect [OF this, of "currentColor s" "brushSize s"] Pencil inv colorHistory_inv_add [OF dch]
    show ?thesis
      by (simp add: drawPixel_brush_eq [OF ib] editor_core_def hist_inv_def hist_bounds_def)
  next
    case Eraser
    from stamp_effect [OF wf ib, of WHITE "brushSize s"] Eraser inv ch show ?thesis
      by (simp add: drawPixel_brush_eq [OF ib] editor_core_def hist_inv_def hist_bounds_def)
  next
    case Fill
    from fill_state [OF wf inv ib] colorHistory_inv_add [OF dch] Fill show ?thesis
      by (simp add: drawPixel_fill_eq [OF ib] editor_core_def)
  next
    case Eyedropper
    then show ?thesis
      using assms by (simp add: drawPixel_eyedropper_eq [OF ib] editor_core_def grid_wf_def
          hist_inv_def hist_bounds_def)
  qed
qed

text \<open>C5.  A fill click on a cell of a well-formed grid flood-fills from that cell
  with the current colour, records the colour, redraws the whole canvas and
  saves one snapshot: the history invariant holds after it and the live grid
  is the snapshot under the cursor.\<close>

theorem drawPixel_fill:
  assumes "grid_wf s" "hist_inv s" "currentTool s = Fill"
    and "in_bounds (gridHeight s) (gridWidth s) row col"
  shows "grid (drawPixel row col s) =
      floodFill (gridHeight s) (gridWidth s) (grid s) row col (grid s ! nat row ! nat col) (currentColor s) \<and>
    grid_wf (drawPixel row col s) \<and> hist_inv (drawPixel row col s) \<and> hist_synced (drawPixel row col s) \<and>
    colorHistory (drawPixel row col s) = addToColorHistory (currentColor s) (colorHistory s) \<and>
    shows_grid (drawPixel row col s)"
  using fill_state [OF assms(1,2,4)] assms(3)
  by (simp add: drawPixel_fill_eq [OF assms(4,3)])

subsection \<open>Strokes\<close>

lemma drawLine_cells:
  "\<exists>cs. drawLine row0 col0 row1 col1 s = Some (plot_cells (\<lambda>s r c. drawPixel r c s) cs s)"
  using bresenham_run [where 's = editor, of row0 col0 row1 col1] by (auto simp: drawLine_def)

lemma plot_cells_drawPixel:
  "editor_core s \<Longrightarrow>
   editor_core (plot_cells (\<lambda>s r c. drawPixel r c s) cs s) \<and>
   gridWidth (plot_cells (\<lambda>s r c. drawPixel r c s) cs s) = gridWidth s \<and>
   gridHeight (plot_cells (\<lambda>s r c. drawPixel r c s) cs s) = gridHeight s \<and>
   isDrawing (plot_cells (\<lambda>s r c. drawPixel r c s) cs s) = isDrawing s \<and>
   zoomLevel (plot_cells (\<lambda>s r c. drawPixel r c s) cs s) = zoomLevel s \<and>
   brushSize (plot_cells (\<lambda>s r c. drawPixel r c s) cs s) = brushSize s \<and>
   dialogVisible (plot_cells (\<lambda>s r c. drawPixel r c s) cs s) = dialogVisible s \<and>
   dialogType (plot_cells (\<lambda>s r c. drawPixel r c s) cs s) = dialogType s \<and>
   dialogCallback (plot_cells (\<lambda>s r c. drawPixel r c s) cs s) = dialogCallback s"
proof (induction cs arbitrary: s)
  case Nil
  then show ?case by simp
next
  case (Cons p cs)
  obtain r c where p: "p = (r, c)" by fastforce
  from Cons.IH [OF drawPixel_core [OF Cons.prems, of r c]] show ?case by (simp add: p)
qed

subsection \<open>Witnesses\<close>

lemma demo_editor_wf: "grid_wf demo_editor \<and> hist_inv demo_editor"
  by (simp add: demo_editor_def grid_wf_def hist_inv_def hist_bounds_def MAX_HISTORY_def)

theorem drawPixel_brush_witness:
  "grid_wf demo_editor \<and> currentTool demo_editor \<in> {Pencil, Eraser} \<and>
   in_bounds (gridHeight demo_editor) (gridWidth demo_editor) 0 0 \<and>
   grid_get (grid (drawPixel 0 0 demo_editor)) 1 1 = Some BLACK \<and>
   grid_get (grid (drawPixel 0 0 demo_editor)) 2 1 = Some WHITE"
proof -
  have h: "grid_wf demo_editor" "currentTool demo_editor \<in> {Pencil, Eraser}"
    "in_bounds (gridHeight demo_editor) (gridWidth demo_editor) 0 0"
    using demo_editor_wf by (simp_all add: demo_editor_def in_bounds_def)
  have g: "grid_get (grid demo_editor) 2 1 = Some WHITE"
    by (simp add: demo_editor_def grid_get_new_grid in_bounds_def)
  show ?thesis
    using drawPixel_brush [OF h] h g by (simp add: demo_editor_def in_bounds_def)
qed

theorem drawPixel_eyedropper_witness:
  "grid_wf (demo_editor\<lparr>currentTool := Eyedropper\<rparr>) \<and>
   currentTool (demo_editor\<lparr>currentTool := Eyedropper\<rparr>) = Eyedropper \<and>
   in_bounds (gridHeight (demo_editor\<lparr>currentTool := Eyedropper\<rparr>))
     (gridWidth (demo_editor\<lparr>currentTool := Eyedropper\<rparr>)) 1 2 \<and>
   currentColor (drawPixel 1 2 (demo_editor\<lparr>currentTool := Eyedropper\<rparr>)) = WHITE \<and>
   currentTool (drawPixel 1 2 (demo_editor\<lparr>currentTool := Eyedropper\<rparr>)) = Pencil"
proof -
  have h: "grid_wf (demo_editor\<lparr>currentTool := Eyedropper\<rparr>)"
    "currentTool (demo_editor\<lparr>currentTool := Eyedropper\<rparr>) = Eyedropper"
    "in_bounds (gridHeight (demo_editor\<lparr>currentTool := Eyedropper\<rparr>))
       (gridWidth (demo_editor\<lparr>currentTool := Eyedropper\<rparr>)) 1 2"
    using demo_editor_wf by (simp_all add: demo_editor_def in_bounds_def grid_wf_def)
  have g: "grid_get (grid (demo_editor\<lparr>currentTool := Eyedropper\<rparr>)) 1 2 = Some WHITE"
    by (simp add: demo_editor_def grid_get_new_grid in_bounds_def)
  show ?thesis
    using drawPixel_eyedropper [OF h] h g by simp
qed

theorem drawPixel_fill_witness:
  "grid_wf (demo_editor\<lparr>currentTool := Fill\<rparr>) \<and> hist_inv (demo_editor\<lparr>currentTool := Fill\<rparr>) \<and>
   currentTool (demo_editor\<lparr>currentTool := Fill\<rparr>) = Fill \<and>
   in_bounds (gridHeight (demo_editor\<lparr>currentTool := Fill\<rparr>))
     (gridWidth (demo_editor\<lparr>currentTool := Fill\<rparr>)) 0 0 \<and>
   hist_synced (drawPixel 0 0 (demo_editor\<lparr>currentTool := Fill\<rparr>)) \<and>
   shows_grid (drawPixel 0 0 (demo_editor\<lparr>currentTool := Fill\<rparr>))"
proof -
  have h: "grid_wf (demo_editor\<lparr>currentTool := Fill\<rparr>)" "hist_inv (demo_editor\<lparr>currentTool := Fill\<rparr>)"
    "currentTool (demo_editor\<lparr>currentTool := Fill\<rparr>) = Fill"
    "in_bounds (gridHeight (demo_editor\<lparr>currentTool := Fill\<rparr>))
       (gridWidth (demo_editor\<lparr>currentTool := Fill\<rparr>)) 0 0"
    using demo_editor_wf by (simp_all add: demo_editor_def in_bounds_def grid_wf_def hist_inv_def hist_bounds_def)
  show ?thesis
    using drawPixel_fill [OF h] h by simp
qed

end
