(* ===== verification/Dialogs.thy ===== *)
theory Dialogs
  imports Editor
begin

text \<open>
  The modal dialog of src/src/App.vue and the two actions that use it.
  \<open>showDialog\<close>, \<open>closeDialog\<close>, \<open>confirmDialog\<close> and \<open>cancelDialog\<close>
  (lines 60--92) drive the dialog refs of the editor record; the closure a
  dialog holds is a value of \<open>callback\<close>, and running it is
  \<open>run_callback\<close>: the confirmation of \<open>clearGrid\<close> (lines 459--471), the
  prompt of \<open>resizeGrid\<close> (lines 473--494) and the empty callback of its
  alerts.  The value passed to a callback is a JavaScript \<open>string | boolean\<close>
  or nothing, with JavaScript truthiness.
\<close>

datatype dialog_arg = ArgNone | ArgBool bool | ArgStr string

definition js_truthy :: "dialog_arg \<Rightarrow> bool" where
  "js_truthy v = (case v of ArgNone \<Rightarrow> False | ArgBool b \<Rightarrow> b | ArgStr str \<Rightarrow> str \<noteq> [])"

definition js_to_string :: "dialog_arg \<Rightarrow> string" where
  "js_to_string v =
     (case v of ArgNone \<Rightarrow> ''undefined'' | ArgBool b \<Rightarrow> (if b then ''true'' else ''false'')
      | ArgStr str \<Rightarrow> str)"

definition showDialog :: "dialog_kind \<Rightarrow> string \<Rightarrow> string \<Rightarrow> callback \<Rightarrow> editor \<Rightarrow> editor" where
  "showDialog ty title message cb s =
     s\<lparr>dialogType := ty, dialogTitle := title, dialogMessage := message, dialogInput := [],
       dialogCallback := Some cb, dialogVisible := True\<rparr>"

definition closeDialog :: "editor \<Rightarrow> editor" where
  "closeDialog s = s\<lparr>dialogVisible := False, dialogCallback := None\<rparr>"

subsection \<open>Clearing\<close>

text \<open>The nested loop of the \<open>clearGrid\<close> callback, rows outside.\<close>

definition clear_cells :: "int \<Rightarrow> int \<Rightarrow> grid \<Rightarrow> grid" where
  "clear_cells h w g =
     fold (\<lambda>(r, c) g. set_cell g r c WHITE) [(r, c). r \<leftarrow> [0..h - 1], c \<leftarrow> [0..w - 1]] g"

definition clear_callback :: "dialog_arg \<Rightarrow> editor \<Rightarrow> editor" where
  "clear_callback confirmed s =
     (if js_truthy confirmed
      then saveState (renderCanvas (s\<lparr>grid := clear_cells (gridHeight s) (gridWidth s) (grid s)\<rparr>))
      else s)"

definition clearGrid :: "editor \<Rightarrow> editor" where
  "clearGrid s =
     showDialog DConfirm ''Clear Canvas'' ''Are you sure you want to clear the entire canvas?''
       ClearCallback s"

subsection \<open>Resizing\<close>

definition resize_callback :: "dialog_arg \<Rightarrow> editor \<Rightarrow> editor" where
  "resize_callback v s =
     (if \<not> js_truthy v then s
      else case js_parseInt (js_to_string v) 0 of
        None \<Rightarrow> showDialog DAlert ''Invalid Input'' ''Please enter a valid number.'' AlertCallback s
      | Some n \<Rightarrow>
          if n < 8 \<or> n > 64
          then showDialog DAlert ''Invalid Size'' ''Grid size must be between 8 and 64.'' AlertCallback s
          else initializeGrid (s\<lparr>gridWidth := n, gridHeight := n\<rparr>))"

definition resizeGrid :: "editor \<Rightarrow> editor" where
  "resizeGrid s =
     showDialog DPrompt ''Resize Canvas''
       (''Enter grid size (8-64, current: '' @ js_int_str (gridWidth s) @ ''x'' @
        js_int_str (gridHeight s) @ ''):'') ResizeCallback s"

subsection \<open>Running a dialog\<close>

definition run_callback :: "callback \<Rightarrow> dialog_arg \<Rightarrow> editor \<Rightarrow> editor" where
  "run_callback cb v s =
     (case cb of ClearCallback \<Rightarrow> clear_callback v s
      | ResizeCallback \<Rightarrow> resize_callback v s
      | AlertCallback \<Rightarrow> s)"

definition confirmDialog :: "editor \<Rightarrow> editor" where
  "confirmDialog s =
     closeDialog
       (case dialogCallback s of
          None \<Rightarrow> s
        | Some cb \<Rightarrow>
            run_callback cb
              (case dialogType s of DPrompt \<Rightarrow> ArgStr (dialogInput s) | DConfirm \<Rightarrow> ArgBool True
               | DAlert \<Rightarrow> ArgNone) s)"

definition cancelDialog :: "editor \<Rightarrow> editor" where
  "cancelDialog s =
     closeDialog
       (case dialogCallback s of
          Some cb \<Rightarrow> if dialogType s = DConfirm then run_callback cb (ArgBool False) s else s
        | None \<Rightarrow> s)"

subsection \<open>Clearing and resizing\<close>

lemma clear_cells_new_grid: "wf_grid h w g \<Longrightarrow> clear_cells h w g = new_grid h w"
proof (rule grid_eqI)
  assume wf: "wf_grid h w g"
  show "wf_grid h w (clear_cells h w g)" using wf by (simp add: clear_cells_def)
  show "wf_grid h w (new_grid h w)" by simp
  fix r c assume ib: "in_bounds h w r c"
  then have "(r, c) \<in> set [(r, c). r \<leftarrow> [0..h - 1], c \<leftarrow> [0..w - 1]]"
    by (auto simp: in_bounds_def intro!: bexI [of _ r])
  with wf ib show "grid_get (clear_cells h w g) r c = grid_get (new_grid h w) r c"
    by (simp add: clear_cells_def grid_get_fold_set_cell grid_get_in_bounds grid_get_new_grid)
qed

lemma parseInt_Nil [simp]: "js_parseInt [] radix = None"
  by (simp add: js_parseInt_def Let_def)

lemma shows_grid_editor_update [simp]:
  fixes s :: editor
  shows "shows_grid (s\<lparr>dialogVisible := b, dialogCallback := cb\<rparr>) = shows_grid s"
  by (simp add: shows_grid_def cell_fill_def)

lemma shows_grid_saveState [simp]: "shows_grid (saveState s) = shows_grid s"
  by (simp add: shows_grid_def cell_fill_def)

lemma shows_grid_renderCanvas:
  "grid_wf s \<Longrightarrow> 0 < gridWidth s \<Longrightarrow> 0 < gridHeight s \<Longrightarrow> shows_grid (renderCanvas s)"
  using cell_fill_renderCanvas [of s] by (simp add: shows_grid_def)

text \<open>C11.  Confirming the resize prompt with a number from 8 to 64, as
  \<open>parseInt\<close> reads the input, closes the dialog and makes a fresh white
  grid of that size, with a one-entry history and the canvas showing it.\<close>

theorem resize_valid:
  assumes "dialogCallback s = Some ResizeCallback" "dialogType s = DPrompt"
    and "js_parseInt (dialogInput s) 0 = Some n" "8 \<le> n" "n \<le> 64"
  shows "gridWidth (confirmDialog s) = n \<and> gridHeight (confirmDialog s) = n \<and>
    grid (confirmDialog s) = new_grid n n \<and> history (confirmDialog s) = [new_grid n n] \<and>
    historyIndex (confirmDialog s) = 0 \<and> shows_grid (confirmDialog s) \<and>
    \<not> dialogVisible (confirmDialog s)"
proof -
  have ne: "dialogInput s \<noteq> []" using assms(3) by auto
  let ?s1 = "renderCanvas (s\<lparr>gridWidth := n, gridHeight := n, grid := new_grid n n\<rparr>)"
  have sh: "shows_grid ?s1"
    using assms(4) by (intro shows_grid_renderCanvas) (simp_all add: grid_wf_def)
  have eq: "confirmDialog s = closeDialog (saveState (?s1\<lparr>history := [], historyIndex := -1\<rparr>))"
    using assms ne
    by (simp add: confirmDialog_def run_callback_def resize_callback_def js_truthy_def
        js_to_string_def initializeGrid_def)
  show ?thesis
    using sh unfolding eq
    by (simp add: closeDialog_def saveState_def Let_def MAX_HISTORY_def shows_grid_def cell_fill_def)
qed

text \<open>C12.  Confirming the resize prompt with input that \<open>parseInt\<close> rejects or
  reads as a size outside 8 to 64 changes neither the grid nor the history,
  and ends with no dialog on screen: the alert the callback opens is closed
  again by \<open>confirmDialog\<close> before it is ever shown.\<close>

theorem resize_invalid_hidden:
  assumes "dialogCallback s = Some ResizeCallback" "dialogType s = DPrompt"
    and "js_parseInt (dialogInput s) 0 = None \<or> (\<exists>n. js_parseInt (dialogInput s) 0 = Some n \<and> (n < 8 \<or> 64 < n))"
  shows "\<not> dialogVisible (confirmDialog s) \<and> dialogCallback (confirmDialog s) = None \<and>
    grid (confirmDialog s) = grid s \<and> gridWidth (confirmDialog s) = gridWidth s \<and>
    gridHeight (confirmDialog s) = gridHeight s \<and> history (confirmDialog s) = history s \<and>
    historyIndex (confirmDialog s) = historyIndex s \<and> display (confirmDialog s) = display s"
  using assms
  by (auto simp: confirmDialog_def run_callback_def resize_callback_def js_truthy_def
      js_to_string_def showDialog_def closeDialog_def)

text \<open>C13.  Confirming the clear dialog turns every cell of a well-formed grid
  white, redraws the canvas and saves one snapshot, keeping the history
  invariant with the live grid under the cursor; cancelling it only closes
  the dialog.\<close>

theorem clear_confirm:
  assumes "dialogCallback s = Some ClearCallback" "dialogType s = DConfirm"
    and "grid_wf s" "hist_inv s" "0 < gridWidth s" "0 < gridHeight s"
  shows "grid (confirmDialog s) = new_grid (gridHeight s) (gridWidth s) \<and>
    hist_inv (confirmDialog s) \<and> hist_synced (confirmDialog s) \<and> shows_grid (confirmDialog s) \<and>
    \<not> dialogVisible (confirmDialog s) \<and> cancelDialog s = closeDialog s"
proof -
  let ?s1 = "renderCanvas (s\<lparr>grid := new_grid (gridHeight s) (gridWidth s)\<rparr>)"
  have wf1: "grid_wf ?s1" by (simp add: grid_wf_def)
  have inv1: "hist_inv ?s1" using assms(4) by (simp add: hist_inv_def hist_bounds_def)
  have sh: "shows_grid ?s1"
    using assms(5,6) by (intro shows_grid_renderCanvas) (simp_all add: grid_wf_def)
  have eq: "confirmDialog s = closeDialog (saveState ?s1)"
    using assms(1-3)
    by (simp add: confirmDialog_def run_callback_def clear_callback_def js_truthy_def
        grid_wf_def clear_cells_new_grid)
  have "cancelDialog s = closeDialog s"
    using assms(1,2) by (simp add: cancelDialog_def run_callback_def clear_callback_def js_truthy_def)
  then show ?thesis
    using saveState_keep_inv [OF inv1 wf1] sh unfolding eq
    by (simp add: closeDialog_def hist_inv_def hist_bounds_def hist_synced_def grid_wf_def)
qed

subsection \<open>Witnesses\<close>

theorem resize_valid_witness:
  "dialogCallback (demo_editor\<lparr>dialogCallback := Some ResizeCallback, dialogType := DPrompt, dialogInput := ''16''\<rparr>) = Some ResizeCallback \<and>
   dialogType (demo_editor\<lparr>dialogCallback := Some ResizeCallback, dialogType := DPrompt, dialogInput := ''16''\<rparr>) = DPrompt \<and>
   js_parseInt (dialogInput (demo_editor\<lparr>dialogCallback := Some ResizeCallback, dialogType := DPrompt, dialogInput := ''16''\<rparr>)) 0 = Some 16 \<and>
   gridWidth (confirmDialog (demo_editor\<lparr>dialogCallback := Some ResizeCallback, dialogType := DPrompt, dialogInput := ''16''\<rparr>)) = 16 \<and>
   history (confirmDialog (demo_editor\<lparr>dialogCallback := Some ResizeCallback, dialogType := DPrompt, dialogInput := ''16''\<rparr>)) = [new_grid 16 16]"
proof -
  have p: "js_parseInt ''16'' 0 = Some 16"
    by (simp add: js_parseInt_def Let_def js_space_def is_radix_digit_def digit_val_def digits_value_def)
  show ?thesis
    using resize_valid [of "demo_editor\<lparr>dialogCallback := Some ResizeCallback, dialogType := DPrompt, dialogInput := ''16''\<rparr>" 16] p
    by simp
qed

theorem resize_invalid_hidden_witness:
  "dialogCallback (demo_editor\<lparr>dialogCallback := Some ResizeCallback, dialogType := DPrompt, dialogInput := ''abc''\<rparr>) = Some ResizeCallback \<and>
   dialogType (demo_editor\<lparr>dialogCallback := Some ResizeCallback, dialogType := DPrompt, dialogInput := ''abc''\<rparr>) = DPrompt \<and>
   js_parseInt (dialogInput (demo_editor\<lparr>dialogCallback := Some ResizeCallback, dialogType := DPrompt, dialogInput := ''abc''\<rparr>)) 0 = None \<and>
   \<not> dialogVisible (confirmDialog (demo_editor\<lparr>dialogCallback := Some ResizeCallback, dialogType := DPrompt, dialogInput := ''abc''\<rparr>))"
proof -
  have p: "js_parseInt ''abc'' 0 = None"
    by (simp add: js_parseInt_def Let_def js_space_def is_radix_digit_def digit_val_def)
  show ?thesis
    using resize_invalid_hidden [of "demo_editor\<lparr>dialogCallback := Some ResizeCallback, dialogType := DPrompt, dialogInput := ''abc''\<rparr>"] p
    by simp
qed

theorem clear_confirm_witness:
  "dialogCallback (demo_editor\<lparr>dialogCallback := Some ClearCallback, dialogType := DConfirm\<rparr>) = Some ClearCallback \<and>
   dialogType (demo_editor\<lparr>dialogCallback := Some ClearCallback, dialogType := DConfirm\<rparr>) = DConfirm \<and>
   grid_wf (demo_editor\<lparr>dialogCallback := Some ClearCallback, dialogType := DConfirm\<rparr>) \<and>
   hist_inv (demo_editor\<lparr>dialogCallback := Some ClearCallback, dialogType := DConfirm\<rparr>) \<and>
   0 < gridWidth (demo_editor\<lparr>dialogCallback := Some ClearCallback, dialogType := DConfirm\<rparr>) \<and>
   0 < gridHeight (demo_editor\<lparr>dialogCallback := Some ClearCallback, dialogType := DConfirm\<rparr>) \<and>
   hist_synced (confirmDialog (demo_editor\<lparr>dialogCallback := Some ClearCallback, dialogType := DConfirm\<rparr>))"
proof -
  have h: "grid_wf (demo_editor\<lparr>dialogCallback := Some ClearCallback, dialogType := DConfirm\<rparr>)"
    "hist_inv (demo_editor\<lparr>dialogCallback := Some ClearCallback, dialogType := DConfirm\<rparr>)"
    using demo_editor_wf by (simp_all add: grid_wf_def hist_inv_def hist_bounds_def)
  show ?thesis
    using clear_confirm [of "demo_editor\<lparr>dialogCallback := Some ClearCallback, dialogType := DConfirm\<rparr>"] h
    by (simp add: demo_editor_def)
qed


end
