(* ===== verification/Events.thy ===== *)
theory Events
  imports Dialogs
begin

text \<open>
  The input side of src/src/App.vue: the coordinate mapper
  \<open>getCanvasCoordinates\<close> (lines 372--390), the canvas mouse handlers
  (lines 392--443), zoom (lines 523--539), the keyboard shortcuts installed by
  \<open>onMounted\<close> (lines 541--560), and the
  bindings of the template (lines 564--722).  A browser event is a value of
  \<open>ui_event\<close>; \<open>step\<close> runs its handler.  A click on a button is a press and a
  release on it: the release bubbles to the document, whose \<open>mouseup\<close>
  listener is \<open>stopDrawing\<close>, before the button's \<open>click\<close> handler runs.  A
  release over the canvas runs the canvas's \<open>onCanvasMouseUp\<close> and then the
  document's listener.  While the dialog is visible its full-window overlay
  (\<open>.dialog-overlay\<close>, \<open>position: fixed\<close>) receives the pointer, so
  \<open>event_enabled\<close> lets through only the dialog's own events, the keyboard
  and the document's \<open>mouseup\<close>.  Reals stand for JavaScript numbers.
\<close>

record canvas_rect =
  rect_left :: real
  rect_top :: real
  rect_width :: real
  rect_height :: real

record mouse_event =
  clientX :: real
  clientY :: real
  buttons :: int

record key_event =
  key :: string
  ctrlKey :: bool
  metaKey :: bool
  shiftKey :: bool

subsection \<open>Coordinate mapper\<close>

definition getCanvasCoordinates :: "canvas_rect option \<Rightarrow> mouse_event \<Rightarrow> editor \<Rightarrow> cell option" where
  "getCanvasCoordinates cv ev s =
     (case cv of
        None \<Rightarrow> None
      | Some rect \<Rightarrow>
          let scaleX = CANVAS_SIZE / rect_width rect;
              scaleY = CANVAS_SIZE / rect_height rect;
              x = (clientX ev - rect_left rect) * scaleX;
              y = (clientY ev - rect_top rect) * scaleY;
              ps = pixelSize (gridWidth s) (gridHeight s);
              col = \<lfloor>x / ps\<rfloor>;
              row = \<lfloor>y / ps\<rfloor>
          in Some (max 0 (min (gridHeight s - 1) row), max 0 (min (gridWidth s - 1) col)))"

subsection \<open>Canvas mouse handlers\<close>

definition onCanvasMouseDown :: "canvas_rect option \<Rightarrow> mouse_event \<Rightarrow> editor \<Rightarrow> editor" where
  "onCanvasMouseDown cv ev s =
     (case getCanvasCoordinates cv ev s of None \<Rightarrow> s | Some (row, col) \<Rightarrow> startDrawing row col s)"

definition brush_tool :: "editor \<Rightarrow> bool" where
  "brush_tool s \<longleftrightarrow> currentTool s = Pencil \<or> currentTool s = Eraser"

definition onCanvasMouseMove :: "canvas_rect option \<Rightarrow> mouse_event \<Rightarrow> editor \<Rightarrow> editor option" where
  "onCanvasMouseMove cv ev s =
     (let coords = getCanvasCoordinates cv ev s in
      if buttons ev = 1 then
        let s1 = (if \<not> isDrawing s \<and> brush_tool s then s\<lparr>isDrawing := True\<rparr> else s) in
        case coords of
          Some (row, col) \<Rightarrow>
            if isDrawing s1 \<and> brush_tool s1 then
              let s2 = (case lastDrawnPos s1 of
                          Some (r0, c0) \<Rightarrow>
                            if r0 \<noteq> row \<or> c0 \<noteq> col then drawLine r0 c0 row col s1 else Some s1
                        | None \<Rightarrow> Some (drawPixel row col s1))
              in map_option (\<lambda>s. s\<lparr>lastDrawnPos := Some (row, col)\<rparr>) s2
            else Some s1
        | None \<Rightarrow> Some s1
      else
        case coords of
          Some p \<Rightarrow> Some (renderHoverPreview (s\<lparr>hoveredCell := Some p\<rparr>))
        | None \<Rightarrow> Some s)"

definition onCanvasMouseUp :: "editor \<Rightarrow> editor" where
  "onCanvasMouseUp s = stopDrawing s"

definition onCanvasMouseLeave :: "editor \<Rightarrow> editor" where
  "onCanvasMouseLeave s =
     (if hoveredCell s \<noteq> None then renderCanvas (s\<lparr>hoveredCell := None\<rparr>) else s)"

subsection \<open>Zoom\<close>

definition MIN_ZOOM :: real where "MIN_ZOOM = 0.25"

definition MAX_ZOOM :: real where "MAX_ZOOM = 4"

definition zoomIn :: "editor \<Rightarrow> editor" where
  "zoomIn s = s\<lparr>zoomLevel := min MAX_ZOOM (zoomLevel s + 0.25)\<rparr>"

definition zoomOut :: "editor \<Rightarrow> editor" where
  "zoomOut s = s\<lparr>zoomLevel := max MIN_ZOOM (zoomLevel s - 0.25)\<rparr>"

definition resetZoom :: "editor \<Rightarrow> editor" where
  "resetZoom s = s\<lparr>zoomLevel := 1\<rparr>"

definition handleWheel :: "real \<Rightarrow> editor \<Rightarrow> editor" where
  "handleWheel deltaY s =
     (let delta = (if deltaY > 0 then - 0.1 else 0.1)
      in s\<lparr>zoomLevel := max MIN_ZOOM (min MAX_ZOOM (zoomLevel s + delta))\<rparr>)"

subsection \<open>Keyboard shortcuts\<close>

definition onKeyDown :: "key_event \<Rightarrow> editor \<Rightarrow> editor" where
  "onKeyDown ev s =
     (if (ctrlKey ev \<or> metaKey ev) \<and> key ev = ''z'' \<and> \<not> shiftKey ev then undo s
      else if (ctrlKey ev \<or> metaKey ev) \<and> (key ev = ''y'' \<or> key ev = ''z'' \<and> shiftKey ev) then redo s
      else s)"

subsection \<open>Events\<close>

datatype ui_event =
    ToolButton tool
  | BrushButton int
  | ColorInput color
  | PaletteClick color
  | ClearButton
  | ResizeButton
  | ExportButton
  | ZoomOutButton
  | ZoomInButton
  | ResetZoomButton
  | Wheel real
  | CanvasDown "canvas_rect option" mouse_event
  | CanvasMove "canvas_rect option" mouse_event
  | CanvasUp
  | CanvasLeave
  | DocumentUp
  | KeyDown key_event
  | DialogTyped string
  | DialogEnter
  | DialogConfirmButton
  | DialogCancelButton
  | OverlayClick

text \<open>The value an \<open><input type="color">\<close> reports: by its value sanitisation
  (HTML, valid simple colour) always \<open>#\<close> and six lower-case hexadecimal
  digits.\<close>

definition simple_colour :: "color \<Rightarrow> bool" where
  "simple_colour c \<longleftrightarrow>
     length c = 7 \<and> hd c = CHR ''#'' \<and> list_all (\<lambda>x. x \<in> set ''0123456789abcdef'') (tl c)"

text \<open>Which events can reach a handler in a state (the overlay, the
  \<open>v-if\<close>s and the \<open>:disabled\<close> bindings of the template).\<close>

definition event_enabled :: "ui_event \<Rightarrow> editor \<Rightarrow> bool" where
  "event_enabled e s =
     (case e of
        KeyDown _ \<Rightarrow> True
      | DocumentUp \<Rightarrow> True
      | DialogTyped _ \<Rightarrow> dialogVisible s \<and> dialogType s = DPrompt
      | DialogEnter \<Rightarrow> dialogVisible s \<and> dialogType s = DPrompt
      | DialogConfirmButton \<Rightarrow> dialogVisible s
      | DialogCancelButton \<Rightarrow> dialogVisible s \<and> dialogType s \<noteq> DAlert
      | OverlayClick \<Rightarrow> dialogVisible s
      | BrushButton n \<Rightarrow> \<not> dialogVisible s \<and> n \<in> {1, 2, 3, 4, 5}
      | ColorInput c \<Rightarrow> \<not> dialogVisible s \<and> simple_colour c
      | PaletteClick c \<Rightarrow> \<not> dialogVisible s \<and> c \<in> set (colorHistory s)
      | ZoomOutButton \<Rightarrow> \<not> dialogVisible s \<and> \<not> zoomLevel s \<le> MIN_ZOOM
      | ZoomInButton \<Rightarrow> \<not> dialogVisible s \<and> \<not> zoomLevel s \<ge> MAX_ZOOM
      | _ \<Rightarrow> \<not> dialogVisible s)"

definition step :: "ui_event \<Rightarrow> editor \<Rightarrow> editor option" where
  "step e s =
     (case e of
        ToolButton t \<Rightarrow> Some ((stopDrawing s)\<lparr>currentTool := t\<rparr>)
      | BrushButton n \<Rightarrow> Some ((stopDrawing s)\<lparr>brushSize := n\<rparr>)
      | ColorInput c \<Rightarrow> Some (s\<lparr>currentColor := c\<rparr>)
      | PaletteClick c \<Rightarrow> Some ((stopDrawing s)\<lparr>currentColor := c\<rparr>)
      | ClearButton \<Rightarrow> Some (clearGrid (stopDrawing s))
      | ResizeButton \<Rightarrow> Some (resizeGrid (stopDrawing s))
      | ExportButton \<Rightarrow> Some (stopDrawing s)
      | ZoomOutButton \<Rightarrow> Some (zoomOut (stopDrawing s))
      | ZoomInButton \<Rightarrow> Some (zoomIn (stopDrawing s))
      | ResetZoomButton \<Rightarrow> Some (resetZoom (stopDrawing s))
      | Wheel d \<Rightarrow> Some (handleWheel d s)
      | CanvasDown cv ev \<Rightarrow> Some (onCanvasMouseDown cv ev s)
      | CanvasMove cv ev \<Rightarrow> onCanvasMouseMove cv ev s
      | CanvasUp \<Rightarrow> Some (stopDrawing (onCanvasMouseUp s))
      | CanvasLeave \<Rightarrow> Some (onCanvasMouseLeave s)
      | DocumentUp \<Rightarrow> Some (stopDrawing s)
      | KeyDown k \<Rightarrow> Some (onKeyDown k s)
      | DialogTyped str \<Rightarrow> Some (s\<lparr>dialogInput := str\<rparr>)
      | DialogEnter \<Rightarrow> Some (confirmDialog s)
      | DialogConfirmButton \<Rightarrow> Some (confirmDialog (stopDrawing s))
      | DialogCancelButton \<Rightarrow> Some (cancelDialog (stopDrawing s))
      | OverlayClick \<Rightarrow> Some (cancelDialog (stopDrawing s)))"

subsection \<open>Start-up\<close>

text \<open>The refs as the script declares them, then \<open>onMounted\<close>'s
  \<open>initializeGrid()\<close>.\<close>

definition initial_refs :: editor where
  "initial_refs =
     \<lparr>gridWidth = 32, gridHeight = 32, grid = [], display = [], history = [], historyIndex = -1,
      zoomLevel = 1, currentColor = BLACK, currentTool = Pencil, isDrawing = False,
      lastDrawnPos = None, brushSize = 1, hoveredCell = None, dialogVisible = False,
      dialogType = DAlert, dialogTitle = [], dialogMessage = [], dialogInput = [],
      dialogCallback = None, colorHistory = initialColorHistory\<rparr>"

definition init_editor :: editor where
  "init_editor = initializeGrid initial_refs"

inductive reachable :: "editor \<Rightarrow> bool" where
  init: "reachable init_editor"
| step: "reachable s \<Longrightarrow> event_enabled e s \<Longrightarrow> step e s = Some s' \<Longrightarrow> reachable s'"

subsection \<open>The coordinate mapper's contract\<close>

lemma coords_in_bounds:
  assumes "getCanvasCoordinates cv ev s = Some (row, col)" "0 < gridWidth s" "0 < gridHeight s"
  shows "in_bounds (gridHeight s) (gridWidth s) row col"
  using assms by (auto simp: getCanvasCoordinates_def Let_def in_bounds_def split: option.splits)

text \<open>C23.  Once the canvas is mounted the mapper always reports a cell, and never
  one outside the grid: whatever the pointer position, the cell is clamped
  into range.\<close>

theorem getCanvasCoordinates_in_bounds:
  assumes "0 < gridWidth s" "0 < gridHeight s"
  shows "\<exists>row col. getCanvasCoordinates (Some rect) ev s = Some (row, col) \<and>
    in_bounds (gridHeight s) (gridWidth s) row col"
proof -
  obtain row col where g: "getCanvasCoordinates (Some rect) ev s = Some (row, col)"
    by (simp add: getCanvasCoordinates_def Let_def)
  with coords_in_bounds [OF g assms] show ?thesis by blast
qed

lemma floor_cell:
  fixes x ps :: real
  assumes "0 < ps" "of_int k * ps \<le> x" "x < of_int (k + 1) * ps"
  shows "\<lfloor>x / ps\<rfloor> = k"
proof -
  have "of_int k \<le> x / ps" using assms by (simp add: pos_le_divide_eq)
  moreover have "x / ps < of_int k + 1" using assms by (simp add: pos_divide_less_eq algebra_simps)
  ultimately show ?thesis by (simp add: floor_eq_iff)
qed

lemma cell_rect_coords:
  assumes "0 < gridWidth s" "0 < gridHeight s" "in_bounds (gridHeight s) (gridWidth s) row col"
    and "x = (clientX ev - rect_left rect) * (CANVAS_SIZE / rect_width rect)"
    and "y = (clientY ev - rect_top rect) * (CANVAS_SIZE / rect_height rect)"
    and "cell_rect (pixelSize (gridWidth s) (gridHeight s)) row col = FillRect x0 y0 ps ps'"
    and "x0 \<le> x" "x < x0 + ps" "y0 \<le> y" "y < y0 + ps"
  shows "getCanvasCoordinates (Some rect) ev s = Some (row, col)"
proof -
  have p: "0 < pixelSize (gridWidth s) (gridHeight s)" using pixelSize_pos assms(1,2) by blast
  have r: "x0 = of_int col * pixelSize (gridWidth s) (gridHeight s)"
    "y0 = of_int row * pixelSize (gridWidth s) (gridHeight s)" "ps = pixelSize (gridWidth s) (gridHeight s)"
    using assms(6) unfolding cell_rect_def by (metis draw_cmd.inject(2))+
  have "\<lfloor>x / pixelSize (gridWidth s) (gridHeight s)\<rfloor> = col"
    using assms(7,8) p r by (intro floor_cell) (simp_all add: algebra_simps)
  moreover have "\<lfloor>y / pixelSize (gridWidth s) (gridHeight s)\<rfloor> = row"
    using assms(9,10) p r by (intro floor_cell) (simp_all add: algebra_simps)
  ultimately show ?thesis
    using assms(3,4,5) by (simp add: getCanvasCoordinates_def Let_def in_bounds_def)
qed

text \<open>C24.  A press on the drawn rectangle of a cell selects that cell: when the
  pointer, scaled from the canvas's rendered size to its 640-unit logical size,
  lies in the rectangle \<open>renderCanvas\<close> fills for cell \<open>(row, col)\<close>, the mapper
  returns that cell.\<close>

theorem getCanvasCoordinates_cell:
  assumes "0 < gridWidth s" "0 < gridHeight s" "in_bounds (gridHeight s) (gridWidth s) row col"
    and "x = (clientX ev - rect_left rect) * (CANVAS_SIZE / rect_width rect)"
    and "y = (clientY ev - rect_top rect) * (CANVAS_SIZE / rect_height rect)"
    and "cell_rect (pixelSize (gridWidth s) (gridHeight s)) row col = FillRect x0 y0 ps ps'"
    and "x0 \<le> x" "x < x0 + ps" "y0 \<le> y" "y < y0 + ps"
  shows "getCanvasCoordinates (Some rect) ev s = Some (row, col)"
  using assms by (rule cell_rect_coords)

subsection \<open>Witnesses\<close>

theorem getCanvasCoordinates_in_bounds_witness:
  "0 < gridWidth demo_editor \<and> 0 < gridHeight demo_editor \<and>
   (\<exists>row col. getCanvasCoordinates (Some \<lparr>rect_left = 0, rect_top = 0, rect_width = 640, rect_height = 640\<rparr>)
     \<lparr>clientX = 7680, clientY = -640, buttons = 0\<rparr> demo_editor = Some (row, col) \<and>
     in_bounds (gridHeight demo_editor) (gridWidth demo_editor) row col)"
proof -
  have d: "0 < gridWidth demo_editor" "0 < gridHeight demo_editor" by (simp_all add: demo_editor_def)
  show ?thesis using getCanvasCoordinates_in_bounds [OF d] d by simp
qed

theorem getCanvasCoordinates_cell_witness:
  "getCanvasCoordinates (Some \<lparr>rect_left = 0, rect_top = 0, rect_width = 640, rect_height = 640\<rparr>)
     \<lparr>clientX = 300, clientY = 500, buttons = 0\<rparr> demo_editor = Some (2, 1)"
proof -
  have d: "0 < gridWidth demo_editor" "0 < gridHeight demo_editor"
    "in_bounds (gridHeight demo_editor) (gridWidth demo_editor) 2 1"
    by (simp_all add: demo_editor_def in_bounds_def)
  have c: "cell_rect (pixelSize (gridWidth demo_editor) (gridHeight demo_editor)) 2 1 =
      FillRect (640 / 3) (1280 / 3) (640 / 3) (640 / 3)"
    by (simp add: demo_editor_def cell_rect_def pixelSize_def CANVAS_SIZE_def)
  show ?thesis
    using getCanvasCoordinates_cell [OF d _ _ c,
        of 300 "\<lparr>clientX = 300, clientY = 500, buttons = 0\<rparr>" "\<lparr>rect_left = 0, rect_top = 0, rect_width = 640, rect_height = 640\<rparr>" 500]
    by (simp add: CANVAS_SIZE_def)
qed

end
