(* ===== verification/Session.thy ===== *)
theory Session
  imports Events
begin

text \<open>
  The invariant of a running editor session and the lemmas that every
  handler of \<open>step\<close> keeps it.  \<open>editor_inv\<close> collects: the tool invariant
  \<open>editor_core\<close> (well-formed grid, history invariant, colour history without
  duplicates and within 20 entries); a square grid of side 8 to 64; between
  gestures the live grid is the snapshot under the history cursor; a last
  drawn cell only during a gesture; zoom within its bounds; a brush size of 1
  to 5; the dialog visible exactly when it holds a callback, of the kind that
  callback expects.  It also holds the traces of whole gestures the root
  theory's claims are built from: the four outcomes of a pointer move, the
  history effect of a click with each tool, and that a stroke of pencil or
  eraser stamps leaves every cell it visits in the pen's colour.
\<close>

definition dialog_ok :: "editor \<Rightarrow> bool" where
  "dialog_ok s \<longleftrightarrow>
     (dialogVisible s \<longleftrightarrow> dialogCallback s \<noteq> None) \<and>
     (dialogCallback s = Some ClearCallback \<longrightarrow> dialogType s = DConfirm) \<and>
     (dialogCallback s = Some ResizeCallback \<longrightarrow> dialogType s = DPrompt) \<and>
     (dialogCallback s = Some AlertCallback \<longrightarrow> dialogType s = DAlert)"

definition editor_inv :: "editor \<Rightarrow> bool" where
  "editor_inv s \<longleftrightarrow>
     editor_core s \<and> gridWidth s = gridHeight s \<and> 8 \<le> gridWidth s \<and> gridWidth s \<le> 64 \<and>
     (\<not> isDrawing s \<longrightarrow> hist_synced s) \<and> (lastDrawnPos s \<noteq> None \<longrightarrow> isDrawing s) \<and>
     MIN_ZOOM \<le> zoomLevel s \<and> zoomLevel s \<le> MAX_ZOOM \<and> 1 \<le> brushSize s \<and> brushSize s \<le> 5 \<and>
     dialog_ok s"

lemma editor_inv_frame:
  assumes "editor_inv s" "editor_core s'"
    and "gridWidth s' = gridWidth s" "gridHeight s' = gridHeight s"
    and "zoomLevel s' = zoomLevel s" "brushSize s' = brushSize s"
    and "dialogVisible s' = dialogVisible s" "dialogCallback s' = dialogCallback s"
    and "dialogType s' = dialogType s"
    and "\<not> isDrawing s' \<longrightarrow> hist_synced s'" "lastDrawnPos s' \<noteq> None \<longrightarrow> isDrawing s'"
  shows "editor_inv s'"
  using assms by (simp add: editor_inv_def dialog_ok_def)

lemma editor_core_frame:
  "editor_core s \<Longrightarrow> grid s' = grid s \<Longrightarrow> gridWidth s' = gridWidth s \<Longrightarrow>
   gridHeight s' = gridHeight s \<Longrightarrow> history s' = history s \<Longrightarrow> historyIndex s' = historyIndex s \<Longrightarrow>
   colorHistory s' = colorHistory s \<Longrightarrow> editor_core s' \<and> (hist_synced s' = hist_synced s)"
  by (simp add: editor_core_def grid_wf_def hist_inv_def hist_bounds_def hist_synced_def)

lemma editor_core_update [simp]:
  "editor_core (s\<lparr>isDrawing := b\<rparr>) = editor_core s"
  "editor_core (s\<lparr>lastDrawnPos := p\<rparr>) = editor_core s"
  "editor_core (s\<lparr>hoveredCell := q\<rparr>) = editor_core s"
  "editor_core (s\<lparr>zoomLevel := z\<rparr>) = editor_core s"
  "editor_core (s\<lparr>brushSize := n\<rparr>) = editor_core s"
  "editor_core (s\<lparr>currentTool := t\<rparr>) = editor_core s"
  "editor_core (s\<lparr>currentColor := c\<rparr>) = editor_core s"
  "editor_core (s\<lparr>dialogInput := str\<rparr>) = editor_core s"
  "editor_core (s\<lparr>display := d\<rparr>) = editor_core s"
  "editor_core (s\<lparr>dialogVisible := v, dialogCallback := cb\<rparr>) = editor_core s"
  "editor_core (s\<lparr>dialogType := ty, dialogTitle := ttl, dialogMessage := msg, dialogInput := i,
     dialogCallback := cb, dialogVisible := v\<rparr>) = editor_core s"
  by (simp_all add: editor_core_def grid_wf_def hist_inv_def hist_bounds_def)

lemma hist_synced_update [simp]:
  "hist_synced (s\<lparr>isDrawing := b\<rparr>) = hist_synced s"
  "hist_synced (s\<lparr>lastDrawnPos := p\<rparr>) = hist_synced s"
  "hist_synced (s\<lparr>hoveredCell := q\<rparr>) = hist_synced s"
  "hist_synced (s\<lparr>zoomLevel := z\<rparr>) = hist_synced s"
  "hist_synced (s\<lparr>brushSize := n\<rparr>) = hist_synced s"
  "hist_synced (s\<lparr>currentTool := t\<rparr>) = hist_synced s"
  "hist_synced (s\<lparr>currentColor := c\<rparr>) = hist_synced s"
  "hist_synced (s\<lparr>dialogInput := str\<rparr>) = hist_synced s"
  "hist_synced (s\<lparr>display := d\<rparr>) = hist_synced s"
  "hist_synced (s\<lparr>dialogVisible := v, dialogCallback := cb\<rparr>) = hist_synced s"
  "hist_synced (s\<lparr>dialogType := ty, dialogTitle := ttl, dialogMessage := msg, dialogInput := i,
     dialogCallback := cb, dialogVisible := v\<rparr>) = hist_synced s"
  by (simp_all add: hist_synced_def)

lemma saveState_core:
  "editor_core s \<Longrightarrow> editor_core (saveState s) \<and> hist_synced (saveState s)"
  using saveState_keep_inv [of s] by (simp add: editor_core_def grid_wf_def)

subsection \<open>Gestures\<close>

lemma stopDrawing_inv:
  assumes "editor_inv s"
  shows "editor_inv (stopDrawing s) \<and> \<not> isDrawing (stopDrawing s) \<and> lastDrawnPos (stopDrawing s) = None"
proof -
  have core: "editor_core s" using assms by (simp add: editor_inv_def)
  have "editor_core (stopDrawing s) \<and> hist_synced (stopDrawing s)"
  proof (cases "isDrawing s")
    case True
    then show ?thesis using saveState_core [OF core] by (simp add: stopDrawing_def)
  next
    case False
    then show ?thesis using assms by (simp add: stopDrawing_def editor_inv_def)
  qed
  moreover have "\<not> isDrawing (stopDrawing s) \<and> lastDrawnPos (stopDrawing s) = None"
    by (simp add: stopDrawing_def)
  ultimately show ?thesis
    by (auto intro: editor_inv_frame [OF assms] simp: stopDrawing_def)
qed

lemma drawPixel_inv:
  "editor_inv s \<Longrightarrow> isDrawing s \<Longrightarrow> editor_inv (drawPixel row col s)"
  by (rule editor_inv_frame) (simp_all add: drawPixel_core editor_inv_def)

lemma startDrawing_inv:
  assumes "editor_inv s"
  shows "editor_inv (startDrawing row col s)"
proof -
  let ?s1 = "s\<lparr>isDrawing := True, hoveredCell := None, lastDrawnPos := Some (row, col)\<rparr>"
  have "editor_inv ?s1"
    using assms by (intro editor_inv_frame [OF assms]) (simp_all add: editor_inv_def)
  then show ?thesis by (simp add: startDrawing_def drawPixel_inv)
qed

lemma preview_fold_fields [simp]:
  "gridWidth (fold (\<lambda>p s. preview_cell s p) ps s) = gridWidth s"
  "gridHeight (fold (\<lambda>p s. preview_cell s p) ps s) = gridHeight s"
  "grid (fold (\<lambda>p s. preview_cell s p) ps s) = grid s"
  "canvas_state.more (fold (\<lambda>p s. preview_cell s p) ps s) = canvas_state.more s"
  by (induction ps arbitrary: s) (simp_all add: preview_cell_def split: prod.splits)

lemma renderHoverPreview_fields [simp]:
  "gridWidth (renderHoverPreview s) = gridWidth s"
  "gridHeight (renderHoverPreview s) = gridHeight s"
  "grid (renderHoverPreview s) = grid s"
  "canvas_state.more (renderHoverPreview s) = canvas_state.more s"
  by (simp_all add: renderHoverPreview_def Let_def drawGridLines_def split: option.splits prod.splits)

lemma renderHoverPreview_inv:
  assumes "editor_inv s"
  shows "editor_inv (renderHoverPreview s)"
proof -
  have m: "canvas_state.more (renderHoverPreview s) = canvas_state.more s" by simp
  note f = editor_more_eq [OF m]
  have core: "editor_core s" using assms by (simp add: editor_inv_def)
  have "editor_core (renderHoverPreview s) \<and> hist_synced (renderHoverPreview s) = hist_synced s"
    using f by (intro editor_core_frame [where s' = "renderHoverPreview s", OF core]) simp_all
  then show ?thesis
    using assms f by (intro editor_inv_frame [OF assms]) (simp_all add: editor_inv_def)
qed

lemma display_update_inv:
  "editor_inv s \<Longrightarrow> editor_inv (s\<lparr>display := d\<rparr>)"
  by (rule editor_inv_frame) (simp_all add: editor_inv_def)

lemma set_drawing_inv:
  "editor_inv s \<Longrightarrow> editor_inv (s\<lparr>isDrawing := True\<rparr>)"
  by (rule editor_inv_frame) (simp_all add: editor_inv_def)

lemma set_last_inv:
  "editor_inv s \<Longrightarrow> isDrawing s \<Longrightarrow> editor_inv (s\<lparr>lastDrawnPos := p\<rparr>)"
  by (rule editor_inv_frame) (simp_all add: editor_inv_def)

lemma plot_inv:
  assumes "editor_inv s" "isDrawing s"
  shows "editor_inv (plot_cells (\<lambda>s r c. drawPixel r c s) cs s) \<and>
    isDrawing (plot_cells (\<lambda>s r c. drawPixel r c s) cs s)"
proof -
  have "editor_core s" using assms by (simp add: editor_inv_def)
  from plot_cells_drawPixel [OF this, of cs] assms show ?thesis
    by (intro conjI editor_inv_frame [OF assms(1)]) (simp_all add: editor_inv_def)
qed

lemma drawLine_inv:
  assumes "editor_inv s" "isDrawing s" "drawLine r0 c0 r1 c1 s = Some s'"
  shows "editor_inv s' \<and> isDrawing s'"
  using drawLine_cells [of r0 c0 r1 c1 s] plot_inv [OF assms(1,2)] assms(3) by auto

lemma onCanvasMouseMove_eq:
  fixes s :: editor
  defines "s1 \<equiv> (if \<not> isDrawing s \<and> brush_tool s then s\<lparr>isDrawing := True\<rparr> else s)"
  shows "onCanvasMouseMove cv ev s =
    (if buttons ev = 1 then
       case getCanvasCoordinates cv ev s of
         Some (row, col) \<Rightarrow>
           if isDrawing s1 \<and> brush_tool s1 then
             map_option (\<lambda>s. s\<lparr>lastDrawnPos := Some (row, col)\<rparr>)
               (case lastDrawnPos s1 of
                  Some (r0, c0) \<Rightarrow> if r0 \<noteq> row \<or> c0 \<noteq> col then drawLine r0 c0 row col s1 else Some s1
                | None \<Rightarrow> Some (drawPixel row col s1))
           else Some s1
       | None \<Rightarrow> Some s1
     else
       case getCanvasCoordinates cv ev s of
         Some p \<Rightarrow> Some (renderHoverPreview (s\<lparr>hoveredCell := Some p\<rparr>))
       | None \<Rightarrow> Some s)"
  unfolding onCanvasMouseMove_def Let_def s1_def ..

lemma hover_update_inv: "editor_inv s \<Longrightarrow> editor_inv (s\<lparr>hoveredCell := q\<rparr>)"
  by (rule editor_inv_frame) (simp_all add: editor_inv_def)

text \<open>The four outcomes of a pointer move: nothing, a hover preview, a
  gesture resumed with no cell under the pointer, or a stroke step (no
  change, the first stamp, or a line from the last drawn cell).\<close>

lemma onCanvasMouseMove_shape:
  assumes "onCanvasMouseMove cv ev s = Some s'"
  obtains (same) "s' = s"
  | (hover) q where "s' = renderHoverPreview (s\<lparr>hoveredCell := Some q\<rparr>)"
  | (resume) "s' = s\<lparr>isDrawing := True\<rparr>"
  | (stroke) s1 s2 row col where "s1 = s \<or> s1 = s\<lparr>isDrawing := True\<rparr>" "isDrawing s1"
      "s' = s2\<lparr>lastDrawnPos := Some (row, col)\<rparr>"
      "s2 = s1 \<or> s2 = drawPixel row col s1 \<or> (\<exists>r0 c0. drawLine r0 c0 row col s1 = Some s2)"
proof -
  define s1 where "s1 = (if \<not> isDrawing s \<and> brush_tool s then s\<lparr>isDrawing := True\<rparr> else s)"
  have s1: "s1 = s \<or> s1 = s\<lparr>isDrawing := True\<rparr>" by (simp add: s1_def)
  note eq = onCanvasMouseMove_eq [of cv ev s, folded s1_def]
  show ?thesis
  proof (cases "buttons ev = 1")
    case b: True
    show ?thesis
    proof (cases "getCanvasCoordinates cv ev s")
      case None
      with b assms s1 same resume show ?thesis by (auto simp: eq)
    next
      case (Some p)
      obtain row col where p: "p = (row, col)" by fastforce
      show ?thesis
      proof (cases "isDrawing s1 \<and> brush_tool s1")
        case False
        with b Some p assms s1 same resume show ?thesis by (auto simp: eq)
      next
        case dr: True
        have mv1: "map_option (\<lambda>s. s\<lparr>lastDrawnPos := Some (row, col)\<rparr>)
               (case lastDrawnPos s1 of
                  Some (r0, c0) \<Rightarrow> if r0 \<noteq> row \<or> c0 \<noteq> col then drawLine r0 c0 row col s1 else Some s1
                | None \<Rightarrow> Some (drawPixel row col s1)) = Some s'"
          using b Some p dr assms unfolding eq by simp
        show ?thesis
        proof (cases "lastDrawnPos s1")
          case None
          with mv1 stroke [OF s1] dr show ?thesis by auto
        next
          case (Some q)
          obtain r0 c0 where q: "q = (r0, c0)" by fastforce
          show ?thesis
          proof (cases "r0 \<noteq> row \<or> c0 \<noteq> col")
            case True
            with mv1 Some q obtain z where "drawLine r0 c0 row col s1 = Some z"
              "s' = z\<lparr>lastDrawnPos := Some (row, col)\<rparr>" by auto
            with stroke [OF s1] dr show ?thesis by blast
          next
            case False
            with mv1 Some q stroke [OF s1] dr show ?thesis by auto
          qed
        qed
      qed
    qed
  next
    case False
    then show ?thesis
      using assms same hover unfolding eq by (cases "getCanvasCoordinates cv ev s") auto
  qed
qed

lemma onCanvasMouseMove_inv:
  assumes "editor_inv s" "onCanvasMouseMove cv ev s = Some s'"
  shows "editor_inv s'"
  using assms(2)
proof (cases rule: onCanvasMouseMove_shape)
  case (hover q)
  then show ?thesis using renderHoverPreview_inv hover_update_inv [OF assms(1)] by simp
next
  case (stroke s1 s2 row col)
  have i1: "editor_inv s1" using stroke(1) assms(1) set_drawing_inv by auto
  have "editor_inv s2 \<and> isDrawing s2"
    using stroke(2,4) drawLine_inv [OF i1 stroke(2)] drawPixel_inv [OF i1 stroke(2)] i1 by auto
  then show ?thesis using stroke(3) set_last_inv by blast
qed (use assms(1) set_drawing_inv in simp_all)

subsection \<open>Canvas leave, zoom and keys\<close>

lemma onCanvasMouseLeave_inv: "editor_inv s \<Longrightarrow> editor_inv (onCanvasMouseLeave s)"
  unfolding onCanvasMouseLeave_def renderCanvas_eq
  using display_update_inv hover_update_inv by simp

lemma zoom_inv:
  "editor_inv s \<Longrightarrow> MIN_ZOOM \<le> z \<Longrightarrow> z \<le> MAX_ZOOM \<Longrightarrow> editor_inv (s\<lparr>zoomLevel := z\<rparr>)"
  unfolding editor_inv_def dialog_ok_def by simp

lemma zoom_handlers_inv:
  assumes "editor_inv s"
  shows "editor_inv (zoomIn s)" "editor_inv (zoomOut s)" "editor_inv (resetZoom s)"
    "editor_inv (handleWheel d s)"
proof -
  have z: "MIN_ZOOM \<le> zoomLevel s" "zoomLevel s \<le> MAX_ZOOM" using assms by (simp_all add: editor_inv_def)
  show "editor_inv (zoomIn s)" unfolding zoomIn_def
    by (rule zoom_inv [OF assms]) (use z in \<open>simp_all add: MIN_ZOOM_def MAX_ZOOM_def\<close>)
  show "editor_inv (zoomOut s)" unfolding zoomOut_def
    by (rule zoom_inv [OF assms]) (use z in \<open>simp_all add: MIN_ZOOM_def MAX_ZOOM_def\<close>)
  show "editor_inv (resetZoom s)" unfolding resetZoom_def
    by (rule zoom_inv [OF assms]) (simp_all add: MIN_ZOOM_def MAX_ZOOM_def)
  show "editor_inv (handleWheel d s)" unfolding handleWheel_def Let_def
    by (rule zoom_inv [OF assms]) (simp_all add: MIN_ZOOM_def MAX_ZOOM_def)
qed

lemma undo_redo_fields [simp]:
  fixes s :: editor
  shows "gridWidth (undo s) = gridWidth s" "gridHeight (undo s) = gridHeight s"
    "colorHistory (undo s) = colorHistory s" "isDrawing (undo s) = isDrawing s"
    "lastDrawnPos (undo s) = lastDrawnPos s" "zoomLevel (undo s) = zoomLevel s"
    "brushSize (undo s) = brushSize s" "dialogVisible (undo s) = dialogVisible s"
    "dialogType (undo s) = dialogType s" "dialogCallback (undo s) = dialogCallback s"
    "gridWidth (redo s) = gridWidth s" "gridHeight (redo s) = gridHeight s"
    "colorHistory (redo s) = colorHistory s" "isDrawing (redo s) = isDrawing s"
    "lastDrawnPos (redo s) = lastDrawnPos s" "zoomLevel (redo s) = zoomLevel s"
    "brushSize (redo s) = brushSize s" "dialogVisible (redo s) = dialogVisible s"
    "dialogType (redo s) = dialogType s" "dialogCallback (redo s) = dialogCallback s"
  by (simp_all add: undo_def redo_def)

lemma undo_editor_inv:
  assumes "editor_inv s"
  shows "editor_inv (undo s) \<and> editor_inv (redo s)"
proof -
  have inv: "hist_inv s" and wf: "grid_wf s" and ch: "colorHistory_inv (colorHistory s)"
    using assms by (simp_all add: editor_inv_def editor_core_def)
  note k = undo_redo_keep_inv [OF inv]
  have u: "editor_core (undo s) \<and> (\<not> isDrawing (undo s) \<longrightarrow> hist_synced (undo s))"
  proof (cases "0 < historyIndex s")
    case True
    then show ?thesis using k ch by (simp add: editor_core_def)
  next
    case False
    then have "undo s = s" by (simp add: undo_def)
    then show ?thesis using assms by (simp add: editor_inv_def)
  qed
  have r: "editor_core (redo s) \<and> (\<not> isDrawing (redo s) \<longrightarrow> hist_synced (redo s))"
  proof (cases "historyIndex s < int (length (history s)) - 1")
    case True
    then show ?thesis using k ch by (simp add: editor_core_def)
  next
    case False
    then have "redo s = s" by (simp add: redo_def)
    then show ?thesis using assms by (simp add: editor_inv_def)
  qed
  have "editor_inv (undo s)"
    by (rule editor_inv_frame [OF assms]) (use u assms in \<open>simp_all add: editor_inv_def\<close>)
  moreover have "editor_inv (redo s)"
    by (rule editor_inv_frame [OF assms]) (use r assms in \<open>simp_all add: editor_inv_def\<close>)
  ultimately show ?thesis ..
qed

lemma onKeyDown_inv: "editor_inv s \<Longrightarrow> editor_inv (onKeyDown k s)"
  using undo_editor_inv by (simp add: onKeyDown_def)

subsection \<open>Dialogs\<close>

lemma closeDialog_inv: "editor_inv s \<Longrightarrow> editor_inv (closeDialog s)"
  unfolding closeDialog_def editor_inv_def dialog_ok_def by simp

lemma showDialog_inv:
  assumes "editor_inv s" "cb = ClearCallback \<longrightarrow> ty = DConfirm" "cb = ResizeCallback \<longrightarrow> ty = DPrompt"
    "cb = AlertCallback \<longrightarrow> ty = DAlert"
  shows "editor_inv (showDialog ty title message cb s)"
  using assms unfolding showDialog_def editor_inv_def dialog_ok_def by simp

lemma initializeGrid_core:
  assumes "colorHistory_inv (colorHistory s)"
  shows "editor_core (initializeGrid s) \<and> hist_synced (initializeGrid s)"
proof -
  have "history (initializeGrid s) = [new_grid (gridHeight s) (gridWidth s)] \<and> historyIndex (initializeGrid s) = 0"
    by (simp add: initializeGrid_def saveState_def Let_def MAX_HISTORY_def)
  moreover have "colorHistory (initializeGrid s) = colorHistory s"
    by (simp add: initializeGrid_def)
  ultimately show ?thesis using assms
    by (simp add: editor_core_def grid_wf_def hist_inv_def hist_bounds_def hist_synced_def MAX_HISTORY_def)
qed

lemma initializeGrid_fields_editor [simp]:
  fixes s :: editor
  shows "isDrawing (initializeGrid s) = isDrawing s" "lastDrawnPos (initializeGrid s) = lastDrawnPos s"
    "zoomLevel (initializeGrid s) = zoomLevel s" "brushSize (initializeGrid s) = brushSize s"
    "dialogVisible (initializeGrid s) = dialogVisible s" "dialogType (initializeGrid s) = dialogType s"
    "dialogCallback (initializeGrid s) = dialogCallback s"
  by (simp_all add: initializeGrid_def)

lemma resize_state_inv:
  assumes "editor_inv s" "8 \<le> n" "n \<le> 64"
  shows "editor_inv (initializeGrid (s\<lparr>gridWidth := n, gridHeight := n\<rparr>))"
proof -
  have "colorHistory_inv (colorHistory (s\<lparr>gridWidth := n, gridHeight := n\<rparr>))"
    using assms(1) by (simp add: editor_inv_def editor_core_def)
  from initializeGrid_core [OF this] assms show ?thesis
    unfolding editor_inv_def dialog_ok_def by simp
qed

lemma clear_state_inv:
  assumes "editor_inv s"
  shows "editor_inv (saveState (renderCanvas (s\<lparr>grid := clear_cells (gridHeight s) (gridWidth s) (grid s)\<rparr>)))"
proof -
  have wf: "grid_wf s" using assms by (simp add: editor_inv_def editor_core_def)
  let ?s1 = "renderCanvas (s\<lparr>grid := clear_cells (gridHeight s) (gridWidth s) (grid s)\<rparr>)"
  have core: "editor_core s" using assms by (simp add: editor_inv_def)
  have "editor_core ?s1"
    using core wf unfolding editor_core_def
    by (simp add: grid_wf_def hist_inv_def hist_bounds_def clear_cells_new_grid)
  from saveState_core [OF this] assms show ?thesis
    unfolding editor_inv_def dialog_ok_def by simp
qed

lemma run_callback_inv:
  assumes "editor_inv s"
  shows "editor_inv (closeDialog (run_callback cb v s))"
proof (cases cb)
  case ClearCallback
  then show ?thesis
    using assms clear_state_inv closeDialog_inv by (simp add: run_callback_def clear_callback_def)
next
  case ResizeCallback
  have alert: "editor_inv (closeDialog (showDialog DAlert t m AlertCallback s))" for t m
    using showDialog_inv [OF assms] closeDialog_inv by simp
  show ?thesis
    using ResizeCallback assms alert resize_state_inv closeDialog_inv
    by (auto simp: run_callback_def resize_callback_def not_less split: option.splits)
next
  case AlertCallback
  then show ?thesis using assms closeDialog_inv by (simp add: run_callback_def)
qed

lemma confirmDialog_inv: "editor_inv s \<Longrightarrow> editor_inv (confirmDialog s)"
  using run_callback_inv closeDialog_inv
  by (simp add: confirmDialog_def split: option.splits)

lemma cancelDialog_inv: "editor_inv s \<Longrightarrow> editor_inv (cancelDialog s)"
  using run_callback_inv closeDialog_inv
  by (simp add: cancelDialog_def split: option.splits)

subsection \<open>Every event\<close>

lemma field_update_inv:
  assumes "editor_inv s"
  shows "editor_inv (s\<lparr>currentTool := t\<rparr>)" "editor_inv (s\<lparr>currentColor := c\<rparr>)"
    "editor_inv (s\<lparr>dialogInput := str\<rparr>)"
    "1 \<le> n \<Longrightarrow> n \<le> 5 \<Longrightarrow> editor_inv (s\<lparr>brushSize := n\<rparr>)"
  using assms unfolding editor_inv_def dialog_ok_def by simp_all

lemma onCanvasMouseDown_inv: "editor_inv s \<Longrightarrow> editor_inv (onCanvasMouseDown cv ev s)"
  using startDrawing_inv by (simp add: onCanvasMouseDown_def split: option.splits)

lemma step_inv:
  assumes "editor_inv s" "event_enabled e s" "step e s = Some s'"
  shows "editor_inv s'"
proof -
  note stop = stopDrawing_inv [OF assms(1)]
  have si: "editor_inv (stopDrawing s)" using stop by blast
  note dlg = showDialog_inv [OF si]
  show ?thesis
  proof (cases e)
    case (BrushButton n)
    then show ?thesis using assms(2,3) field_update_inv(4) [OF si, of n] by (auto simp: event_enabled_def step_def)
  next
    case (CanvasMove cv ev)
    then show ?thesis using assms onCanvasMouseMove_inv by (simp add: step_def)
  next
    case ClearButton
    then show ?thesis using assms(3) dlg [of ClearCallback DConfirm] by (auto simp: step_def clearGrid_def)
  next
    case ResizeButton
    then show ?thesis using assms(3) dlg [of ResizeCallback DPrompt] by (auto simp: step_def resizeGrid_def)
  qed (use assms(1,3) si field_update_inv zoom_handlers_inv onCanvasMouseDown_inv onCanvasMouseLeave_inv
        onKeyDown_inv confirmDialog_inv cancelDialog_inv stopDrawing_inv in \<open>auto simp: step_def onCanvasMouseUp_def\<close>)
qed

lemma init_inv: "editor_inv init_editor"
proof -
  have "colorHistory_inv (colorHistory initial_refs)"
    by (simp add: initial_refs_def colorHistory_inv_initial)
  from initializeGrid_core [OF this] show ?thesis
    unfolding init_editor_def editor_inv_def dialog_ok_def
    by (simp add: initial_refs_def MIN_ZOOM_def MAX_ZOOM_def)
qed

lemma reachable_editor_inv: "reachable s \<Longrightarrow> editor_inv s"
  by (induction rule: reachable.induct) (blast intro: init_inv step_inv)+

subsection \<open>Snapshots of a click\<close>

lemma saveState_push:
  assumes "hist_top s" "length (history s) < nat MAX_HISTORY"
  shows "history (saveState s) = history s @ [grid s] \<and> hist_top (saveState s)"
  using saveState_top [OF assms(1)] assms(2) by (simp add: lastn_def)

lemma canvas_up_saves:
  assumes "isDrawing s" "hist_top s" "length (history s) < nat MAX_HISTORY"
  shows "step CanvasUp s = Some ((saveState s)\<lparr>isDrawing := False, lastDrawnPos := None\<rparr>) \<and>
    history (saveState s) = history s @ [grid s] \<and> grid (saveState s) = grid s"
  using assms saveState_push [OF assms(2,3)]
  by (simp add: step_def onCanvasMouseUp_def stopDrawing_def)

lemma canvas_down_cell:
  assumes "0 < gridWidth s" "0 < gridHeight s" "getCanvasCoordinates cv ev s = Some (row, col)"
  shows "step (CanvasDown cv ev) s = Some (startDrawing row col s) \<and>
    in_bounds (gridHeight s) (gridWidth s) row col"
  using assms by (simp add: step_def onCanvasMouseDown_def coords_in_bounds)


lemma canvas_up_top:
  assumes "isDrawing t" "hist_top t" "length (history t) < nat MAX_HISTORY"
  shows "\<exists>s'. step CanvasUp t = Some s' \<and> history s' = history t @ [grid t] \<and> grid s' = grid t \<and>
    hist_top s' \<and> \<not> isDrawing s' \<and> currentTool s' = currentTool t \<and> currentColor s' = currentColor t"
  using canvas_up_saves [OF assms] saveState_push [OF assms(2,3)] by (auto simp: hist_top_def)

text \<open>The whole of a fill click: press, then release over the canvas.\<close>

lemma fill_click_trace:
  assumes "0 < gridWidth s" "0 < gridHeight s" "currentTool s = Fill" "hist_top s"
    and "length (history s) + 2 \<le> nat MAX_HISTORY"
    and "getCanvasCoordinates cv ev s = Some (row, col)"
  defines "G \<equiv> floodFill (gridHeight s) (gridWidth s) (grid s) row col (grid s ! nat row ! nat col) (currentColor s)"
  shows "\<exists>s'. Option.bind (step (CanvasDown cv ev) s) (step CanvasUp) = Some s' \<and>
    grid s' = G \<and> history s' = history s @ [G, G] \<and> hist_top s' \<and> \<not> isDrawing s'"
proof -
  let ?s1 = "s\<lparr>isDrawing := True, hoveredCell := None, lastDrawnPos := Some (row, col)\<rparr>"
  let ?s2 = "renderCanvas (?s1\<lparr>grid := G, colorHistory := addToColorHistory (currentColor s) (colorHistory s)\<rparr>)"
  obtain down: "step (CanvasDown cv ev) s = Some (startDrawing row col s)"
    and ib: "in_bounds (gridHeight s) (gridWidth s) row col"
    using canvas_down_cell [OF assms(1,2,6)] by blast
  have st: "startDrawing row col s = saveState ?s2"
    using drawPixel_fill_eq [of ?s1 row col] ib assms(3) by (simp add: startDrawing_def G_def)
  have top2: "hist_top ?s2" "length (history ?s2) < nat MAX_HISTORY"
    using assms(4,5) by (simp_all add: hist_top_def)
  obtain h3: "history (saveState ?s2) = history s @ [G]" and top3: "hist_top (saveState ?s2)"
    using saveState_push [OF top2] by simp
  have d3: "isDrawing (saveState ?s2)" "length (history (saveState ?s2)) < nat MAX_HISTORY"
    using h3 assms(5) by simp_all
  from canvas_up_top [OF d3(1) top3 d3(2)] h3 show ?thesis
    by (auto simp: down st)
qed

text \<open>The whole of a pencil or eraser click.\<close>

lemma brush_click_trace:
  assumes "0 < gridWidth s" "0 < gridHeight s" "currentTool s \<in> {Pencil, Eraser}" "hist_top s"
    and "length (history s) < nat MAX_HISTORY"
    and "getCanvasCoordinates cv ev s = Some (row, col)"
  shows "\<exists>s'. Option.bind (step (CanvasDown cv ev) s) (step CanvasUp) = Some s' \<and>
    grid s' = grid (startDrawing row col s) \<and> history s' = history s @ [grid s'] \<and>
    hist_top s' \<and> \<not> isDrawing s'"
proof -
  let ?s1 = "s\<lparr>isDrawing := True, hoveredCell := None, lastDrawnPos := Some (row, col)\<rparr>"
  let ?t = "startDrawing row col s"
  obtain down: "step (CanvasDown cv ev) s = Some ?t"
    and ib: "in_bounds (gridHeight s) (gridWidth s) row col"
    using canvas_down_cell [OF assms(1,2,6)] by blast
  have eq: "?t = stamp (if currentTool s = Pencil then currentColor s else WHITE) (brushSize s) row col
        (if currentTool s = Pencil then ?s1\<lparr>colorHistory := addToColorHistory (currentColor s) (colorHistory s)\<rparr>
         else ?s1)"
    using drawPixel_brush_eq [of ?s1 row col] ib assms(3) by (simp add: startDrawing_def)
  have h: "history ?t = history s" "historyIndex ?t = historyIndex s" "isDrawing ?t"
    unfolding eq by simp_all
  then have top: "hist_top ?t" "length (history ?t) < nat MAX_HISTORY"
    using assms(4,5) by (simp_all add: hist_top_def)
  from canvas_up_top [OF h(3) top] h(1) show ?thesis by (auto simp: down)
qed

lemma undo_at:
  "0 < historyIndex t \<Longrightarrow> grid (undo t) = history t ! nat (historyIndex t - 1) \<and>
     historyIndex (undo t) = historyIndex t - 1 \<and> history (undo t) = history t"
  by (simp add: undo_def)

lemma hist_top_last:
  "hist_top s \<Longrightarrow> hist_synced s \<Longrightarrow> history s \<noteq> [] \<Longrightarrow> grid s = last (history s)"
  by (cases "history s" rule: rev_cases) (auto simp: hist_top_def hist_synced_def nth_append)

subsection \<open>Strokes after a colour pick\<close>

lemma getCanvasCoordinates_dims:
  "gridWidth t = gridWidth s \<Longrightarrow> gridHeight t = gridHeight s \<Longrightarrow>
   getCanvasCoordinates cv ev t = getCanvasCoordinates cv ev s"
  by (cases cv) (simp_all add: getCanvasCoordinates_def)

lemma drawPixel_keeps_pen:
  "currentTool s \<noteq> Eyedropper \<Longrightarrow>
   currentTool (drawPixel r c s) = currentTool s \<and> currentColor (drawPixel r c s) = currentColor s"
  by (simp add: drawPixel_def Let_def split: tool.splits)

lemma plot_cells_append:
  "plot_cells plot (xs @ ys) s = plot_cells plot ys (plot_cells plot xs s)"
  by (simp add: plot_cells_def)

lemma plot_cells_keeps_pen:
  "currentTool s \<noteq> Eyedropper \<Longrightarrow>
   currentTool (plot_cells (\<lambda>s r c. drawPixel r c s) cs s) = currentTool s \<and>
   currentColor (plot_cells (\<lambda>s r c. drawPixel r c s) cs s) = currentColor s"
proof (induction cs arbitrary: s)
  case (Cons p cs)
  obtain r c where p: "p = (r, c)" by fastforce
  from Cons.IH [of "drawPixel r c s"] drawPixel_keeps_pen [OF Cons.prems, of r c] Cons.prems
  show ?case by (simp add: p)
qed simp

text \<open>A pencil or eraser stamp keeps every cell that already has the pen's
  colour and gives it to the stamped cell.\<close>

lemma drawPixel_pen_paints:
  assumes "grid_wf s" "currentTool s \<in> {Pencil, Eraser}" "0 < brushSize s"
    and "in_bounds (gridHeight s) (gridWidth s) r c"
    and "(r, c) = (r0, c0) \<or> grid_get (grid s) r c = Some (if currentTool s = Pencil then currentColor s else WHITE)"
  shows "grid_get (grid (drawPixel r0 c0 s)) r c = Some (if currentTool s = Pencil then currentColor s else WHITE)"
proof (cases "in_bounds (gridHeight s) (gridWidth s) r0 c0")
  case False
  then show ?thesis using assms(4,5) by (auto simp: drawPixel_outside)
next
  case ib: True
  let ?s1 = "if currentTool s = Pencil
             then s\<lparr>colorHistory := addToColorHistory (currentColor s) (colorHistory s)\<rparr> else s"
  have "grid_wf ?s1" "in_bounds (gridHeight ?s1) (gridWidth ?s1) r0 c0"
    using assms(1) ib by (simp_all add: grid_wf_def)
  moreover have "0 \<le> brushSize s div 2" "brushSize s div 2 < brushSize s" using assms(3) by presburger+
  ultimately show ?thesis
    using stamp_effect [of ?s1 r0 c0 "if currentTool s = Pencil then currentColor s else WHITE" "brushSize s"]
      assms(4,5)
    by (auto simp: drawPixel_brush_eq [OF ib assms(2)] split: if_splits)
qed

text \<open>A stroke of pencil or eraser stamps leaves every cell it visits, and
  every cell that already had it, in the pen's colour.\<close>

lemma plot_cells_pen_paints:
  assumes "editor_core s" "currentTool s \<in> {Pencil, Eraser}" "0 < brushSize s"
    and "in_bounds (gridHeight s) (gridWidth s) r c"
    and "(r, c) \<in> set cs \<or> grid_get (grid s) r c = Some (if currentTool s = Pencil then currentColor s else WHITE)"
  shows "grid_get (grid (plot_cells (\<lambda>s r c. drawPixel r c s) cs s)) r c =
    Some (if currentTool s = Pencil then currentColor s else WHITE)"
  using assms
proof (induction cs arbitrary: s)
  case Nil
  then show ?case by simp
next
  case (Cons p cs)
  obtain r0 c0 where p: "p = (r0, c0)" by fastforce
  let ?t = "drawPixel r0 c0 s"
  have wf: "grid_wf s" using Cons.prems(1) by (simp add: editor_core_def)
  have pen: "currentTool ?t = currentTool s" "currentColor ?t = currentColor s"
    using drawPixel_keeps_pen [of s r0 c0] Cons.prems(2) by auto
  have d: "(r, c) \<in> set cs \<or>
      grid_get (grid ?t) r c = Some (if currentTool s = Pencil then currentColor s else WHITE)"
  proof (cases "(r, c) \<in> set cs")
    case False
    then have "(r, c) = (r0, c0) \<or>
        grid_get (grid s) r c = Some (if currentTool s = Pencil then currentColor s else WHITE)"
      using Cons.prems(5) p by auto
    then show ?thesis using drawPixel_pen_paints [OF wf Cons.prems(2,3,4)] by blast
  qed simp
  have core: "editor_core ?t" by (rule drawPixel_core [OF Cons.prems(1)])
  have t: "currentTool ?t \<in> {Pencil, Eraser}" "0 < brushSize ?t"
    "in_bounds (gridHeight ?t) (gridWidth ?t) r c"
    using pen Cons.prems(2-4) by simp_all
  have t4: "(r, c) \<in> set cs \<or>
      grid_get (grid ?t) r c = Some (if currentTool ?t = Pencil then currentColor ?t else WHITE)"
    unfolding pen by (rule d)
  from Cons.IH [OF core t t4] pen show ?case by (simp add: p)
qed

text \<open>A pencil line ends with the end cell painted in the pen's colour.\<close>

lemma pencil_line_end:
  assumes "editor_core s" "currentTool s = Pencil" "0 < brushSize s"
    and "drawLine r0 c0 r1 c1 s = Some s'" "in_bounds (gridHeight s) (gridWidth s) r1 c1"
  shows "grid_get (grid s') r1 c1 = Some (currentColor s)"
proof -
  obtain cs where run: "\<forall>(plot :: editor \<Rightarrow> int \<Rightarrow> int \<Rightarrow> editor) s. bresenham plot s r0 c0 r1 c1 = Some (plot_cells plot cs s)"
    and l: "last cs = (r1, c1)" and n: "length cs = nat (max \<bar>c1 - c0\<bar> \<bar>r1 - r0\<bar>) + 1"
    using bresenham_run [where 's = editor, of r0 c0 r1 c1] by blast
  have "(r1, c1) \<in> set cs" using l n by (metis last_in_set list.size(3) add_is_0 one_neq_zero)
  with plot_cells_pen_paints [OF assms(1) _ assms(3,5), of cs] assms(2,4) run show ?thesis
    by (simp add: drawLine_def)
qed

end
