(* ===== verification/Readme.thy ===== *)
theory Readme
  imports Session
begin

text \<open>
  The README (src/unnamed/part_000) states what the editor promises: brush
  sizes 1x1 to 5x5 (line 14), a fixed 640 by 640 canvas (line 20), square
  grids from 8x8 to 64x64 (line 21), zoom from 25\% to 400\% (line 22), the
  last 20 colours (line 28), 50 undo states (line 38), and three keyboard
  chords (lines 41--44).  This theory writes those promises down as
  \<open>readme_limits\<close> and \<open>readme_shortcut\<close>, and the keys the browser reports
  for a chord as \<open>browser_key\<close> (UI Events: a letter key's \<open>key\<close> is upper
  case exactly when one of Shift and Caps Lock is on).  The claims that the
  code meets them are here and in the root theory.
\<close>

definition readme_limits :: "editor \<Rightarrow> bool" where
  "readme_limits s \<longleftrightarrow>
     1 \<le> brushSize s \<and> brushSize s \<le> 5 \<and>
     CANVAS_SIZE = 640 \<and>
     gridWidth s = gridHeight s \<and> 8 \<le> gridWidth s \<and> gridWidth s \<le> 64 \<and>
     1 / 4 \<le> zoomLevel s \<and> zoomLevel s \<le> 4 \<and>
     length (colorHistory s) \<le> 20 \<and>
     length (history s) \<le> 50"

text \<open>A chord as the README writes it: modifiers and a lower-case letter key;
  Caps Lock is the state of the keyboard the chord is typed on.\<close>

record chord =
  ch_ctrl :: bool
  ch_meta :: bool
  ch_shift :: bool
  ch_caps :: bool
  ch_letter :: char

datatype shortcut = ShortcutUndo | ShortcutRedo

definition readme_shortcut :: "chord \<Rightarrow> shortcut option" where
  "readme_shortcut ch =
     (if ch_ctrl ch \<or> ch_meta ch then
        if ch_letter ch = CHR ''z'' \<and> \<not> ch_shift ch then Some ShortcutUndo
        else if ch_letter ch = CHR ''y'' \<and> \<not> ch_shift ch then Some ShortcutRedo
        else if ch_letter ch = CHR ''z'' \<and> ch_shift ch then Some ShortcutRedo
        else None
      else None)"

definition run_shortcut :: "shortcut option \<Rightarrow> editor \<Rightarrow> editor" where
  "run_shortcut a s = (case a of Some ShortcutUndo \<Rightarrow> undo s | Some ShortcutRedo \<Rightarrow> redo s | None \<Rightarrow> s)"

definition lower_letters :: string where
  "lower_letters = ''abcdefghijklmnopqrstuvwxyz''"

definition upper_letters :: string where
  "upper_letters = ''ABCDEFGHIJKLMNOPQRSTUVWXYZ''"

definition upper_char :: "char \<Rightarrow> char" where
  "upper_char c = (case map_of (zip lower_letters upper_letters) c of Some u \<Rightarrow> u | None \<Rightarrow> c)"

definition browser_key :: "chord \<Rightarrow> key_event" where
  "browser_key ch =
     \<lparr>key = [if ch_shift ch \<noteq> ch_caps ch then upper_char (ch_letter ch) else ch_letter ch],
      ctrlKey = ch_ctrl ch, metaKey = ch_meta ch, shiftKey = ch_shift ch\<rparr>"

subsection \<open>The session keeps the README's limits\<close>

lemma editor_inv_readme_limits: "editor_inv s \<Longrightarrow> readme_limits s"
  by (auto simp: editor_inv_def readme_limits_def editor_core_def hist_inv_def hist_bounds_def
      colorHistory_inv_def COLOR_HISTORY_SIZE_def MAX_HISTORY_def MIN_ZOOM_def MAX_ZOOM_def
      CANVAS_SIZE_def)

subsection \<open>Keyboard shortcuts\<close>

lemma upper_char_cases:
  assumes "c \<in> set lower_letters"
  shows "upper_char c \<noteq> CHR ''z'' \<and> upper_char c \<noteq> CHR ''y''"
  using assms by (auto simp: upper_char_def lower_letters_def upper_letters_def)

text \<open>C17.  Typed without Caps Lock, every chord with a lower-case letter key
  that is not Shift+Z does what the README's shortcut table says: Ctrl+Z and
  Cmd+Z undo, Ctrl+Y and Cmd+Y redo, every other chord changes nothing.\<close>

theorem onKeyDown_refines_readme:
  assumes "ch_letter ch \<in> set lower_letters" "\<not> ch_caps ch"
    and "\<not> (ch_shift ch \<and> ch_letter ch = CHR ''z'')"
  shows "onKeyDown (browser_key ch) s = run_shortcut (readme_shortcut ch) s"
  using assms upper_char_cases [OF assms(1)]
  by (auto simp: onKeyDown_def browser_key_def readme_shortcut_def run_shortcut_def)

text \<open>C18.  A letter chord typed with exactly one of Shift and Caps Lock is
  reported by the browser with an upper-case key, and the keydown listener
  compares the key with the lower-case \<open>'z'\<close> and \<open>'y'\<close> only: every such chord,
  with any modifiers and in any state, changes nothing.  Among them are
  chords the README's table maps to undo or redo: Ctrl+Shift+Z and Cmd+Shift+Z,
  and with Caps Lock on Ctrl+Z, Cmd+Z, Ctrl+Y and Cmd+Y.\<close>

theorem shifted_chords_ignored:
  assumes "ch_letter ch \<in> set lower_letters" "ch_shift ch \<noteq> ch_caps ch"
  shows "onKeyDown (browser_key ch) s = s \<and>
    ((ch_ctrl ch \<or> ch_meta ch) \<and> (ch_letter ch = CHR ''z'' \<or> ch_letter ch = CHR ''y'' \<and> \<not> ch_shift ch) \<longrightarrow>
       readme_shortcut ch \<noteq> None)"
  using assms upper_char_cases [OF assms(1)]
  by (auto simp: onKeyDown_def browser_key_def readme_shortcut_def)

subsection \<open>Witnesses\<close>

theorem onKeyDown_refines_readme_witness:
  "onKeyDown (browser_key \<lparr>ch_ctrl = False, ch_meta = True, ch_shift = False, ch_caps = False, ch_letter = CHR ''y''\<rparr>) demo_editor =
   redo demo_editor"
  using onKeyDown_refines_readme [of "\<lparr>ch_ctrl = False, ch_meta = True, ch_shift = False, ch_caps = False, ch_letter = CHR ''y''\<rparr>" demo_editor]
  by (simp add: lower_letters_def readme_shortcut_def run_shortcut_def)

theorem shifted_chords_ignored_witness:
  "onKeyDown (browser_key \<lparr>ch_ctrl = True, ch_meta = False, ch_shift = True, ch_caps = False, ch_letter = CHR ''z''\<rparr>) demo_editor =
     demo_editor \<and>
   readme_shortcut \<lparr>ch_ctrl = True, ch_meta = False, ch_shift = True, ch_caps = False, ch_letter = CHR ''z''\<rparr> = Some ShortcutRedo \<and>
   onKeyDown (browser_key \<lparr>ch_ctrl = True, ch_meta = False, ch_shift = False, ch_caps = True, ch_letter = CHR ''y''\<rparr>) demo_editor =
     demo_editor \<and>
   readme_shortcut \<lparr>ch_ctrl = True, ch_meta = False, ch_shift = False, ch_caps = True, ch_letter = CHR ''y''\<rparr> = Some ShortcutRedo"
  using shifted_chords_ignored [of "\<lparr>ch_ctrl = True, ch_meta = False, ch_shift = True, ch_caps = False, ch_letter = CHR ''z''\<rparr>" demo_editor]
    shifted_chords_ignored [of "\<lparr>ch_ctrl = True, ch_meta = False, ch_shift = False, ch_caps = True, ch_letter = CHR ''y''\<rparr>" demo_editor]
  by (simp add: lower_letters_def readme_shortcut_def)

end
