(* ===== verification/Colours.thy ===== *)
theory Colours
  imports Session
begin

text \<open>
  Colours are plain strings in src/src/App.vue: every cell, every snapshot,
  \<open>currentColor\<close> and \<open>colorHistory\<close> hold whatever string was stored there,
  and \<open>fillStyle\<close>, the eyedropper and the hover preview's \<open>parseInt\<close> of the
  channels consume them.  This theory shows that the strings of a running
  session are always hexadecimal colours \<open>#RRGGBB\<close>: every handler stores only
  colours it finds in the state, white, or the value of the colour input.
  \<open>state_colours\<close> collects the colour strings of a state.
\<close>

definition hex_colour :: "color \<Rightarrow> bool" where
  "hex_colour c \<longleftrightarrow>
     length c = 7 \<and> hd c = CHR ''#'' \<and> list_all (\<lambda>x. x \<in> set ''0123456789abcdefABCDEF'') (tl c)"

text \<open>The value of a hexadecimal digit, as \<open>parseInt\<close> reads it.\<close>

definition hex_digit_val :: "char \<Rightarrow> nat" where
  "hex_digit_val ch = (case digit_val ch of Some d \<Rightarrow> d | None \<Rightarrow> 0)"

definition grid_colours :: "grid \<Rightarrow> color set" where
  "grid_colours g = (\<Union>row \<in> set g. set row)"

definition state_colours :: "editor \<Rightarrow> color set" where
  "state_colours s =
     insert (currentColor s)
       (set (colorHistory s) \<union> grid_colours (grid s) \<union> (\<Union>g \<in> set (history s). grid_colours g))"

definition event_colours :: "ui_event \<Rightarrow> color set" where
  "event_colours e = (case e of ColorInput c \<Rightarrow> {c} | _ \<Rightarrow> {})"

subsection \<open>Grids\<close>

lemma grid_colours_set_cell: "grid_colours (set_cell g r c v) \<subseteq> insert v (grid_colours g)"
proof
  fix x assume "x \<in> grid_colours (set_cell g r c v)"
  then obtain row where row: "row \<in> set (set_cell g r c v)" "x \<in> set row"
    by (auto simp: grid_colours_def)
  show "x \<in> insert v (grid_colours g)"
  proof (cases "0 \<le> r \<and> nat r < length g \<and> 0 \<le> c \<and> nat c < length (g ! nat r)")
    case True
    then have "row \<in> set g \<or> row = (g ! nat r)[nat c := v]"
      using row(1) set_update_subset_insert [of g "nat r"] by (auto simp: set_cell_def)
    moreover have "g ! nat r \<in> set g" using True by simp
    ultimately show ?thesis
      using row(2) set_update_subset_insert [of "g ! nat r" "nat c" v] by (auto simp: grid_colours_def)
  next
    case False
    then show ?thesis using row by (auto simp: set_cell_def grid_colours_def)
  qed
qed

lemma grid_colours_fold_set_cell:
  "grid_colours (fold (\<lambda>(r, c) g. set_cell g r c v) ps g) \<subseteq> insert v (grid_colours g)"
proof (induction ps arbitrary: g)
  case (Cons p ps)
  obtain r c where "p = (r, c)" by fastforce
  with Cons.IH [of "set_cell g r c v"] grid_colours_set_cell [of g r c v] show ?case by auto
qed auto

lemma grid_colours_new_grid: "grid_colours (new_grid h w) \<subseteq> {WHITE}"
  by (auto simp: grid_colours_def new_grid_def)

lemma grid_colours_floodFill:
  "grid_colours (floodFill h w g row col tc rc) \<subseteq> insert rc (grid_colours g)"
proof (induction h w g row col tc rc rule: floodFill.induct)
  case (1 h w g row col tc rc)
  show ?case
  proof (cases "tc = rc \<or> row < 0 \<or> row \<ge> h \<or> col < 0 \<or> col \<ge> w \<or> grid_get g row col \<noteq> Some tc")
    case True
    then show ?thesis by (subst floodFill.simps) auto
  next
    case False
    define g1 where "g1 = set_cell g row col rc"
    define g2 where "g2 = floodFill h w g1 (row - 1) col tc rc"
    define g3 where "g3 = floodFill h w g2 (row + 1) col tc rc"
    define g4 where "g4 = floodFill h w g3 row (col - 1) tc rc"
    have e: "floodFill h w g row col tc rc = floodFill h w g4 row (col + 1) tc rc"
      using False by (subst floodFill.simps) (simp add: Let_def g1_def g2_def g3_def g4_def)
    have "grid_colours g1 \<subseteq> insert rc (grid_colours g)"
      using grid_colours_set_cell by (simp add: g1_def)
    moreover have "grid_colours g2 \<subseteq> insert rc (grid_colours g1)"
      using "1.IH"(1) False by (simp add: g1_def g2_def)
    moreover have "grid_colours g3 \<subseteq> insert rc (grid_colours g2)"
      using "1.IH"(2) False by (simp add: g1_def g2_def g3_def)
    moreover have "grid_colours g4 \<subseteq> insert rc (grid_colours g3)"
      using "1.IH"(3) False by (simp add: g1_def g2_def g3_def g4_def)
    moreover have "grid_colours (floodFill h w g4 row (col + 1) tc rc) \<subseteq> insert rc (grid_colours g4)"
      using "1.IH"(4) False by (simp add: g1_def g2_def g3_def g4_def)
    ultimately show ?thesis unfolding e by blast
  qed
qed

lemma grid_colours_cell:
  "grid_wf s \<Longrightarrow> in_bounds (gridHeight s) (gridWidth s) r c \<Longrightarrow> grid s ! nat r ! nat c \<in> grid_colours (grid s)"
  by (auto simp: grid_wf_def wf_grid_def in_bounds_def grid_colours_def list_all_length
      intro!: bexI [of _ "grid s ! nat r"])

subsection \<open>State updates\<close>

lemma state_colours_cong:
  "currentColor t = currentColor s \<Longrightarrow> colorHistory t = colorHistory s \<Longrightarrow> grid t = grid s \<Longrightarrow>
   history t = history s \<Longrightarrow> state_colours t = state_colours s"
  by (simp add: state_colours_def)

lemma state_colours_more:
  fixes s t :: editor
  shows "canvas_state.more t = canvas_state.more s \<Longrightarrow> grid t = grid s \<Longrightarrow> state_colours t = state_colours s"
  using editor_more_eq [of t s] by (simp add: state_colours_def)

lemma state_colours_update [simp]:
  "state_colours (s\<lparr>isDrawing := b\<rparr>) = state_colours s"
  "state_colours (s\<lparr>lastDrawnPos := p\<rparr>) = state_colours s"
  "state_colours (s\<lparr>hoveredCell := q\<rparr>) = state_colours s"
  "state_colours (s\<lparr>zoomLevel := z\<rparr>) = state_colours s"
  "state_colours (s\<lparr>brushSize := n\<rparr>) = state_colours s"
  "state_colours (s\<lparr>currentTool := t\<rparr>) = state_colours s"
  "state_colours (s\<lparr>display := d\<rparr>) = state_colours s"
  "state_colours (s\<lparr>dialogInput := str\<rparr>) = state_colours s"
  "state_colours (showDialog ty ttl msg cb s) = state_colours s"
  "state_colours (closeDialog s) = state_colours s"
  "state_colours (renderCanvas s) = state_colours s"
  by (simp_all add: state_colours_def showDialog_def closeDialog_def)

lemma state_colours_renderHoverPreview [simp]:
  "state_colours (renderHoverPreview s) = state_colours s"
  by (rule state_colours_more) simp_all


subsection \<open>Each operation\<close>

lemma addToColorHistory_colours: "set (addToColorHistory c ch) \<subseteq> insert c (set ch)"
  by (auto simp: addToColorHistory_def dest: in_set_takeD)

lemma saveState_colours: "state_colours (saveState s) \<subseteq> state_colours s"
proof -
  let ?h = "js_slice (history s) (historyIndex s + 1) @ [grid s]"
  have "set (js_slice (history s) (historyIndex s + 1)) \<subseteq> set (history s)"
    by (auto simp: js_slice_def dest: in_set_takeD)
  then have h: "set ?h \<subseteq> insert (grid s) (set (history s))" by auto
  have tl: "set (tl ?h) \<subseteq> set ?h" by (cases ?h) auto
  have "set (history (saveState s)) \<subseteq> set ?h"
    using tl by (cases "int (length ?h) > MAX_HISTORY") (simp_all add: saveState_def Let_def)
  with h show ?thesis by (auto simp: state_colours_def)
qed

lemma fold_paint_colours:
  "grid_colours (grid (fold (\<lambda>p s. paint_cell color s p) ps s)) \<subseteq> insert color (grid_colours (grid s))"
proof (induction ps arbitrary: s)
  case (Cons p ps)
  have "grid_colours (grid (paint_cell color s p)) \<subseteq> insert color (grid_colours (grid s))"
    using grid_colours_set_cell by (auto simp: paint_cell_def split: prod.splits)
  with Cons.IH [of "paint_cell color s p"] show ?case by auto
qed auto

lemma stamp_colours:
  "color \<in> insert WHITE (state_colours s) \<Longrightarrow>
   state_colours (stamp color bs row col s) \<subseteq> insert WHITE (state_colours s)"
  using fold_paint_colours [of color "brush_cells bs row col" s]
  by (auto simp: state_colours_def stamp_def [symmetric])

lemma drawPixel_colours:
  assumes "grid_wf s"
  shows "state_colours (drawPixel row col s) \<subseteq> insert WHITE (state_colours s)"
proof (cases "in_bounds (gridHeight s) (gridWidth s) row col")
  case False
  then show ?thesis by (auto simp: drawPixel_outside)
next
  case ib: True
  show ?thesis
  proof (cases "currentTool s")
    case Pencil
    let ?s1 = "s\<lparr>colorHistory := addToColorHistory (currentColor s) (colorHistory s)\<rparr>"
    have "state_colours ?s1 \<subseteq> state_colours s"
      using addToColorHistory_colours [of "currentColor s" "colorHistory s"] by (auto simp: state_colours_def)
    moreover have "currentColor s \<in> insert WHITE (state_colours ?s1)" by (simp add: state_colours_def)
    ultimately show ?thesis
      using stamp_colours [of "currentColor s" ?s1 "brushSize s" row col] Pencil
      by (auto simp: drawPixel_brush_eq [OF ib])
  next
    case Eraser
    then show ?thesis using stamp_colours [of WHITE s "brushSize s" row col]
      by (simp add: drawPixel_brush_eq [OF ib])
  next
    case Fill
    let ?g = "floodFill (gridHeight s) (gridWidth s) (grid s) row col (grid s ! nat row ! nat col) (currentColor s)"
    have "state_colours (s\<lparr>grid := ?g, colorHistory := addToColorHistory (currentColor s) (colorHistory s)\<rparr>)
        \<subseteq> state_colours s"
      using grid_colours_floodFill [of "gridHeight s" "gridWidth s" "grid s" row col
          "grid s ! nat row ! nat col" "currentColor s"]
        addToColorHistory_colours [of "currentColor s" "colorHistory s"]
      by (auto simp: state_colours_def)
    then show ?thesis
      using saveState_colours Fill by (fastforce simp: drawPixel_fill_eq [OF ib])
  next
    case Eyedropper
    then show ?thesis using grid_colours_cell [OF assms ib]
      by (auto simp: drawPixel_eyedropper_eq [OF ib] state_colours_def)
  qed
qed


lemma plot_cells_colours:
  "editor_core s \<Longrightarrow>
   state_colours (plot_cells (\<lambda>s r c. drawPixel r c s) cs s) \<subseteq> insert WHITE (state_colours s)"
proof (induction cs arbitrary: s)
  case (Cons p cs)
  obtain r c where p: "p = (r, c)" by fastforce
  have "grid_wf s" using Cons.prems by (simp add: editor_core_def)
  with Cons.IH [OF drawPixel_core [OF Cons.prems, of r c]] drawPixel_colours [of s r c]
  show ?case by (auto simp: p)
qed auto

lemma drawLine_colours:
  "editor_core s \<Longrightarrow> drawLine r0 c0 r1 c1 s = Some s' \<Longrightarrow> state_colours s' \<subseteq> insert WHITE (state_colours s)"
  using drawLine_cells [of r0 c0 r1 c1 s] plot_cells_colours by fastforce

lemma startDrawing_colours:
  "grid_wf s \<Longrightarrow> state_colours (startDrawing row col s) \<subseteq> insert WHITE (state_colours s)"
  using drawPixel_colours [of "s\<lparr>isDrawing := True, hoveredCell := None, lastDrawnPos := Some (row, col)\<rparr>" row col]
  by (simp add: startDrawing_def grid_wf_def)

lemma stopDrawing_colours: "state_colours (stopDrawing s) \<subseteq> state_colours s"
  using saveState_colours by (simp add: stopDrawing_def Let_def)

lemma onCanvasMouseMove_colours:
  assumes "editor_core s" "onCanvasMouseMove cv ev s = Some s'"
  shows "state_colours s' \<subseteq> insert WHITE (state_colours s)"
  using assms(2)
proof (cases rule: onCanvasMouseMove_shape)
  case (stroke s1 s2 row col)
  have c1: "editor_core s1" and e1: "state_colours s1 = state_colours s"
    using stroke(1) assms(1) by auto
  have "grid_wf s1" using c1 by (simp add: editor_core_def)
  then have "state_colours s2 \<subseteq> insert WHITE (state_colours s1)"
    using stroke(4) drawPixel_colours drawLine_colours [OF c1] by blast
  then show ?thesis using stroke(3) e1 by simp
qed auto

lemma undo_redo_colours:
  assumes "hist_inv s"
  shows "state_colours (undo s) \<subseteq> state_colours s" "state_colours (redo s) \<subseteq> state_colours s"
proof -
  have b: "0 \<le> historyIndex s" "historyIndex s < int (length (history s))"
    using assms by (simp_all add: hist_inv_def hist_bounds_def)
  have u: "historyIndex s > 0 \<Longrightarrow> history s ! nat (historyIndex s - 1) \<in> set (history s)"
    using b by (intro nth_mem) linarith
  have r: "historyIndex s < int (length (history s)) - 1 \<Longrightarrow> history s ! nat (historyIndex s + 1) \<in> set (history s)"
    using b by (intro nth_mem) linarith
  show "state_colours (undo s) \<subseteq> state_colours s"
    using u by (auto simp: undo_def state_colours_def)
  show "state_colours (redo s) \<subseteq> state_colours s"
    using r by (auto simp: redo_def state_colours_def)
qed

lemma onKeyDown_colours: "hist_inv s \<Longrightarrow> state_colours (onKeyDown k s) \<subseteq> state_colours s"
  using undo_redo_colours by (simp add: onKeyDown_def)

lemma initializeGrid_colours:
  "state_colours (initializeGrid s) \<subseteq> insert WHITE (insert (currentColor s) (set (colorHistory s)))"
  using grid_colours_new_grid [of "gridHeight s" "gridWidth s"]
  by (auto simp: initializeGrid_def saveState_def Let_def state_colours_def MAX_HISTORY_def)

lemma run_callback_colours:
  "state_colours (run_callback cb v s) \<subseteq> insert WHITE (state_colours s)"
proof (cases cb)
  case ClearCallback
  let ?x = "s\<lparr>grid := clear_cells (gridHeight s) (gridWidth s) (grid s)\<rparr>"
  have "state_colours ?x \<subseteq> insert WHITE (state_colours s)"
    using grid_colours_fold_set_cell [of WHITE _ "grid s"] by (auto simp: state_colours_def clear_cells_def)
  moreover have "state_colours (saveState (renderCanvas ?x)) \<subseteq> state_colours ?x"
    using saveState_colours [of "renderCanvas ?x"] by simp
  ultimately show ?thesis
    using ClearCallback by (auto simp: run_callback_def clear_callback_def)
next
  case ResizeCallback
  have "state_colours (initializeGrid (s\<lparr>gridWidth := n, gridHeight := n\<rparr>)) \<subseteq> insert WHITE (state_colours s)" for n
    using initializeGrid_colours [of "s\<lparr>gridWidth := n, gridHeight := n\<rparr>"] by (auto simp: state_colours_def)
  then show ?thesis
    using ResizeCallback by (auto simp: run_callback_def resize_callback_def split: option.splits)
qed (auto simp: run_callback_def)

lemma confirm_cancel_colours:
  "state_colours (confirmDialog s) \<subseteq> insert WHITE (state_colours s)"
  "state_colours (cancelDialog s) \<subseteq> insert WHITE (state_colours s)"
  using run_callback_colours by (auto simp: confirmDialog_def cancelDialog_def split: option.splits)


lemma state_colours_set_colour: "state_colours (s\<lparr>currentColor := c\<rparr>) \<subseteq> insert c (state_colours s)"
  by (auto simp: state_colours_def)

subsection \<open>Every event\<close>

lemma step_colours:
  assumes "editor_inv s" "event_enabled e s" "step e s = Some s'"
  shows "state_colours s' \<subseteq> insert WHITE (state_colours s \<union> event_colours e)"
proof -
  have core: "editor_core s" and hi: "hist_inv s" and wf: "grid_wf s"
    using assms(1) by (simp_all add: editor_inv_def editor_core_def)
  note stop = stopDrawing_colours [of s]
  show ?thesis
  proof (cases e)
    case (ColorInput c)
    then show ?thesis
      using assms(3) state_colours_set_colour [where s = s and c = c] by (auto simp: step_def event_colours_def)
  next
    case (PaletteClick c)
    then have "c \<in> state_colours s" using assms(2) by (simp add: event_enabled_def state_colours_def)
    then show ?thesis
      using PaletteClick assms(3) stop state_colours_set_colour [where s = "stopDrawing s" and c = c] by (auto simp: step_def)
  next
    case (CanvasDown cv ev)
    then show ?thesis
      using assms(3) startDrawing_colours [OF wf] by (auto simp: step_def onCanvasMouseDown_def split: option.splits)
  next
    case (CanvasMove cv ev)
    then show ?thesis using assms(3) onCanvasMouseMove_colours [OF core] by (auto simp: step_def)
  next
    case (KeyDown k)
    then show ?thesis using assms(3) onKeyDown_colours [OF hi] by (auto simp: step_def)
  next
    case CanvasUp
    then show ?thesis
      using assms(3) stop stopDrawing_colours [of "stopDrawing s"] by (auto simp: step_def onCanvasMouseUp_def)
  next
    case CanvasLeave
    then show ?thesis using assms(3) by (auto simp: step_def onCanvasMouseLeave_def split: if_splits)
  next
    case DialogEnter
    then show ?thesis using assms(3) confirm_cancel_colours(1) [of s] by (auto simp: step_def)
  next
    case DialogConfirmButton
    then show ?thesis using assms(3) confirm_cancel_colours(1) [of "stopDrawing s"] stop by (auto simp: step_def)
  next
    case DialogCancelButton
    then show ?thesis using assms(3) confirm_cancel_colours(2) [of "stopDrawing s"] stop by (auto simp: step_def)
  next
    case OverlayClick
    then show ?thesis using assms(3) confirm_cancel_colours(2) [of "stopDrawing s"] stop by (auto simp: step_def)
  qed (use assms(3) stop in \<open>auto simp: step_def clearGrid_def resizeGrid_def zoomIn_def zoomOut_def
      resetZoom_def handleWheel_def Let_def onCanvasMouseUp_def onCanvasMouseLeave_def\<close>)
qed

lemma hex_WHITE: "hex_colour WHITE"
  by (simp add: hex_colour_def)

lemma simple_colour_hex:
  assumes "simple_colour c"
  shows "hex_colour c"
proof -
  have "''0123456789abcdefABCDEF'' = ''0123456789abcdef'' @ ''ABCDEF''" by simp
  then have "set ''0123456789abcdef'' \<subseteq> set ''0123456789abcdefABCDEF''" by (simp only: set_append) blast
  with assms show ?thesis
    by (auto simp: simple_colour_def hex_colour_def simp del: set_simps elim!: list.pred_mono_strong)
qed

lemma init_colours: "state_colours init_editor \<subseteq> {WHITE, BLACK}"
  using initializeGrid_colours [of initial_refs]
  by (simp add: init_editor_def initial_refs_def initialColorHistory_def) blast


subsection \<open>The colour type of a session\<close>

text \<open>C2.  In every state the editor reaches, every colour string it holds (the
  current colour, the recent colours, every cell of the grid and of every
  undo snapshot) is a hexadecimal colour \<open>#RRGGBB\<close>: the only colours that
  enter a session are white, black and the values of the colour input.\<close>

theorem reachable_colours:
  assumes "reachable s"
  shows "\<forall>c \<in> state_colours s. hex_colour c"
proof -
  from assms have "editor_inv s \<and> (\<forall>c \<in> state_colours s. hex_colour c)"
  proof (induction rule: reachable.induct)
    case init
    show ?case using init_inv init_colours by (auto simp: hex_colour_def)
  next
    case (step s e s')
    have ev: "\<forall>c \<in> event_colours e. hex_colour c"
      using step.hyps(2) simple_colour_hex by (cases e) (auto simp: event_colours_def event_enabled_def)
    have "state_colours s' \<subseteq> insert WHITE (state_colours s \<union> event_colours e)"
      using step_colours [OF _ step.hyps(2,3)] step.IH by blast
    then show ?case
      using step_inv [OF _ step.hyps(2,3)] step.IH ev hex_WHITE by blast
  qed
  then show ?thesis by blast
qed

subsection \<open>Witnesses\<close>

theorem reachable_colours_witness:
  "reachable init_editor \<and> hex_colour (currentColor init_editor)"
  using reachable_colours [OF reachable.init] by (simp add: reachable.init state_colours_def)


subsection \<open>The hover preview's colour\<close>

lemma hex_char_props:
  assumes "ch \<in> set ''0123456789abcdefABCDEF''"
  shows "digit_val ch = Some (hex_digit_val ch) \<and> hex_digit_val ch < 16 \<and> \<not> js_space ch \<and>
    ch \<noteq> CHR ''-'' \<and> ch \<noteq> CHR ''+'' \<and> ch \<noteq> CHR ''x'' \<and> ch \<noteq> CHR ''X''"
  using assms by (auto simp: hex_digit_val_def digit_val_def js_space_def)

lemma parseInt_hex_pair:
  assumes "a \<in> set ''0123456789abcdefABCDEF''" "b \<in> set ''0123456789abcdefABCDEF''"
  shows "js_num_str (js_parseInt [a, b] 16) = nat_str (16 * hex_digit_val a + hex_digit_val b)"
proof -
  have e: "js_parseInt [a, b] 16 = Some (int (16 * hex_digit_val a + hex_digit_val b))"
    using hex_char_props [OF assms(1)] hex_char_props [OF assms(2)]
    by (simp add: js_parseInt_def Let_def is_radix_digit_def digits_value_def)
  have n: "js_num_str (Some (int n)) = nat_str n" for n
    by (simp add: js_num_str_def js_int_str_def)
  show ?thesis unfolding e n by (rule refl)
qed

lemma hex_colour_cases:
  assumes "hex_colour c"
  obtains a1 a2 b1 b2 d1 d2 where "c = [CHR ''#'', a1, a2, b1, b2, d1, d2]"
    "\<forall>x \<in> {a1, a2, b1, b2, d1, d2}. x \<in> set ''0123456789abcdefABCDEF''"
proof -
  obtain h t where "c = h # t" using assms by (cases c) (auto simp: hex_colour_def)
  moreover obtain a1 a2 b1 b2 d1 d2 where "t = [a1, a2, b1, b2, d1, d2]"
    using assms calculation
    by (auto simp: hex_colour_def length_Suc_conv numeral_eq_Suc simp del: set_simps)
  ultimately show ?thesis using assms that by (auto simp: hex_colour_def simp del: set_simps)
qed

text \<open>C19.  For every hexadecimal colour \<open>#RRGGBB\<close>, the fill style of the
  hover preview is \<open>rgba(R, G, B, 0.5)\<close> with the three channels read by
  \<open>parseInt(..., 16)\<close> as numbers from 0 to 255 and printed in decimal:
  never \<open>NaN\<close>.  With \<open>reachable_colours\<close> this covers every colour a session
  can preview.\<close>

theorem preview_style_hex:
  assumes "hex_colour c"
  shows "preview_style c =
      ''rgba('' @ nat_str (16 * hex_digit_val (c ! 1) + hex_digit_val (c ! 2)) @ '', '' @
      nat_str (16 * hex_digit_val (c ! 3) + hex_digit_val (c ! 4)) @ '', '' @
      nat_str (16 * hex_digit_val (c ! 5) + hex_digit_val (c ! 6)) @ '', 0.5)'' \<and>
    16 * hex_digit_val (c ! 1) + hex_digit_val (c ! 2) < 256 \<and>
    16 * hex_digit_val (c ! 3) + hex_digit_val (c ! 4) < 256 \<and>
    16 * hex_digit_val (c ! 5) + hex_digit_val (c ! 6) < 256"
proof -
  obtain a1 a2 b1 b2 d1 d2 where c: "c = [CHR ''#'', a1, a2, b1, b2, d1, d2]"
    and h: "\<forall>x \<in> {a1, a2, b1, b2, d1, d2}. x \<in> set ''0123456789abcdefABCDEF''"
    using hex_colour_cases [OF assms] by blast
  have p: "js_num_str (js_parseInt [a1, a2] 16) = nat_str (16 * hex_digit_val a1 + hex_digit_val a2)"
    "js_num_str (js_parseInt [b1, b2] 16) = nat_str (16 * hex_digit_val b1 + hex_digit_val b2)"
    "js_num_str (js_parseInt [d1, d2] 16) = nat_str (16 * hex_digit_val d1 + hex_digit_val d2)"
    using h parseInt_hex_pair by (simp_all del: set_simps)
  have lt: "hex_digit_val a1 < 16" "hex_digit_val a2 < 16" "hex_digit_val b1 < 16"
    "hex_digit_val b2 < 16" "hex_digit_val d1 < 16" "hex_digit_val d2 < 16"
    using h hex_char_props by (simp_all del: set_simps)
  show ?thesis
  proof (intro conjI)
    show "preview_style c = ''rgba('' @ nat_str (16 * hex_digit_val (c ! 1) + hex_digit_val (c ! 2)) @ '', '' @
      nat_str (16 * hex_digit_val (c ! 3) + hex_digit_val (c ! 4)) @ '', '' @
      nat_str (16 * hex_digit_val (c ! 5) + hex_digit_val (c ! 6)) @ '', 0.5)''"
      by (simp add: c preview_style_def js_str_slice_def p)
  qed (use lt in \<open>simp_all add: c\<close>)
qed

subsection \<open>Witnesses of the preview\<close>

theorem preview_style_hex_witness:
  "preview_style ''#FF8000'' = ''rgba(255, 128, 0, 0.5)''"
proof -
  have n: "nat_str 255 = ''255''" "nat_str 128 = ''128''" "nat_str 0 = ''0''"
    by code_simp+
  show ?thesis
    using preview_style_hex [of "''#FF8000''"]
    by (simp add: hex_colour_def hex_digit_val_def digit_val_def n)
qed

end
