(* ===== verification/Layout.thy ===== *)
theory Layout
  imports Readme
begin

text \<open>
  Where the canvas is on the screen.  The canvas is 640 by 640 CSS pixels:
  \<open>renderCanvas\<close> sets its \<open>width\<close> and \<open>height\<close> to \<open>CANVAS_SIZE\<close> (App.vue
  lines 149--150) and the stylesheet gives \<open>.pixel-canvas\<close> no other size
  (lines 1033--1042).  Its parent \<open>.canvas-zoom-wrapper\<close> is transformed by
  \<open>scale(zoomLevel)\<close> (line 678) about its centre
  (\<open>transform-origin: center center\<close>, line 1028).  With the unscaled canvas's
  top-left corner at client position \<open>(L, T)\<close>, \<open>zoom_point\<close> is where the
  canvas point \<open>(x, y)\<close> appears on the screen and \<open>zoom_rect\<close> is what
  \<open>getBoundingClientRect()\<close> returns for the scaled canvas, the rectangle
  \<open>getCanvasCoordinates\<close> reads.  The 0.1 s transition of the transform is not
  modelled: the geometry is the one after the transition.
\<close>

definition zoom_point :: "real \<Rightarrow> real \<Rightarrow> real \<Rightarrow> real \<times> real \<Rightarrow> real \<times> real" where
  "zoom_point L T z p =
     (L + CANVAS_SIZE / 2 + z * (fst p - CANVAS_SIZE / 2), T + CANVAS_SIZE / 2 + z * (snd p - CANVAS_SIZE / 2))"

definition zoom_rect :: "real \<Rightarrow> real \<Rightarrow> real \<Rightarrow> canvas_rect" where
  "zoom_rect L T z =
     \<lparr>rect_left = fst (zoom_point L T z (0, 0)), rect_top = snd (zoom_point L T z (0, 0)),
      rect_width = z * CANVAS_SIZE, rect_height = z * CANVAS_SIZE\<rparr>"

subsection \<open>Reading the pointer back\<close>

lemma zoom_unscale:
  assumes "0 < z" "zoom_point L T z (x, y) = (cx, cy)"
  shows "(cx - rect_left (zoom_rect L T z)) * (CANVAS_SIZE / rect_width (zoom_rect L T z)) = x"
    "(cy - rect_top (zoom_rect L T z)) * (CANVAS_SIZE / rect_height (zoom_rect L T z)) = y"
  using assms by (auto simp: zoom_point_def zoom_rect_def CANVAS_SIZE_def field_simps)

lemma init_editor_fields:
  "isDrawing init_editor = False" "dialogVisible init_editor = False" "zoomLevel init_editor = 1"
  "gridWidth init_editor = 32" "gridHeight init_editor = 32"
  by (simp_all add: init_editor_def initializeGrid_def initial_refs_def saveState_def Let_def renderCanvas_def)

text \<open>C25.  In every reachable state, whatever the zoom, a press on the screen
  image of a point inside the rectangle \<open>renderCanvas\<close> fills for a cell
  selects that cell: \<open>getCanvasCoordinates\<close> undoes the CSS scaling exactly,
  and the press starts drawing there.\<close>

theorem zoomed_press_selects_cell:
  assumes "reachable s" "in_bounds (gridHeight s) (gridWidth s) row col"
    and "cell_rect (pixelSize (gridWidth s) (gridHeight s)) row col = FillRect x0 y0 ps ps'"
    and "x0 \<le> x" "x < x0 + ps" "y0 \<le> y" "y < y0 + ps"
    and "zoom_point L T (zoomLevel s) (x, y) = (cx, cy)"
  shows "getCanvasCoordinates (Some (zoom_rect L T (zoomLevel s))) \<lparr>clientX = cx, clientY = cy, buttons = b\<rparr> s
      = Some (row, col) \<and>
    onCanvasMouseDown (Some (zoom_rect L T (zoomLevel s))) \<lparr>clientX = cx, clientY = cy, buttons = b\<rparr> s
      = startDrawing row col s"
proof -
  have lim: "readme_limits s" using reachable_editor_inv [OF assms(1)] by (rule editor_inv_readme_limits)
  then have z: "0 < zoomLevel s" and g: "0 < gridWidth s" "0 < gridHeight s"
    by (auto simp: readme_limits_def)
  have "getCanvasCoordinates (Some (zoom_rect L T (zoomLevel s))) \<lparr>clientX = cx, clientY = cy, buttons = b\<rparr> s
      = Some (row, col)"
    using zoom_unscale [OF z assms(8)]
    by (intro cell_rect_coords [OF g assms(2) _ _ assms(3-7)]) simp_all
  then show ?thesis by (simp add: onCanvasMouseDown_def)
qed

subsection \<open>Witnesses\<close>

theorem zoomed_press_selects_cell_witness:
  "reachable (zoomIn (stopDrawing init_editor)) \<and> zoomLevel (zoomIn (stopDrawing init_editor)) = 5 / 4 \<and>
   getCanvasCoordinates (Some (zoom_rect 100 100 (5 / 4))) \<lparr>clientX = 65 / 2, clientY = 65 / 2, buttons = 1\<rparr>
     (zoomIn (stopDrawing init_editor)) = Some (0, 0)"
proof -
  define s where "s = zoomIn (stopDrawing init_editor)"
  have r: "reachable s"
    using reachable.step [OF reachable.init, of ZoomInButton s]
    by (simp add: s_def event_enabled_def step_def init_editor_fields MAX_ZOOM_def)
  have z: "zoomLevel s = 5 / 4"
    by (simp add: s_def zoomIn_def stopDrawing_def init_editor_fields MAX_ZOOM_def)
  have g: "gridWidth s = 32" "gridHeight s = 32"
    by (simp_all add: s_def zoomIn_def stopDrawing_def init_editor_fields)
  have c: "cell_rect (pixelSize (gridWidth s) (gridHeight s)) 0 0 = FillRect 0 0 20 20"
    by (simp add: g cell_rect_def pixelSize_def CANVAS_SIZE_def)
  have p: "zoom_point 100 100 (zoomLevel s) (10, 10) = (65 / 2, 65 / 2)"
    by (simp add: z zoom_point_def CANVAS_SIZE_def)
  show ?thesis
    using zoomed_press_selects_cell [OF r _ c _ _ _ _ p, of 1] r z g
    by (simp add: s_def [symmetric] in_bounds_def)
qed

end
