(* ===== verification/Export.thy ===== *)
theory Export
  imports Events
begin

text \<open>
  The PNG export of src/src/App.vue, \<open>exportAsPNG\<close> (lines 496--521).  It
  creates an off-screen canvas of \<open>gridWidth \<times> gridHeight\<close> pixels, asks it
  for a 2D context and returns if there is none, fills one pixel per cell,
  and asks the canvas for a PNG blob; the \<open>toBlob\<close> callback returns on a
  null blob and otherwise makes an object URL for it, clicks a download link
  named \<open>pixel-art.png\<close> and revokes the URL.  A run is the list of browser
  calls it makes, \<open>export_call\<close>; whether \<open>getContext('2d')\<close> returns a
  context and whether \<open>toBlob\<close> produces a blob are the two answers of the
  browser, given as arguments.  The blob stands for the picture it encodes
  (PNG is lossless), a \<open>picture\<close>: its size and the draw log of the
  off-screen canvas.
\<close>

definition export_ops :: "int \<Rightarrow> int \<Rightarrow> grid \<Rightarrow> draw_cmd list" where
  "export_ops w h g =
     concat (map (\<lambda>(row, col). [FillStyle (g ! nat row ! nat col), FillRect (of_int col) (of_int row) 1 1])
       (List.product [0..h - 1] [0..w - 1]))"

record picture =
  pic_width :: int
  pic_height :: int
  pic_ops :: "draw_cmd list"

datatype export_call =
    CreateCanvas int int
  | GetContext2D
  | CtxCall draw_cmd
  | ToBlob
  | CreateObjectURL picture
  | ClickDownload string picture
  | RevokeObjectURL picture

definition export_picture :: "editor \<Rightarrow> picture" where
  "export_picture s =
     \<lparr>pic_width = gridWidth s, pic_height = gridHeight s,
      pic_ops = export_ops (gridWidth s) (gridHeight s) (grid s)\<rparr>"

definition toBlob_callback :: "picture option \<Rightarrow> export_call list" where
  "toBlob_callback blob =
     (case blob of
        None \<Rightarrow> []
      | Some p \<Rightarrow> [CreateObjectURL p, ClickDownload ''pixel-art.png'' p, RevokeObjectURL p])"

definition exportAsPNG :: "bool \<Rightarrow> bool \<Rightarrow> editor \<Rightarrow> export_call list" where
  "exportAsPNG has_ctx has_blob s =
     [CreateCanvas (gridWidth s) (gridHeight s), GetContext2D] @
     (if \<not> has_ctx then []
      else map CtxCall (export_ops (gridWidth s) (gridHeight s) (grid s)) @
        ToBlob # toBlob_callback (if has_blob then Some (export_picture s) else None))"

subsection \<open>What a run downloads\<close>

text \<open>The files a run saves, and the discipline of object URLs: a URL is
  used only while it is live and every URL created is revoked by the end.\<close>

fun downloads :: "export_call list \<Rightarrow> (string \<times> picture) list" where
  "downloads [] = []"
| "downloads (ClickDownload n p # cs) = (n, p) # downloads cs"
| "downloads (_ # cs) = downloads cs"

fun urls_ok :: "picture list \<Rightarrow> export_call list \<Rightarrow> bool" where
  "urls_ok live [] \<longleftrightarrow> live = []"
| "urls_ok live (CreateObjectURL p # cs) \<longleftrightarrow> urls_ok (p # live) cs"
| "urls_ok live (ClickDownload n p # cs) \<longleftrightarrow> p \<in> set live \<and> urls_ok live cs"
| "urls_ok live (RevokeObjectURL p # cs) \<longleftrightarrow> p \<in> set live \<and> urls_ok (remove1 p live) cs"
| "urls_ok live (_ # cs) \<longleftrightarrow> urls_ok live cs"

lemma downloads_ctx_calls [simp]: "downloads (map CtxCall xs @ ys) = downloads ys"
  by (induction xs) simp_all

lemma urls_ok_ctx_calls [simp]: "urls_ok live (map CtxCall xs @ ys) = urls_ok live ys"
  by (induction xs) simp_all

lemma toBlob_callback_effects:
  "downloads (toBlob_callback b) = (case b of None \<Rightarrow> [] | Some p \<Rightarrow> [(''pixel-art.png'', p)]) \<and>
   urls_ok [] (toBlob_callback b)"
  by (simp add: toBlob_callback_def split: option.split)

lemma export_ops_blocks:
  "export_ops w h g =
     concat (map (fill_block (\<lambda>(r, c). g ! nat r ! nat c) (cell_key 1)) (List.product [0..h - 1] [0..w - 1]))"
  unfolding export_ops_def
  by (intro arg_cong [where f = concat] map_cong refl) (auto simp: fill_block_def cell_key_def)

text \<open>C26.  An export with a context and a blob downloads exactly one file,
  \<open>pixel-art.png\<close>, whose picture has the grid's size and is a one-to-one dump
  of it: the pixel \<open>(col, row)\<close> has the colour of the grid cell
  \<open>(row, col)\<close>, and no pixel outside the grid is drawn.  Without a context or
  without a blob nothing is downloaded, and in every case each object URL is
  used only while live and revoked before the export ends.\<close>

theorem exportAsPNG_dump:
  assumes "grid_wf s"
  shows "downloads (exportAsPNG has_ctx has_blob s) =
      (if has_ctx \<and> has_blob then [(''pixel-art.png'', export_picture s)] else []) \<and>
    urls_ok [] (exportAsPNG has_ctx has_blob s) \<and>
    pic_width (export_picture s) = gridWidth s \<and> pic_height (export_picture s) = gridHeight s \<and>
    painted (pic_ops (export_picture s)) (of_int col, of_int row, 1, 1) = grid_get (grid s) row col"
  using painted_grid_blocks [of "gridHeight s" "gridWidth s" "grid s" 1 row col] assms
    toBlob_callback_effects [of "if has_blob then Some (export_picture s) else None"]
  by (simp add: exportAsPNG_def export_picture_def export_ops_blocks grid_wf_def cell_key_def)

subsection \<open>Witnesses\<close>

theorem exportAsPNG_dump_witness:
  "grid_wf demo_editor \<and>
   downloads (exportAsPNG True True demo_editor) = [(''pixel-art.png'', export_picture demo_editor)] \<and>
   downloads (exportAsPNG False True demo_editor) = [] \<and>
   painted (pic_ops (export_picture demo_editor)) (of_int 1, of_int 2, 1, 1) = Some WHITE"
proof -
  have wf: "grid_wf demo_editor" using demo_editor_wf by simp
  have g: "grid_get (grid demo_editor) 2 1 = Some WHITE"
    by (simp add: demo_editor_def grid_get_new_grid in_bounds_def)
  show ?thesis
    using exportAsPNG_dump [OF wf, of True True 1 2] exportAsPNG_dump [OF wf, of False True 1 2] wf g
    by simp
qed

end
