(* ===== verification/View.thy ===== *)
theory View
  imports Readme
begin

text \<open>
  What the template of src/src/App.vue (lines 564--722) shows for a state:
  \<open>view\<close> renders the editor record to a \<open>page_view\<close>, one field per
  binding that displays state.  The tool buttons with their \<open>active\<close> class
  (lines 573--600), the brush buttons of the \<open>v-for\<close> over \<open>[1, 2, 3, 4, 5]\<close>
  with their label \<open>{{ size }}x{{ size }}\<close> and \<open>active\<close> class (606--615), the
  colour value (626), the palette, a \<open>v-for\<close> over \<open>colorHistory\<close> keyed by the
  colour with its \<open>selected\<close> class (633--641), the zoom buttons' \<open>:disabled\<close>
  and the label \<open>Math.round(zoomLevel * 100)%\<close> (660--662), the canvas cursor
  (683--685), the size label \<open>gridWidth \<times> gridHeight\<close> (691--693, the sign
  written as its UTF-8 bytes) and the dialog box when \<open>v-if="dialogVisible"\<close>
  holds (697--720).  JavaScript's \<open>Math.round\<close> rounds halves up, as HOL's
  \<open>round\<close> does (\<open>round x = \<lfloor>x + 1/2\<rfloor>\<close>).  Text nodes are taken without the
  white space the template puts around them.
\<close>

record dialog_box =
  box_title :: string
  box_message :: string
  box_input :: "string option"
  box_cancel :: bool
  box_confirm :: string

record page_view =
  tool_buttons :: "(string \<times> bool) list"
  brush_buttons :: "(string \<times> bool) list"
  color_value :: string
  palette :: "(color \<times> bool) list"
  zoom_out_disabled :: bool
  zoom_label :: string
  zoom_in_disabled :: bool
  canvas_cursor :: string
  size_label :: string
  dialog_view :: "dialog_box option"

definition tool_labels :: "(string \<times> tool) list" where
  "tool_labels = [(''Pencil'', Pencil), (''Eraser'', Eraser), (''Fill'', Fill), (''Picker'', Eyedropper)]"

definition brush_sizes :: "int list" where
  "brush_sizes = [1, 2, 3, 4, 5]"

definition times_sign :: string where
  "times_sign = [CHR 0xC3, CHR 0x97]"

definition render_dialog :: "editor \<Rightarrow> dialog_box" where
  "render_dialog s =
     \<lparr>box_title = dialogTitle s, box_message = dialogMessage s,
      box_input = (if dialogType s = DPrompt then Some (dialogInput s) else None),
      box_cancel = (dialogType s \<noteq> DAlert),
      box_confirm = (if dialogType s = DAlert then ''OK'' else ''Confirm'')\<rparr>"

definition view :: "editor \<Rightarrow> page_view" where
  "view s =
     \<lparr>tool_buttons = map (\<lambda>(l, t). (l, currentTool s = t)) tool_labels,
      brush_buttons = map (\<lambda>n. (js_int_str n @ ''x'' @ js_int_str n, brushSize s = n)) brush_sizes,
      color_value = currentColor s,
      palette = map (\<lambda>c. (c, currentColor s = c)) (colorHistory s),
      zoom_out_disabled = (zoomLevel s \<le> MIN_ZOOM),
      zoom_label = js_int_str (round (zoomLevel s * 100)) @ ''%'',
      zoom_in_disabled = (zoomLevel s \<ge> MAX_ZOOM),
      canvas_cursor = (if currentTool s = Eyedropper then ''crosshair'' else ''pointer''),
      size_label = js_int_str (gridWidth s) @ '' '' @ times_sign @ '' '' @ js_int_str (gridHeight s),
      dialog_view = (if dialogVisible s then Some (render_dialog s) else None)\<rparr>"

text \<open>A well-formed page: one tool and one brush button highlighted, the
  palette's \<open>v-for\<close> keys distinct (Vue requires it) with at most one swatch
  selected and at most 20 swatches, at most one zoom button disabled, the zoom
  label a percentage from 25 to 400, a square size label of side 8 to 64.\<close>

definition view_ok :: "page_view \<Rightarrow> bool" where
  "view_ok v \<longleftrightarrow>
     length (filter snd (tool_buttons v)) = 1 \<and>
     length (filter snd (brush_buttons v)) = 1 \<and>
     distinct (map fst (palette v)) \<and> length (filter snd (palette v)) \<le> 1 \<and> length (palette v) \<le> 20 \<and>
     \<not> (zoom_out_disabled v \<and> zoom_in_disabled v) \<and>
     zoom_label v \<in> set (map (\<lambda>n. js_int_str n @ ''%'') [25..400]) \<and>
     size_label v \<in> set (map (\<lambda>n. js_int_str n @ '' '' @ times_sign @ '' '' @ js_int_str n) [8..64])"

subsection \<open>The page of a well-formed state\<close>

lemma distinct_filter_eq_le1:
  assumes "distinct xs"
  shows "length (filter (\<lambda>y. x = y) xs) \<le> 1"
proof -
  have "length (filter (\<lambda>y. x = y) xs) = card ({y. x = y} \<inter> set xs)"
    using assms by (rule distinct_length_filter)
  also have "\<dots> \<le> card {x}" by (rule card_mono) auto
  finally show ?thesis by simp
qed

lemma mem_map_upto:
  assumes "a \<le> k" "k \<le> b"
  shows "f k \<in> set (map f [a..b])"
proof -
  have "k \<in> set [a..b]" using assms by (simp only: set_upto atLeastAtMost_iff)
  then show ?thesis by (simp only: set_map) (rule imageI)
qed

lemma round_percent_bounds:
  fixes z :: real
  assumes "1 / 4 \<le> z" "z \<le> 4"
  shows "25 \<le> round (z * 100) \<and> round (z * 100) \<le> 400"
proof -
  have "25 \<le> \<lfloor>z * 100 + 1 / 2\<rfloor>" using assms(1) by (simp add: le_floor_iff)
  moreover have "\<lfloor>z * 100 + 1 / 2\<rfloor> < 401" using assms(2) by (simp add: floor_less_iff)
  ultimately show ?thesis by (simp add: round_def)
qed

lemma view_ok_of_inv:
  assumes "editor_inv s"
  shows "view_ok (view s)"
proof -
  have lim: "readme_limits s" using assms by (rule editor_inv_readme_limits)
  have ch: "distinct (colorHistory s)" "length (colorHistory s) \<le> 20"
    using assms by (simp_all add: editor_inv_def editor_core_def colorHistory_inv_def COLOR_HISTORY_SIZE_def)
  have bs: "brushSize s \<in> set brush_sizes"
    using lim by (auto simp: readme_limits_def brush_sizes_def)
  have "length (filter snd (brush_buttons (view s))) = 1"
    using bs by (auto simp: view_def brush_sizes_def)
  moreover have "length (filter snd (tool_buttons (view s))) = 1"
    by (cases "currentTool s") (simp_all add: view_def tool_labels_def)
  moreover have "length (filter snd (palette (view s))) \<le> 1"
    using distinct_filter_eq_le1 [OF ch(1), of "currentColor s"]
    by (simp add: view_def filter_map comp_def)
  moreover have "zoom_label (view s) \<in> set (map (\<lambda>n. js_int_str n @ ''%'') [25..400])"
    unfolding view_def page_view.simps
    by (rule mem_map_upto [where f = "\<lambda>n. js_int_str n @ ''%''"])
      (use round_percent_bounds [of "zoomLevel s"] lim in \<open>simp_all add: readme_limits_def\<close>)
  moreover have "size_label (view s) \<in> set (map (\<lambda>n. js_int_str n @ '' '' @ times_sign @ '' '' @ js_int_str n) [8..64])"
    unfolding view_def page_view.simps
    using mem_map_upto [where f = "\<lambda>n. js_int_str n @ '' '' @ times_sign @ '' '' @ js_int_str n", of 8 "gridWidth s" 64]
      lim by (simp del: upto.simps add: readme_limits_def)
  ultimately show ?thesis
    using ch lim unfolding view_ok_def
    by (simp del: upto.simps add: view_def comp_def MIN_ZOOM_def MAX_ZOOM_def readme_limits_def)
qed

lemma zoom_buttons_enabled:
  "event_enabled ZoomOutButton s \<longleftrightarrow> \<not> dialogVisible s \<and> \<not> zoom_out_disabled (view s)"
  "event_enabled ZoomInButton s \<longleftrightarrow> \<not> dialogVisible s \<and> \<not> zoom_in_disabled (view s)"
  by (simp_all add: event_enabled_def view_def)

text \<open>C20.  In every reachable state the page the template renders is well
  formed: exactly one tool button and one brush button carry the \<open>active\<close>
  class, the palette's \<open>v-for\<close> keys are distinct and at most one swatch is
  \<open>selected\<close>, at most one zoom button is disabled, the zoom label is a
  percentage from 25 to 400 and the size label reads \<open>N \<times> N\<close> with N from 8
  to 64.\<close>

theorem reachable_view_ok:
  assumes "reachable s"
  shows "view_ok (view s)"
  using reachable_editor_inv [OF assms] by (rule view_ok_of_inv)

subsection \<open>Witnesses\<close>

theorem reachable_view_ok_witness: "reachable init_editor \<and> view_ok (view init_editor)"
  using reachable_view_ok [OF reachable.init] by (simp add: reachable.init)

end
