(* ===== verification/Spec2Isabelle.thy ===== *)
theory Spec2Isabelle
  imports Readme Colours Layout Export View
begin

text \<open>
  \<^bold>\<open>Pixlet.\<close>  A verification development of the pixel-art editor Pixlet,
  whose whole engine is the script of src/src/App.vue (a Vue single-file
  component; lines 1--562 the script, 564--722 the template, the rest CSS).
  The program is one editing session: a grid of colour strings, a canvas
  that shows it, an undo stack of grid snapshots, the tool state, a colour
  history, a zoom factor and a modal dialog, all Vue refs, changed by the
  handlers the template and \<open>onMounted\<close> bind to browser events.

  \<^bold>\<open>Theories, bottom up.\<close>
  \<^item> \<open>Prelude\<close>: colours as strings, the grid as a list of rows,
    \<open>grid_get\<close>/\<open>set_cell\<close> with JavaScript's out-of-range behaviour written
    out, \<open>wf_grid\<close>, \<open>Array.prototype.slice\<close> (\<open>js_slice\<close>), the shared list and
    grid lemmas and the \<open>grid_simps\<close> collection.
  \<^item> \<open>Grid\<close>: the record \<open>canvas_state\<close> (refs \<open>gridWidth\<close>, \<open>gridHeight\<close>,
    \<open>grid\<close>; the canvas bitmap as the log \<open>display\<close> of 2D-context calls,
    datatype \<open>draw_cmd\<close>), \<open>CANVAS_SIZE\<close>, \<open>pixelSize\<close>, and \<open>painted\<close>/\<open>cell_fill\<close>,
    which read back from the log the colour a cell's rectangle shows.
  \<^item> \<open>Render\<close>: \<open>renderCanvas\<close>, \<open>drawGridLines\<close>, \<open>renderSinglePixel\<close> (lines
    146--189, 332--370) and \<open>shows_grid\<close>: a full redraw, and a one-cell write
    followed by its single-pixel redraw, leave the canvas showing the grid.
  \<^item> \<open>History\<close>: the record \<open>hist_state\<close> (\<open>history\<close>, \<open>historyIndex\<close>),
    \<open>saveState\<close>, \<open>undo\<close>, \<open>redo\<close>, \<open>initializeGrid\<close> (lines 98--143), the
    history invariant, capacity 50, the undo/redo round trips.
  \<^item> \<open>FloodFill\<close>: the recursive \<open>floodFill\<close> (lines 445--456) as a total
    \<open>function\<close> with nested recursion, terminating because every recursive
    call repaints one more target-coloured cell; refined to \<open>repaint\<close> of the
    4-connected component (\<open>reach\<close>, an inductive predicate).
  \<^item> \<open>Bresenham\<close>: the \<open>while (true)\<close> loop of \<open>drawLine\<close> (lines 261--286) as a
    \<open>partial_function (option)\<close> \<open>line_loop\<close>, parametric in the per-cell action;
    the loop is proved to return, after \<open>max dx dy + 1\<close> cells, with the
    8-connected cell sequence \<open>line_cells\<close>.  No fuel: non-termination would be
    the value \<open>None\<close>, and the claims show the result is always \<open>Some\<close>.
  \<^item> \<open>ColorHistory\<close>: \<open>addToColorHistory\<close> (lines 237--242), at most 20 colours.
  \<^item> \<open>Js\<close>: the library functions the handlers call, modelled from ECMA-262:
    \<open>parseInt\<close>, integer-to-string, \<open>String.prototype.slice\<close>.
  \<^item> \<open>Editor\<close>: the record \<open>editor\<close> (all refs), the brush stamp, \<open>drawPixel\<close>
    for the four tools, \<open>startDrawing\<close>, \<open>stopDrawing\<close>, \<open>drawLine\<close> over
    \<open>drawPixel\<close>, and \<open>renderHoverPreview\<close> (lines 192--330).
  \<^item> \<open>Dialogs\<close>: \<open>showDialog\<close>, \<open>closeDialog\<close>, \<open>confirmDialog\<close>,
    \<open>cancelDialog\<close> (lines 60--92); the callbacks of \<open>clearGrid\<close> and
    \<open>resizeGrid\<close> (lines 459--494) as the datatype \<open>callback\<close> run by
    \<open>run_callback\<close>, with JavaScript truthiness of the callback's argument.
  \<^item> \<open>Events\<close>: \<open>getCanvasCoordinates\<close>, the four canvas mouse handlers, zoom,
    the keydown listener; the template's bindings as the
    datatype \<open>ui_event\<close> and \<open>step\<close>, its \<open>v-if\<close>/\<open>v-for\<close>/\<open>:disabled\<close> as
    \<open>event_enabled\<close>; start-up as \<open>init_editor\<close> and the reachable states as the
    inductive \<open>reachable\<close>.
  \<^item> \<open>Session\<close>: the session invariant \<open>editor_inv\<close> and, one handler at a
    time, that \<open>step\<close> keeps it; the four outcomes of a pointer move
    (\<open>onCanvasMouseMove_shape\<close>); the history effect of one click.
  \<^item> \<open>Readme\<close>: the README (src/unnamed/part_000) as a specification: the
    limits it states (\<open>readme_limits\<close>) and its shortcut table
    (\<open>readme_shortcut\<close>), with the key the browser reports for a chord
    (\<open>browser_key\<close>, from UI Events); the keydown listener refines the table
    except for the chords the findings name.
  \<^item> \<open>Colours\<close>: the colour strings of a session (\<open>state_colours\<close>); every
    handler stores only colours it finds, white, or the value of the colour
    input, which HTML guarantees to be \<open>#rrggbb\<close> (\<open>simple_colour\<close>, a guard of
    \<open>event_enabled\<close>); so all colours are \<open>#RRGGBB\<close>, and the hover preview
    decodes them to channels 0--255.
  \<^item> \<open>Layout\<close>: where the canvas is on the screen: the template's
    \<open>transform: scale(zoomLevel)\<close> about the centre of \<open>.canvas-zoom-wrapper\<close>
    (lines 678, 1027--1031) as \<open>zoom_point\<close> and the bounding rectangle
    the mapper reads as \<open>zoom_rect\<close>; in every reachable state a press on the
    on-screen image of a cell selects that cell, at any zoom.
  \<^item> \<open>Export\<close>: \<open>exportAsPNG\<close> (lines 496--521) as the list of browser
    calls it makes (\<open>export_call\<close>), with its two early returns (no 2D
    context, null blob) and the \<open>toBlob\<close> callback; what a run downloads and
    the use of its object URL.
  \<^item> \<open>View\<close>: what the template displays (lines 573--720): \<open>view\<close> renders
    a state to a \<open>page_view\<close> (active and selected classes, the brush and
    zoom labels with \<open>Math.round\<close> as \<open>round\<close>, the \<open>:disabled\<close> zoom buttons,
    the cursor, the size label, the dialog box); every reachable state
    renders a well-formed page (\<open>view_ok\<close>), with the palette's \<open>v-for\<close>
    keys distinct as Vue requires.
  \<^item> this theory: the claims over whole sessions and whole clicks.

  \<^bold>\<open>How the model follows the code.\<close>  Every handler is a function from
  the editor record to the editor record; a handler that calls another
  composes the two in the order of the source; guards and early returns are
  \<open>if\<close>s of the definition.  JavaScript numbers are \<open>int\<close> where the code only
  ever holds integers (cells, sizes, indices) and \<open>real\<close> where it computes
  fractions (pointer coordinates, zoom, pixel size); rounding of floating
  point is not modelled.  Reads outside an array give \<open>undefined\<close> in the code
  and are never taken on a well-formed grid, which the lemmas show.

  \<^bold>\<open>What the claims show.\<close>  The whole session keeps its invariant and
  the README's limits (\<open>reachable_inv\<close>, by rule induction over \<open>reachable\<close>),
  holds only hexadecimal colours (\<open>reachable_colours\<close>), renders a
  well-formed page (\<open>reachable_view_ok\<close>); each tool does what its branch
  of \<open>drawPixel\<close> says (Editor); the dialogs, history, flood fill, line,
  colour history, renderer, mapper (also under zoom) and export contracts
  of their theories, among them the termination of the stroke loop
  (\<open>line_cells_correct\<close>) and refinements (flood fill of the connected component, the mapper of the
  drawn cell, the keydown listener of the README's table).  Whole gestures:
  a drag paints every cell of the Bresenham line between successive pointer
  cells (\<open>drag_paints_line\<close>, the continuity the spec asks for), and a pencil
  click is one undo step (\<open>brush_click_undo\<close>).  The effects of whole clicks
  and drags are also where the findings are: a fill click records two
  snapshots, so its first undo changes nothing on screen, and an eyedropper
  click records one; an eyedropper press followed by a small drag paints; a
  drag entering the canvas with the button held starts a stroke;
  every letter chord typed with Shift or with Caps Lock (not both) is
  ignored, Ctrl+Shift+Z and Caps-Lock Ctrl+Z and Ctrl+Y among them; the
  resize dialog's error alert is closed before it is shown; and a failed
  export (no context, no blob) ends silently.

  \<^bold>\<open>Bounds and fuel.\<close>  No fuel is used.  The only loop that is not
  structural, Bresenham's \<open>while (true)\<close>, is a \<open>partial_function (option)\<close>
  proved to return; the recursive flood fill is a total \<open>function\<close> whose
  termination is proved; all other loops of the source run over finite lists.
  The witnesses use a 3 by 3 grid (\<open>demo_editor\<close>) where a concrete state is
  needed, and the start-up state \<open>init_editor\<close> (32 by 32) only symbolically.

  \<^bold>\<open>Not modelled.\<close>  The CSS other than the zoom geometry (colours,
  spacing, the highlight the \<open>active\<close>, \<open>selected\<close> and \<open>:disabled\<close> classes
  select, the responsive layout and the 0.1 s transition of the transform),
  which is presentation and changes no state; the icons and static texts
  of the template; the bytes of the PNG encoding (a blob stands for
  the picture it encodes; whether the browser gives a context and a blob is
  an argument of \<open>exportAsPNG\<close>); the early returns of the renderer taken
  when \<open>canvas.value\<close> or its 2D context is null, which happen only before
  mount (the mapper's is modelled: a missing canvas is \<open>None\<close>); scrolling of \<open>.canvas-wrapper\<close>,
  which only moves the unscaled canvas's client position, a parameter of
  \<open>zoom_rect\<close>; the pixel values of the browser's rasteriser (the canvas is
  the log of calls made); Unicode white space beyond Latin-1 in
  \<open>parseInt\<close>.
\<close>

subsection \<open>The session invariant\<close>

text \<open>C1.  Every state the editor reaches from start-up through any sequence of
  browser events the page lets through satisfies the session invariant: a
  well-formed square grid of side 8 to 64, the history invariant with the live
  grid under the cursor between gestures, a duplicate-free colour history of
  at most 20 colours, zoom in [0.25, 4], brush size 1 to 5, and the dialog
  shown exactly when it holds a callback of the matching kind.  In
  particular every limit the README states holds in every reachable state.\<close>

theorem reachable_inv:
  assumes "reachable s"
  shows "editor_inv s \<and> readme_limits s"
proof -
  from assms have "editor_inv s" by (rule reachable_editor_inv)
  then show ?thesis by (simp add: editor_inv_readme_limits)
qed

subsection \<open>One click, its snapshots\<close>

text \<open>C6.  A click with the fill tool (press and release over the canvas, between
  gestures, with room in the history) records the filled grid twice: once by
  the fill branch of \<open>drawPixel\<close> and once by \<open>stopDrawing\<close> on release.  When
  the clicked cell already has the current colour the grid is unchanged and
  the two snapshots still are recorded.\<close>

theorem fill_click_two_snapshots:
  assumes "0 < gridWidth s" "0 < gridHeight s" "\<not> isDrawing s" "currentTool s = Fill" "hist_top s"
    and "length (history s) + 2 \<le> nat MAX_HISTORY"
    and "getCanvasCoordinates cv ev s = Some (row, col)"
  shows "\<exists>s'. Option.bind (step (CanvasDown cv ev) s) (step CanvasUp) = Some s' \<and>
    grid s' = floodFill (gridHeight s) (gridWidth s) (grid s) row col (grid s ! nat row ! nat col) (currentColor s) \<and>
    history s' = history s @
      [floodFill (gridHeight s) (gridWidth s) (grid s) row col (grid s ! nat row ! nat col) (currentColor s),
       floodFill (gridHeight s) (gridWidth s) (grid s) row col (grid s ! nat row ! nat col) (currentColor s)] \<and>
    (grid s ! nat row ! nat col = currentColor s \<longrightarrow> grid s' = grid s)"
  using fill_click_trace [OF assms(1,2,4-7)] by auto

text \<open>C14.  A click with the pencil or the eraser records exactly one snapshot,
  the painted grid: the brush stamp of the press changes no history, the
  release pushes the grid once (the canvas's and the document's
  \<open>mouseup\<close> listeners both run \<open>stopDrawing\<close>, the second finds no gesture).\<close>

theorem brush_click_one_snapshot:
  assumes "0 < gridWidth s" "0 < gridHeight s" "\<not> isDrawing s" "currentTool s \<in> {Pencil, Eraser}" "hist_top s"
    and "length (history s) < nat MAX_HISTORY"
    and "getCanvasCoordinates cv ev s = Some (row, col)"
  shows "\<exists>s'. Option.bind (step (CanvasDown cv ev) s) (step CanvasUp) = Some s' \<and>
    grid s' = grid (startDrawing row col s) \<and> history s' = history s @ [grid s'] \<and>
    \<not> isDrawing s'"
  using brush_click_trace [OF assms(1,2,4-7)] by auto

text \<open>C15.  Undo after a pencil or eraser click gives back the grid from
  before the click: the click is one undo step.\<close>

theorem brush_click_undo:
  assumes "0 < gridWidth s" "0 < gridHeight s" "\<not> isDrawing s" "currentTool s \<in> {Pencil, Eraser}"
    and "hist_top s" "hist_synced s" "history s \<noteq> []" "length (history s) < nat MAX_HISTORY"
    and "getCanvasCoordinates cv ev s = Some (row, col)"
  shows "\<exists>s'. Option.bind (step (CanvasDown cv ev) s) (step CanvasUp) = Some s' \<and>
    step (KeyDown \<lparr>key = ''z'', ctrlKey = True, metaKey = False, shiftKey = False\<rparr>) s' = Some (undo s') \<and>
    grid (undo s') = grid s"
proof -
  obtain s' where c: "Option.bind (step (CanvasDown cv ev) s) (step CanvasUp) = Some s'"
    and h: "history s' = history s @ [grid s']" and top: "hist_top s'"
    using brush_click_trace [OF assms(1,2,4,5,8,9)] by blast
  have i: "historyIndex s' = int (length (history s))" using h top by (simp add: hist_top_def)
  have "grid (undo s') = last (history s)"
    using undo_at [of s'] i h assms(7) by (simp add: nth_append last_conv_nth nat_diff_distrib')
  then show ?thesis
    using c hist_top_last [OF assms(5-7)] by (auto simp: step_def onKeyDown_def)
qed

text \<open>C7.  A fill click takes two undos to revert: the first Ctrl+Z leaves
  the filled grid on screen (it moves to the first of the two identical
  snapshots), only the second gives back the grid from before the fill.\<close>

theorem fill_click_undo:
  assumes "0 < gridWidth s" "0 < gridHeight s" "\<not> isDrawing s" "currentTool s = Fill"
    and "hist_top s" "hist_synced s" "history s \<noteq> []" "length (history s) + 2 \<le> nat MAX_HISTORY"
    and "getCanvasCoordinates cv ev s = Some (row, col)"
  shows "\<exists>s'. Option.bind (step (CanvasDown cv ev) s) (step CanvasUp) = Some s' \<and>
    grid (undo s') = grid s' \<and> grid (undo (undo s')) = grid s"
proof -
  obtain s' G where c: "Option.bind (step (CanvasDown cv ev) s) (step CanvasUp) = Some s'"
    and g: "grid s' = G" and h: "history s' = history s @ [G, G]" and top: "hist_top s'"
    using fill_click_trace [OF assms(1,2,4,5,8,9)] by blast
  have i: "historyIndex s' = int (length (history s)) + 1" using h top by (simp add: hist_top_def)
  have u1: "grid (undo s') = G" "historyIndex (undo s') = int (length (history s))"
    "history (undo s') = history s'"
    using undo_at [of s'] i h by (simp_all add: nth_append)
  have "grid (undo (undo s')) = last (history s)"
    using undo_at [of "undo s'"] u1 h assms(7) by (simp add: nth_append last_conv_nth nat_diff_distrib')
  then show ?thesis using c g u1(1) hist_top_last [OF assms(5-7)] by auto
qed

text \<open>C16.  A click with the eyedropper picks the colour and switches to the
  pencil, and its release still records a snapshot of the unchanged grid.\<close>

theorem eyedropper_click_snapshot:
  assumes "0 < gridWidth s" "0 < gridHeight s" "\<not> isDrawing s" "currentTool s = Eyedropper" "hist_top s"
    and "length (history s) < nat MAX_HISTORY"
    and "getCanvasCoordinates cv ev s = Some (row, col)" and wf: "grid_wf s"
  shows "\<exists>s'. Option.bind (step (CanvasDown cv ev) s) (step CanvasUp) = Some s' \<and>
    grid s' = grid s \<and> history s' = history s @ [grid s] \<and> currentTool s' = Pencil \<and>
    grid_get (grid s) row col = Some (currentColor s')"
proof -
  let ?s1 = "s\<lparr>isDrawing := True, hoveredCell := None, lastDrawnPos := Some (row, col)\<rparr>"
  obtain down: "step (CanvasDown cv ev) s = Some (startDrawing row col s)"
    and ib: "in_bounds (gridHeight s) (gridWidth s) row col"
    using canvas_down_cell [OF assms(1,2,7)] by blast
  have eq: "startDrawing row col s = ?s1\<lparr>currentColor := grid s ! nat row ! nat col, currentTool := Pencil\<rparr>"
    using drawPixel_eyedropper_eq [of ?s1 row col] ib assms(4) by (simp add: startDrawing_def)
  have top: "hist_top (startDrawing row col s)" "isDrawing (startDrawing row col s)"
    "length (history (startDrawing row col s)) < nat MAX_HISTORY"
    using assms(5,6) by (simp_all add: eq hist_top_def)
  from canvas_up_saves [OF top(2,1,3)] show ?thesis
    using ib wf by (simp add: down eq grid_wf_def grid_get_in_bounds saveState_def Let_def)
qed

text \<open>C8.  A press with the eyedropper starts a gesture and switches to the
  pencil: moving to another cell before releasing draws a pencil line from the
  picked cell in the picked colour, so the cell under the pointer takes the
  picked cell's colour.\<close>

theorem eyedropper_drag_paints:
  assumes "editor_core s" "0 < brushSize s" "0 < gridWidth s" "0 < gridHeight s"
    and "currentTool s = Eyedropper" "getCanvasCoordinates cv ev s = Some (row, col)"
    and "buttons ev' = 1" "getCanvasCoordinates cv ev' s = Some (row', col')" "(row', col') \<noteq> (row, col)"
  shows "\<exists>s'. Option.bind (step (CanvasDown cv ev) s) (step (CanvasMove cv ev')) = Some s' \<and>
    currentTool s' = Pencil \<and> isDrawing s' \<and> grid_get (grid s') row' col' = grid_get (grid s) row col"
proof -
  let ?s0 = "s\<lparr>isDrawing := True, hoveredCell := None, lastDrawnPos := Some (row, col)\<rparr>"
  define s1 where "s1 = startDrawing row col s"
  obtain down: "step (CanvasDown cv ev) s = Some s1"
    and ib: "in_bounds (gridHeight s) (gridWidth s) row col"
    using canvas_down_cell [OF assms(3,4,6)] by (auto simp: s1_def)
  have ib': "in_bounds (gridHeight s) (gridWidth s) row' col'"
    using coords_in_bounds [OF assms(8,3,4)] .
  have eq: "s1 = ?s0\<lparr>currentColor := grid s ! nat row ! nat col, currentTool := Pencil\<rparr>"
    using drawPixel_eyedropper_eq [of ?s0 row col] ib assms(5) by (simp add: startDrawing_def s1_def)
  have core1: "editor_core s1" using drawPixel_core [of ?s0 row col] assms(1) by (simp add: s1_def startDrawing_def)
  have c1: "getCanvasCoordinates cv ev' s1 = Some (row', col')"
    using getCanvasCoordinates_dims [of s1 s cv ev'] assms(8) by (simp add: eq)
  obtain t where t: "drawLine row col row' col' s1 = Some t"
    using drawLine_cells [of row col row' col' s1] by blast
  have f1: "isDrawing s1" "currentTool s1 = Pencil" "lastDrawnPos s1 = Some (row, col)"
    by (simp_all add: eq)
  have mv: "step (CanvasMove cv ev') s1 = Some (t\<lparr>lastDrawnPos := Some (row', col')\<rparr>)"
    using assms(7,9) c1 t f1 by (auto simp: step_def onCanvasMouseMove_eq brush_tool_def)
  have "grid_get (grid t) row' col' = Some (grid s ! nat row ! nat col)"
    using pencil_line_end [OF core1 _ _ t] ib' assms(2) by (simp add: eq)
  moreover have "grid_get (grid s) row col = Some (grid s ! nat row ! nat col)"
    using assms(1) ib grid_get_in_bounds by (auto simp: editor_core_def grid_wf_def)
  moreover have "currentTool t = Pencil \<and> isDrawing t"
    using drawLine_cells [of row col row' col' s1] t plot_cells_keeps_pen [of s1]
      plot_cells_drawPixel [OF core1] by (auto simp: eq)
  ultimately show ?thesis using down mv by simp
qed

text \<open>C9.  A drag paints a continuous stroke: when the pointer moves, with the
  left button held during a pencil or eraser gesture, from the last drawn cell
  to another cell, every in-grid cell of the 8-connected Bresenham line
  between the two cells takes the pen's colour, and the new cell becomes the
  last drawn one.\<close>

theorem drag_paints_line:
  assumes "editor_core s" "currentTool s \<in> {Pencil, Eraser}" "0 < brushSize s"
    and "0 < gridWidth s" "0 < gridHeight s" "isDrawing s" "lastDrawnPos s = Some (r0, c0)"
    and "buttons ev = 1" "getCanvasCoordinates cv ev s = Some (r1, c1)" "(r1, c1) \<noteq> (r0, c0)"
  shows "\<exists>s' cs. step (CanvasMove cv ev) s = Some s' \<and> line_cells r0 c0 r1 c1 = Some cs \<and>
    hd cs = (r0, c0) \<and> last cs = (r1, c1) \<and> successively adj8 cs \<and>
    (\<forall>(r, c) \<in> set cs. in_bounds (gridHeight s) (gridWidth s) r c \<longrightarrow>
       grid_get (grid s') r c = Some (if currentTool s = Pencil then currentColor s else WHITE)) \<and>
    lastDrawnPos s' = Some (r1, c1)"
proof -
  obtain cs where run: "\<forall>(plot :: editor \<Rightarrow> int \<Rightarrow> int \<Rightarrow> editor) s. bresenham plot s r0 c0 r1 c1 = Some (plot_cells plot cs s)"
    and lc: "line_cells r0 c0 r1 c1 = Some cs" and shape: "hd cs = (r0, c0)" "last cs = (r1, c1)" "successively adj8 cs"
    using bresenham_run [where 's = editor, of r0 c0 r1 c1] by blast
  let ?t = "plot_cells (\<lambda>s r c. drawPixel r c s) cs s"
  have mv: "step (CanvasMove cv ev) s = Some (?t\<lparr>lastDrawnPos := Some (r1, c1)\<rparr>)"
    using assms(2,6-10) run by (auto simp: step_def onCanvasMouseMove_eq brush_tool_def drawLine_def)
  have "\<forall>(r, c) \<in> set cs. in_bounds (gridHeight s) (gridWidth s) r c \<longrightarrow>
      grid_get (grid ?t) r c = Some (if currentTool s = Pencil then currentColor s else WHITE)"
    using plot_cells_pen_paints [OF assms(1-3)] by blast
  with mv lc shape show ?thesis by auto
qed

text \<open>C10.  A stroke can start without a press on the canvas: a pointer move
  over the canvas with the left button held, between gestures, with the
  pencil or the eraser, starts a gesture and stamps the cell under the
  pointer, as when a drag that began outside the canvas enters it.\<close>

theorem drag_in_starts_stroke:
  assumes "grid_wf s" "currentTool s \<in> {Pencil, Eraser}" "0 < brushSize s"
    and "0 < gridWidth s" "0 < gridHeight s" "\<not> isDrawing s" "lastDrawnPos s = None"
    and "buttons ev = 1" "getCanvasCoordinates cv ev s = Some (row, col)"
  shows "\<exists>s'. step (CanvasMove cv ev) s = Some s' \<and> isDrawing s' \<and>
    grid_get (grid s') row col = Some (if currentTool s = Pencil then currentColor s else WHITE) \<and>
    history s' = history s \<and> lastDrawnPos s' = Some (row, col)"
proof -
  let ?s1 = "s\<lparr>isDrawing := True\<rparr>"
  have ib: "in_bounds (gridHeight s) (gridWidth s) row col"
    using coords_in_bounds [OF assms(9,4,5)] .
  have mv: "step (CanvasMove cv ev) s = Some ((drawPixel row col ?s1)\<lparr>lastDrawnPos := Some (row, col)\<rparr>)"
    using assms(2,6-9) by (auto simp: step_def onCanvasMouseMove_eq brush_tool_def)
  have "grid_get (grid (drawPixel row col ?s1)) row col = Some (if currentTool s = Pencil then currentColor s else WHITE)"
    using drawPixel_pen_paints [of ?s1 row col row col] assms(1-3) ib by (simp add: grid_wf_def)
  moreover have "history (drawPixel row col ?s1) = history s"
    using drawPixel_brush_eq [of ?s1 row col] ib assms(2) by simp
  ultimately show ?thesis using mv by simp
qed

subsection \<open>Witnesses\<close>

theorem reachable_inv_witness:
  "reachable init_editor \<and> editor_inv init_editor \<and> readme_limits init_editor"
  using reachable_inv [OF reachable.init] by (simp add: reachable.init)

theorem fill_click_two_snapshots_witness:
  "\<exists>s'. Option.bind (step (CanvasDown (Some \<lparr>rect_left = 0, rect_top = 0, rect_width = 640, rect_height = 640\<rparr>)
          \<lparr>clientX = 0, clientY = 0, buttons = 1\<rparr>) (demo_editor\<lparr>currentTool := Fill\<rparr>)) (step CanvasUp) = Some s' \<and>
     grid s' = floodFill 3 3 (new_grid 3 3) 0 0 WHITE BLACK \<and>
     history s' = [new_grid 3 3, floodFill 3 3 (new_grid 3 3) 0 0 WHITE BLACK, floodFill 3 3 (new_grid 3 3) 0 0 WHITE BLACK]"
proof -
  have c: "getCanvasCoordinates (Some \<lparr>rect_left = 0, rect_top = 0, rect_width = 640, rect_height = 640\<rparr>)
      \<lparr>clientX = 0, clientY = 0, buttons = 1\<rparr> (demo_editor\<lparr>currentTool := Fill\<rparr>) = Some (0, 0)"
    by (simp add: getCanvasCoordinates_def demo_editor_def)
  show ?thesis
    using fill_click_two_snapshots [OF _ _ _ _ _ _ c]
    by (simp add: demo_editor_def hist_top_def MAX_HISTORY_def new_grid_def)
qed

theorem brush_click_one_snapshot_witness:
  "\<exists>s'. Option.bind (step (CanvasDown (Some \<lparr>rect_left = 0, rect_top = 0, rect_width = 640, rect_height = 640\<rparr>)
          \<lparr>clientX = 0, clientY = 0, buttons = 1\<rparr>) demo_editor) (step CanvasUp) = Some s' \<and>
     grid s' = grid (startDrawing 0 0 demo_editor) \<and> history s' = [new_grid 3 3, grid s'] \<and> \<not> isDrawing s'"
proof -
  have c: "getCanvasCoordinates (Some \<lparr>rect_left = 0, rect_top = 0, rect_width = 640, rect_height = 640\<rparr>)
      \<lparr>clientX = 0, clientY = 0, buttons = 1\<rparr> demo_editor = Some (0, 0)"
    by (simp add: getCanvasCoordinates_def demo_editor_def)
  show ?thesis
    using brush_click_one_snapshot [OF _ _ _ _ _ _ c]
    by (simp add: demo_editor_def hist_top_def MAX_HISTORY_def)
qed

theorem eyedropper_click_snapshot_witness:
  "\<exists>s'. Option.bind (step (CanvasDown (Some \<lparr>rect_left = 0, rect_top = 0, rect_width = 640, rect_height = 640\<rparr>)
          \<lparr>clientX = 0, clientY = 0, buttons = 1\<rparr>) (demo_editor\<lparr>currentTool := Eyedropper\<rparr>)) (step CanvasUp) = Some s' \<and>
     grid s' = new_grid 3 3 \<and> history s' = [new_grid 3 3, new_grid 3 3] \<and> currentTool s' = Pencil \<and>
     WHITE = currentColor s'"
proof -
  have c: "getCanvasCoordinates (Some \<lparr>rect_left = 0, rect_top = 0, rect_width = 640, rect_height = 640\<rparr>)
      \<lparr>clientX = 0, clientY = 0, buttons = 1\<rparr> (demo_editor\<lparr>currentTool := Eyedropper\<rparr>) = Some (0, 0)"
    by (simp add: getCanvasCoordinates_def demo_editor_def)
  have wf: "grid_wf (demo_editor\<lparr>currentTool := Eyedropper\<rparr>)"
    using demo_editor_wf by (simp add: grid_wf_def demo_editor_def)
  show ?thesis
    using eyedropper_click_snapshot [OF _ _ _ _ _ _ c wf]
    by (simp add: demo_editor_def hist_top_def MAX_HISTORY_def new_grid_def grid_get_def)
qed


theorem eyedropper_drag_paints_witness:
  "\<exists>s'. Option.bind (step (CanvasDown (Some \<lparr>rect_left = 0, rect_top = 0, rect_width = 640, rect_height = 640\<rparr>)
          \<lparr>clientX = 0, clientY = 0, buttons = 1\<rparr>) (demo_editor\<lparr>currentTool := Eyedropper\<rparr>))
       (step (CanvasMove (Some \<lparr>rect_left = 0, rect_top = 0, rect_width = 640, rect_height = 640\<rparr>)
          \<lparr>clientX = 640 / 3, clientY = 0, buttons = 1\<rparr>)) = Some s' \<and>
     currentTool s' = Pencil \<and> isDrawing s' \<and> grid_get (grid s') 0 1 = Some WHITE"
proof -
  let ?cv = "Some \<lparr>rect_left = 0, rect_top = 0, rect_width = 640, rect_height = 640\<rparr>"
  have c: "getCanvasCoordinates ?cv \<lparr>clientX = 0, clientY = 0, buttons = 1\<rparr> (demo_editor\<lparr>currentTool := Eyedropper\<rparr>) = Some (0, 0)"
    "getCanvasCoordinates ?cv \<lparr>clientX = 640 / 3, clientY = 0, buttons = 1\<rparr> (demo_editor\<lparr>currentTool := Eyedropper\<rparr>) = Some (0, 1)"
    by (simp_all add: getCanvasCoordinates_def demo_editor_def pixelSize_def CANVAS_SIZE_def)
  have core: "editor_core (demo_editor\<lparr>currentTool := Eyedropper\<rparr>)"
    using demo_editor_wf colorHistory_inv_initial
    by (simp add: editor_core_def grid_wf_def hist_inv_def hist_bounds_def demo_editor_def)
  show ?thesis
    using eyedropper_drag_paints [OF core _ _ _ _ c(1) _ c(2)]
    by (simp add: demo_editor_def grid_get_def new_grid_def)
qed


theorem drag_paints_line_witness:
  "\<exists>s' cs. step (CanvasMove (Some \<lparr>rect_left = 0, rect_top = 0, rect_width = 640, rect_height = 640\<rparr>)
          \<lparr>clientX = 1280 / 3, clientY = 0, buttons = 1\<rparr>)
        (demo_editor\<lparr>isDrawing := True, lastDrawnPos := Some (0, 0)\<rparr>) = Some s' \<and>
     line_cells 0 0 0 2 = Some cs \<and> (0, 1) \<in> set cs \<and> grid_get (grid s') 0 1 = Some BLACK"
proof -
  let ?s = "demo_editor\<lparr>isDrawing := True, lastDrawnPos := Some (0, 0)\<rparr>"
  have c: "getCanvasCoordinates (Some \<lparr>rect_left = 0, rect_top = 0, rect_width = 640, rect_height = 640\<rparr>)
      \<lparr>clientX = 1280 / 3, clientY = 0, buttons = 1\<rparr> ?s = Some (0, 2)"
    by (simp add: getCanvasCoordinates_def demo_editor_def pixelSize_def CANVAS_SIZE_def)
  have core: "editor_core ?s"
    using demo_editor_wf colorHistory_inv_initial
    by (simp add: editor_core_def grid_wf_def hist_inv_def hist_bounds_def demo_editor_def)
  have l: "line_cells 0 0 0 2 = Some [(0, 0), (0, 1), (0, 2)]"
    by (simp add: line_cells_def bresenham_def line_loop_unfold)
  show ?thesis
    using drag_paints_line [OF core _ _ _ _ _ _ _ c] l
    by (simp add: demo_editor_def in_bounds_def) blast
qed


theorem brush_click_undo_witness:
  "\<exists>s'. Option.bind (step (CanvasDown (Some \<lparr>rect_left = 0, rect_top = 0, rect_width = 640, rect_height = 640\<rparr>)
          \<lparr>clientX = 0, clientY = 0, buttons = 1\<rparr>) demo_editor) (step CanvasUp) = Some s' \<and>
     step (KeyDown \<lparr>key = ''z'', ctrlKey = True, metaKey = False, shiftKey = False\<rparr>) s' = Some (undo s') \<and>
     grid (undo s') = new_grid 3 3"
proof -
  have c: "getCanvasCoordinates (Some \<lparr>rect_left = 0, rect_top = 0, rect_width = 640, rect_height = 640\<rparr>)
      \<lparr>clientX = 0, clientY = 0, buttons = 1\<rparr> demo_editor = Some (0, 0)"
    by (simp add: getCanvasCoordinates_def demo_editor_def)
  show ?thesis
    using brush_click_undo [OF _ _ _ _ _ _ _ _ c]
    by (simp add: demo_editor_def hist_top_def hist_synced_def MAX_HISTORY_def)
qed

theorem fill_click_undo_witness:
  "\<exists>s'. Option.bind (step (CanvasDown (Some \<lparr>rect_left = 0, rect_top = 0, rect_width = 640, rect_height = 640\<rparr>)
          \<lparr>clientX = 0, clientY = 0, buttons = 1\<rparr>) (demo_editor\<lparr>currentTool := Fill\<rparr>)) (step CanvasUp) = Some s' \<and>
     grid (undo s') = grid s' \<and> grid (undo (undo s')) = new_grid 3 3"
proof -
  have c: "getCanvasCoordinates (Some \<lparr>rect_left = 0, rect_top = 0, rect_width = 640, rect_height = 640\<rparr>)
      \<lparr>clientX = 0, clientY = 0, buttons = 1\<rparr> (demo_editor\<lparr>currentTool := Fill\<rparr>) = Some (0, 0)"
    by (simp add: getCanvasCoordinates_def demo_editor_def)
  show ?thesis
    using fill_click_undo [OF _ _ _ _ _ _ _ _ c]
    by (simp add: demo_editor_def hist_top_def hist_synced_def MAX_HISTORY_def)
qed


theorem drag_in_starts_stroke_witness:
  "\<exists>s'. step (CanvasMove (Some \<lparr>rect_left = 0, rect_top = 0, rect_width = 640, rect_height = 640\<rparr>)
          \<lparr>clientX = 0, clientY = 0, buttons = 1\<rparr>) demo_editor = Some s' \<and> isDrawing s' \<and>
     grid_get (grid s') 0 0 = Some BLACK \<and> history s' = [new_grid 3 3]"
proof -
  have c: "getCanvasCoordinates (Some \<lparr>rect_left = 0, rect_top = 0, rect_width = 640, rect_height = 640\<rparr>)
      \<lparr>clientX = 0, clientY = 0, buttons = 1\<rparr> demo_editor = Some (0, 0)"
    by (simp add: getCanvasCoordinates_def demo_editor_def)
  show ?thesis
    using drag_in_starts_stroke [OF _ _ _ _ _ _ _ _ c] demo_editor_wf
    by (simp add: demo_editor_def) blast
qed

end
